(* ===== verification/Prelude.thy ===== *)
theory Prelude
  imports Main "HOL-Library.Multiset"
begin

text \<open>
  What every component of the model shares: 64-bit signed integers, the fallible stateful
  programs the Go functions become, a calculus of triples over them, and tables of keyed rows
  (the shape of a Postgres table with a primary key).

  A Go function that returns \<open>(T, error)\<close> becomes a value of type \<open>'e + 'a\<close>, with \<open>Inl\<close> for a
  non-nil error. One that also acts on the outside world becomes a \<open>prog\<close>: it takes the world
  and returns the result together with the new world, and the new world is returned for an
  error too, because a Go function keeps the effects it had before it returned an error.
\<close>

section \<open>Collections of facts\<close>

named_theorems triple_rule \<open>rules of the triple calculus, for \<open>intro\<close>\<close>
named_theorems run \<open>equations that run a program on a world\<close>

section \<open>Go's int on a 64-bit platform\<close>

definition wrap64 :: "int \<Rightarrow> int" where
  "wrap64 x = (x + 2 ^ 63) mod 2 ^ 64 - 2 ^ 63"

definition in64 :: "int \<Rightarrow> bool" where
  "in64 x \<longleftrightarrow> - (2 ^ 63) \<le> x \<and> x < 2 ^ 63"

text \<open>The range of a Postgres INTEGER column.\<close>

definition max_int4 :: int where
  "max_int4 = 2147483647"

lemma wrap64_id [simp]: "in64 x \<Longrightarrow> wrap64 x = x"
  by (simp add: wrap64_def in64_def mod_pos_pos_trivial)

lemma wrap64_in64 [simp]: "in64 (wrap64 x)"
proof -
  have "0 \<le> (x + 2 ^ 63) mod 2 ^ 64" "(x + 2 ^ 63) mod 2 ^ 64 < 2 ^ 64" by simp_all
  then show ?thesis unfolding wrap64_def in64_def by auto
qed

lemma in64I: "- 9223372036854775808 \<le> x \<Longrightarrow> x \<le> 9223372036854775807 \<Longrightarrow> in64 x"
  by (simp add: in64_def)

lemma in64_int4: "0 \<le> x \<Longrightarrow> x \<le> 2 * max_int4 \<Longrightarrow> in64 x"
  by (simp add: in64_def max_int4_def)

lemma wrap64_overflow: "2 ^ 63 \<le> x \<Longrightarrow> x < 2 ^ 64 \<Longrightarrow> wrap64 x = x - 2 ^ 64"
proof -
  assume x: "2 ^ 63 \<le> x" "x < 2 ^ 64"
  have "(x + 2 ^ 63) mod 2 ^ 64 = (x + 2 ^ 63 - 2 ^ 64) mod 2 ^ 64"
    using minus_mod_self2 [of "x + 2 ^ 63" "2 ^ 64"] by simp
  also have "\<dots> = x + 2 ^ 63 - 2 ^ 64"
    using x by (intro mod_pos_pos_trivial) auto
  finally show ?thesis by (simp add: wrap64_def)
qed

lemma wrap64_add: "wrap64 (wrap64 x + y) = wrap64 (x + y)"
proof -
  have "((x + 2 ^ 63) mod 2 ^ 64 - 2 ^ 63 + y + 2 ^ 63) mod 2 ^ 64 = ((x + 2 ^ 63) mod 2 ^ 64 + y) mod 2 ^ 64"
    by (simp add: algebra_simps)
  also have "\<dots> = (x + 2 ^ 63 + y) mod 2 ^ 64" by (rule mod_add_left_eq)
  finally show ?thesis by (simp add: wrap64_def algebra_simps)
qed

section \<open>Programs: state with errors\<close>

type_synonym ('w, 'e, 'a) prog = "'w \<Rightarrow> ('e + 'a) \<times> 'w"

definition ret :: "'a \<Rightarrow> ('w, 'e, 'a) prog" where
  "ret x = (\<lambda>w. (Inr x, w))"

definition throw :: "'e \<Rightarrow> ('w, 'e, 'a) prog" where
  "throw e = (\<lambda>w. (Inl e, w))"

text \<open>The value a pure fallible function returned, as a program.\<close>

definition lift :: "'e + 'a \<Rightarrow> ('w, 'e, 'a) prog" where
  "lift r = (\<lambda>w. (r, w))"

text \<open>\<open>x, err := m; if err != nil { return err }; f(x)\<close>\<close>

definition andthen :: "('w, 'e, 'a) prog \<Rightarrow> ('a \<Rightarrow> ('w, 'e, 'b) prog) \<Rightarrow> ('w, 'e, 'b) prog" where
  "andthen m f = (\<lambda>w. case m w of (Inl e, w') \<Rightarrow> (Inl e, w') | (Inr x, w') \<Rightarrow> f x w')"

text \<open>\<open>x, err := m\<close> where the error is replaced by another one.\<close>

definition maperr :: "('e \<Rightarrow> 'e) \<Rightarrow> ('w, 'e, 'a) prog \<Rightarrow> ('w, 'e, 'a) prog" where
  "maperr g m = (\<lambda>w. case m w of (Inl e, w') \<Rightarrow> (Inl (g e), w') | (Inr x, w') \<Rightarrow> (Inr x, w'))"

text \<open>A loop over a slice that stops at the first error.\<close>

fun each :: "('a \<Rightarrow> ('w, 'e, unit) prog) \<Rightarrow> 'a list \<Rightarrow> ('w, 'e, unit) prog" where
  "each f [] = ret ()"
| "each f (x # xs) = andthen (f x) (\<lambda>_. each f xs)"

lemma andthen_ret [simp]: "andthen (ret x) f = f x"
  by (simp add: andthen_def ret_def)

lemma andthen_throw [simp]: "andthen (throw e) f = throw e"
  by (simp add: andthen_def throw_def)

lemma lift_Inr [simp]: "lift (Inr x) = ret x"
  by (simp add: lift_def ret_def)

lemma lift_Inl [simp]: "lift (Inl e) = throw e"
  by (simp add: lift_def throw_def)

lemma andthen_apply [run]:
  "andthen m f w = (case m w of (Inl e, w') \<Rightarrow> (Inl e, w') | (Inr x, w') \<Rightarrow> f x w')"
  by (simp add: andthen_def)

lemma andthen_eqR [simp]: "m w = (Inr x, w') \<Longrightarrow> andthen m f w = f x w'"
  by (simp add: andthen_def)

lemma andthen_eqL [simp]: "m w = (Inl e, w') \<Longrightarrow> andthen m f w = (Inl e, w')"
  by (simp add: andthen_def)

lemma ret_apply [run]: "ret x w = (Inr x, w)"
  by (simp add: ret_def)

lemma throw_apply [run]: "throw e w = (Inl e, w)"
  by (simp add: throw_def)

lemma lift_apply [run]: "lift r w = (r, w)"
  by (simp add: lift_def)

subsection \<open>Triples\<close>

text \<open>
  \<open>triple P m Q E\<close>: from a world that satisfies \<open>P\<close>, \<open>m\<close> ends in \<open>Q x\<close> when it returns \<open>x\<close>,
  and in \<open>E e\<close> when it returns the error \<open>e\<close>. Programs are total functions, so there is no
  partial correctness in it.
\<close>

definition triple ::
  "('w \<Rightarrow> bool) \<Rightarrow> ('w, 'e, 'a) prog \<Rightarrow> ('a \<Rightarrow> 'w \<Rightarrow> bool) \<Rightarrow> ('e \<Rightarrow> 'w \<Rightarrow> bool) \<Rightarrow> bool" where
  "triple P m Q E \<longleftrightarrow>
     (\<forall>w. P w \<longrightarrow> (case m w of (Inr x, w') \<Rightarrow> Q x w' | (Inl e, w') \<Rightarrow> E e w'))"

lemma tripleI:
  assumes "\<And>w x w'. P w \<Longrightarrow> m w = (Inr x, w') \<Longrightarrow> Q x w'"
    and "\<And>w e w'. P w \<Longrightarrow> m w = (Inl e, w') \<Longrightarrow> E e w'"
  shows "triple P m Q E"
  using assms by (auto simp: triple_def split: prod.split sum.split)

lemma tripleR: "triple P m Q E \<Longrightarrow> P w \<Longrightarrow> m w = (Inr x, w') \<Longrightarrow> Q x w'"
  by (fastforce simp: triple_def)

lemma tripleL: "triple P m Q E \<Longrightarrow> P w \<Longrightarrow> m w = (Inl e, w') \<Longrightarrow> E e w'"
  by (fastforce simp: triple_def)

lemma triple_weaken:
  assumes "triple P' m Q' E'"
    and "\<And>w. P w \<Longrightarrow> P' w" and "\<And>x w. Q' x w \<Longrightarrow> Q x w" and "\<And>e w. E' e w \<Longrightarrow> E e w"
  shows "triple P m Q E"
  by (rule tripleI) (metis assms tripleR, metis assms tripleL)

lemma triple_pre: "triple P' m Q E \<Longrightarrow> (\<And>w. P w \<Longrightarrow> P' w) \<Longrightarrow> triple P m Q E"
  by (erule triple_weaken) auto

lemma triple_ret [triple_rule]: "(\<And>w. P w \<Longrightarrow> Q x w) \<Longrightarrow> triple P (ret x) Q E"
  by (simp add: triple_def run)

lemma triple_throw [triple_rule]: "(\<And>w. P w \<Longrightarrow> E e w) \<Longrightarrow> triple P (throw e) Q E"
  by (simp add: triple_def run)

lemma triple_lift:
  "(\<And>x w. r = Inr x \<Longrightarrow> P w \<Longrightarrow> Q x w) \<Longrightarrow> (\<And>e w. r = Inl e \<Longrightarrow> P w \<Longrightarrow> E e w)
   \<Longrightarrow> triple P (lift r) Q E"
  by (cases r) (auto simp: triple_def run)

lemma triple_andthen:
  assumes "triple P m R E" and "\<And>x. triple (R x) (f x) Q E"
  shows "triple P (andthen m f) Q E"
proof (rule tripleI)
  fix w x w' assume "P w" "andthen m f w = (Inr x, w')"
  then show "Q x w'"
    by (cases "m w"; cases "fst (m w)") (auto dest: tripleR [OF assms(1)] tripleR [OF assms(2)])
next
  fix w e w' assume "P w" "andthen m f w = (Inl e, w')"
  then show "E e w'"
    by (cases "m w"; cases "fst (m w)")
      (auto dest: tripleL [OF assms(1)] tripleR [OF assms(1)] tripleL [OF assms(2)])
qed

lemma triple_if [triple_rule]:
  "(c \<Longrightarrow> triple P m Q E) \<Longrightarrow> (\<not> c \<Longrightarrow> triple P n Q E) \<Longrightarrow> triple P (if c then m else n) Q E"
  by simp

lemma triple_option [triple_rule]:
  "(z = None \<Longrightarrow> triple P m Q E) \<Longrightarrow> (\<And>x. z = Some x \<Longrightarrow> triple P (n x) Q E)
   \<Longrightarrow> triple P (case z of None \<Rightarrow> m | Some x \<Rightarrow> n x) Q E"
  by (cases z) auto

lemma triple_maperr:
  "triple P m Q (\<lambda>e. E (g e)) \<Longrightarrow> triple P (maperr g m) Q E"
  by (fastforce simp: triple_def maperr_def split: prod.splits sum.splits)

lemma triple_ex:
  "(\<And>z. triple (P z) m Q E) \<Longrightarrow> triple (\<lambda>w. \<exists>z. P z w) m Q E"
  by (rule tripleI) (blast dest: tripleR tripleL)+

lemma triple_conj:
  "(c \<Longrightarrow> triple P m Q E) \<Longrightarrow> triple (\<lambda>w. c \<and> P w) m Q E"
  by (auto simp: triple_def)

text \<open>A loop, with an invariant over the elements that are still to come.\<close>

lemma triple_each:
  assumes "\<And>x xs. triple (I (x # xs)) (f x) (\<lambda>_. I xs) E"
  shows "triple (I xs) (each f xs) (\<lambda>_. I []) E"
proof (induction xs)
  case Nil
  show ?case by (simp add: triple_ret)
next
  case (Cons x xs)
  show ?case by (simp add: triple_andthen [OF assms Cons.IH])
qed

section \<open>Tables\<close>

text \<open>
  A table is a list of rows, in no order a query may rely on, and a key of each row.
  \<open>find_row\<close> is \<open>SELECT \<dots> WHERE key = k\<close>; \<open>upsert\<close> is \<open>INSERT \<dots> ON CONFLICT (key) DO UPDATE\<close>
  with the whole row replaced.
\<close>

fun find_row :: "('r \<Rightarrow> 'k) \<Rightarrow> 'k \<Rightarrow> 'r list \<Rightarrow> 'r option" where
  "find_row key k [] = None"
| "find_row key k (r # rs) = (if key r = k then Some r else find_row key k rs)"

fun upsert :: "('r \<Rightarrow> 'k) \<Rightarrow> 'r \<Rightarrow> 'r list \<Rightarrow> 'r list" where
  "upsert key x [] = [x]"
| "upsert key x (r # rs) = (if key r = key x then x # rs else r # upsert key x rs)"

text \<open>The sum of a column, or of any measure of a row.\<close>

definition total :: "('r \<Rightarrow> int) \<Rightarrow> 'r list \<Rightarrow> int" where
  "total f rs = sum_list (map f rs)"

lemma total_Nil [simp]: "total f [] = 0"
  by (simp add: total_def)

lemma total_Cons [simp]: "total f (r # rs) = f r + total f rs"
  by (simp add: total_def)

lemma total_append [simp]: "total f (rs @ ss) = total f rs + total f ss"
  by (simp add: total_def)

lemma total_nonneg: "(\<And>r. r \<in> set rs \<Longrightarrow> 0 \<le> f r) \<Longrightarrow> 0 \<le> total f rs"
  by (induction rs) (auto intro: add_nonneg_nonneg)

lemma total_cong: "(\<And>r. r \<in> set rs \<Longrightarrow> f r = g r) \<Longrightarrow> total f rs = total g rs"
  by (induction rs) auto

lemma total_zero: "(\<And>r. r \<in> set rs \<Longrightarrow> f r = 0) \<Longrightarrow> total f rs = 0"
  by (induction rs) auto

lemma total_mono: "(\<And>r. r \<in> set rs \<Longrightarrow> f r \<le> g r) \<Longrightarrow> total f rs \<le> total g rs"
  by (induction rs) (auto intro: add_mono)

lemma total_plus: "total (\<lambda>r. f r + g r) rs = total f rs + total g rs"
  by (induction rs) auto

lemma total_map [simp]: "total f (map h rs) = total (\<lambda>r. f (h r)) rs"
  by (induction rs) auto

lemma total_filter: "total f (filter p rs) = total (\<lambda>r. if p r then f r else 0) rs"
  by (induction rs) auto

lemma total_mset: "mset rs = mset ss \<Longrightarrow> total f rs = total f ss"
  unfolding total_def by (metis mset_map sum_mset_sum_list)

lemma foldl_wrap64:
  "wrap64 (foldl (\<lambda>t r. wrap64 (t + f r)) a rs) = wrap64 (a + total f rs)"
proof (induction rs arbitrary: a)
  case (Cons r rs)
  have "wrap64 (wrap64 (a + f r) + total f rs) = wrap64 (a + f r + total f rs)" by (rule wrap64_add)
  then show ?case by (simp add: Cons.IH add.assoc)
qed simp

lemma total_member_le:
  "r \<in> set rs \<Longrightarrow> (\<And>s. s \<in> set rs \<Longrightarrow> 0 \<le> f s) \<Longrightarrow> f r \<le> total f rs"
proof (induction rs)
  case (Cons s rs)
  then have "0 \<le> total f rs" by (intro total_nonneg) simp
  with Cons show ?case by fastforce
qed simp

lemma find_row_key: "find_row key k rs = Some r \<Longrightarrow> key r = k"
  by (induction rs) (auto split: if_splits)

lemma find_row_set: "find_row key k rs = Some r \<Longrightarrow> r \<in> set rs"
  by (induction rs) (auto split: if_splits)

lemma find_row_None: "find_row key k rs = None \<longleftrightarrow> k \<notin> key ` set rs"
  by (induction rs) auto

lemma find_row_distinct: "distinct (map key rs) \<Longrightarrow> r \<in> set rs \<Longrightarrow> find_row key (key r) rs = Some r"
  by (induction rs) (auto simp: image_iff)

lemma find_upsert: "find_row key k (upsert key x rs) = (if k = key x then Some x else find_row key k rs)"
  by (induction rs) auto

lemma keys_upsert: "key ` set (upsert key x rs) = insert (key x) (key ` set rs)"
  by (induction rs) auto

lemma set_upsert_subset: "set (upsert key x rs) \<subseteq> insert x (set rs)"
  by (induction rs) auto

lemma upsert_member: "x \<in> set (upsert key x rs)"
  by (induction rs) auto

lemma distinct_upsert: "distinct (map key rs) \<Longrightarrow> distinct (map key (upsert key x rs))"
proof (induction rs)
  case (Cons r rs)
  then show ?case using keys_upsert [of key x rs] by auto
qed simp

lemma set_upsert:
  "distinct (map key rs) \<Longrightarrow> set (upsert key x rs) = insert x {r \<in> set rs. key r \<noteq> key x}"
  by (induction rs) (auto simp: image_iff)

lemma upsert_fresh: "key x \<notin> key ` set rs \<Longrightarrow> upsert key x rs = rs @ [x]"
  by (induction rs) auto

lemma upsert_same: "find_row key (key x) rs = Some x \<Longrightarrow> upsert key x rs = rs"
  by (induction rs) (auto split: if_splits)

lemma map_upsert_key:
  "find_row key (key x) rs \<noteq> None \<Longrightarrow> map key (upsert key x rs) = map key rs"
  by (induction rs) auto

text \<open>The sum over a table changes by the difference of the row that was written.\<close>

lemma total_upsert:
  "total f (upsert key x rs) =
     total f rs - (case find_row key (key x) rs of None \<Rightarrow> 0 | Some r \<Rightarrow> f r) + f x"
  by (induction rs) auto

lemma total_upsert_Some:
  "find_row key (key x) rs = Some r \<Longrightarrow> total f (upsert key x rs) = total f rs - f r + f x"
  by (simp add: total_upsert)

lemma total_upsert_None:
  "find_row key (key x) rs = None \<Longrightarrow> total f (upsert key x rs) = total f rs + f x"
  by (simp add: total_upsert)

lemma find_row_le_total:
  "find_row key k rs = Some r \<Longrightarrow> (\<And>s. s \<in> set rs \<Longrightarrow> 0 \<le> f s) \<Longrightarrow> f r \<le> total f rs"
  by (meson find_row_set total_member_le)

end
