(* ===== verification/Errors.thy ===== *)
theory Errors
  imports Prelude
begin

text \<open>
  The sentinel errors of the packages, one datatype per \<open>var\<close> block, and the sum of them all.
  In Go two sentinels with the same name in two packages (\<open>stock.ErrInsufficientUsable\<close> and
  \<open>usecases.ErrInsufficientUsable\<close>) are different values that \<open>errors.Is\<close> tells apart; here they
  are different constructors. \<open>InfraErr\<close> is any error of the database driver, the broker client or
  another library, and \<open>Wrapped\<close> is \<open>fmt.Errorf("\<dots>: %w", \<dots>, err)\<close>, which \<open>errors.Is\<close> looks through.
\<close>

datatype shared_err = ErrEmptySKU | ErrEmptyBinID | ErrNegativeQuantity | ErrZeroQuantity

datatype location_err =
  ErrBinFull | ErrInvalidCapacity | ErrReleaseExceedsOccupancy | ErrCapacityBelowOccupancy

datatype stock_err =
  ErrStowRequiresItemAndLocation | StockErrInsufficientUsable | ErrInsufficientReserved
| ErrUnitUnlocated

datatype reservation_err = ErrAlreadyResolved | ErrExpired | ErrNoAllocations

datatype product_err =
  ErrUnknownHandlingTag | ErrUnknownTemperatureClass | ErrNoHandlingTags
| ErrTemperatureClassRequired | ErrTemperatureClassNotApplicable | ErrDuplicateHandlingTag
| ErrInvalidDOTHazardClass | ErrDOTHazardClassNotApplicable

datatype usecase_err =
  ErrStockUnitNotFound | ErrBinNotFound | ErrReservationNotFound | ErrInsufficientUsable
| ErrProductClassificationNotFound | ErrHazmatZoneRequired | ErrTemperatureClassMismatch
| ErrLocationClassificationUnavailable | ErrHazmatClassIncompatible | ErrConcurrentModification

datatype err =
  SharedErr shared_err | LocationErr location_err | StockErr stock_err
| ReservationErr reservation_err | ProductErr product_err | UsecaseErr usecase_err
| PublisherReservationNotFound | NotCloudEvent | InfraErr string | Wrapped string err
| Joined err err

text \<open>\<open>errors.Is(e, target)\<close> for a sentinel \<open>target\<close>.\<close>

fun errors_is :: "err \<Rightarrow> err \<Rightarrow> bool" where
  "errors_is (Wrapped msg e) t = errors_is e t"
| "errors_is (Joined e1 e2) t = (errors_is e1 t \<or> errors_is e2 t)"
| "errors_is e t = (e = t)"

type_synonym 'a result = "err + 'a"

end
