(* ===== verification/Shared.thy ===== *)
theory Shared
  imports Errors
begin

text \<open>
  internal/domain/shared: the value objects SKU, BinId and Quantity, and the domain events. A
  Quantity is Go's \<open>int\<close>: 64 bits, so \<open>Add\<close> and \<open>Sub\<close> wrap around. A time is the number of
  nanoseconds since the epoch.
\<close>

section \<open>SKU and BinId\<close>

type_synonym sku = string
type_synonym bin_id = string
type_synonym time = int

definition NewSKU :: "string \<Rightarrow> sku result" where
  "NewSKU value = (if value = '''' then Inl (SharedErr ErrEmptySKU) else Inr value)"

definition NewBinId :: "string \<Rightarrow> bin_id result" where
  "NewBinId value = (if value = '''' then Inl (SharedErr ErrEmptyBinID) else Inr value)"

lemma NewSKU_iff: "NewSKU v = Inr s \<longleftrightarrow> s = v \<and> v \<noteq> ''''"
  by (auto simp: NewSKU_def)

lemma NewBinId_iff: "NewBinId v = Inr b \<longleftrightarrow> b = v \<and> v \<noteq> ''''"
  by (auto simp: NewBinId_def)

section \<open>Quantity\<close>

type_synonym quantity = int

definition NewQuantity :: "int \<Rightarrow> quantity result" where
  "NewQuantity value = (if value < 0 then Inl (SharedErr ErrNegativeQuantity) else Inr value)"

definition NewPositiveQuantity :: "int \<Rightarrow> quantity result" where
  "NewPositiveQuantity value = (if value \<le> 0 then Inl (SharedErr ErrZeroQuantity) else Inr value)"

definition q_Add :: "quantity \<Rightarrow> quantity \<Rightarrow> quantity" where
  "q_Add q other = wrap64 (q + other)"

definition q_Sub :: "quantity \<Rightarrow> quantity \<Rightarrow> quantity result" where
  "q_Sub q other =
     (let result = wrap64 (q - other)
      in if result < 0 then Inl (SharedErr ErrNegativeQuantity) else Inr result)"

definition GreaterThan :: "quantity \<Rightarrow> quantity \<Rightarrow> bool" where
  "GreaterThan q other \<longleftrightarrow> q > other"

text \<open>
  \<open>x, _ := q.Sub(other)\<close> and \<open>q, _ := NewQuantity(v)\<close>: the callers that drop the error keep the
  zero the function returned with it.
\<close>

definition or_zero :: "quantity result \<Rightarrow> quantity" where
  "or_zero r = (case r of Inl _ \<Rightarrow> 0 | Inr q \<Rightarrow> q)"

lemma or_zero_simps [simp]: "or_zero (Inl e) = 0" "or_zero (Inr q) = q"
  by (simp_all add: or_zero_def)

lemma or_zero_NewQuantity [simp]: "0 \<le> v \<Longrightarrow> or_zero (NewQuantity v) = v"
  by (simp add: NewQuantity_def)

lemma NewQuantity_iff: "NewQuantity v = Inr q \<longleftrightarrow> q = v \<and> 0 \<le> v"
  by (auto simp: NewQuantity_def)

lemma NewPositiveQuantity_iff: "NewPositiveQuantity v = Inr q \<longleftrightarrow> q = v \<and> 0 < v"
  by (auto simp: NewPositiveQuantity_def)

text \<open>Away from the 64-bit boundary the operations are the ones of the integers.\<close>

lemma q_Add_exact [simp]: "in64 (a + b) \<Longrightarrow> q_Add a b = a + b"
  by (simp add: q_Add_def)

lemma q_Sub_exact:
  "in64 (a - b) \<Longrightarrow> q_Sub a b = (if a < b then Inl (SharedErr ErrNegativeQuantity) else Inr (a - b))"
  by (simp add: q_Sub_def Let_def)

lemma in64_diff: "0 \<le> a \<Longrightarrow> 0 \<le> b \<Longrightarrow> in64 a \<Longrightarrow> in64 b \<Longrightarrow> in64 (a - b)"
  by (simp add: in64_def)

lemma q_Sub_nonneg:
  "0 \<le> a \<Longrightarrow> 0 \<le> b \<Longrightarrow> in64 a \<Longrightarrow> in64 b \<Longrightarrow>
   q_Sub a b = (if a < b then Inl (SharedErr ErrNegativeQuantity) else Inr (a - b))"
  by (simp add: q_Sub_exact in64_diff)

lemma q_Sub_result_nonneg: "q_Sub a b = Inr q \<Longrightarrow> 0 \<le> q"
  by (auto simp: q_Sub_def Let_def split: if_splits)

section \<open>Domain events\<close>

datatype domain_event =
  StockReceived (ev_at: time) sku quantity
| ItemStowed (ev_at: time) sku bin_id quantity
| LocationRecorded (ev_at: time) string bin_id
| StockReserved (ev_at: time) string sku quantity string
| ReservationExpired (ev_at: time) string
| ReservationRevoked (ev_at: time) string
| StockPicked (ev_at: time) string sku quantity
| ItemUnlocated (ev_at: time) string sku bin_id quantity
| CycleCountCompleted (ev_at: time) bin_id quantity quantity bool
| DiscrepancyDetected (ev_at: time) bin_id quantity quantity
| ProductClassified (ev_at: time) sku "string list" string int

definition OccurredAt :: "domain_event \<Rightarrow> time" where
  "OccurredAt e = ev_at e"

fun EventName :: "domain_event \<Rightarrow> string" where
  "EventName (StockReceived _ _ _) = ''StockReceived''"
| "EventName (ItemStowed _ _ _ _) = ''ItemStowed''"
| "EventName (LocationRecorded _ _ _) = ''LocationRecorded''"
| "EventName (StockReserved _ _ _ _ _) = ''StockReserved''"
| "EventName (ReservationExpired _ _) = ''ReservationExpired''"
| "EventName (ReservationRevoked _ _) = ''ReservationRevoked''"
| "EventName (StockPicked _ _ _ _) = ''StockPicked''"
| "EventName (ItemUnlocated _ _ _ _ _) = ''ItemUnlocated''"
| "EventName (CycleCountCompleted _ _ _ _ _) = ''CycleCountCompleted''"
| "EventName (DiscrepancyDetected _ _ _ _) = ''DiscrepancyDetected''"
| "EventName (ProductClassified _ _ _ _ _) = ''ProductClassified''"

end
