(* ===== verification/Location.thy ===== *)
theory Location
  imports Shared
begin

text \<open>
  internal/domain/location: the Bin aggregate, a coded slot whose occupancy must not exceed its
  capacity. Each method that mutates the Go struct returns the updated record here.
\<close>

record bin =
  b_id :: bin_id
  b_capacity :: quantity
  b_occupied :: quantity
  b_version :: int

definition NewBin :: "bin_id \<Rightarrow> quantity \<Rightarrow> bin result" where
  "NewBin ident capacity =
     (if ident = '''' then Inl (SharedErr ErrEmptyBinID)
      else if capacity \<le> 0 then Inl (LocationErr ErrInvalidCapacity)
      else Inr \<lparr>b_id = ident, b_capacity = capacity, b_occupied = 0, b_version = 1\<rparr>)"

definition RehydrateBin :: "bin_id \<Rightarrow> quantity \<Rightarrow> quantity \<Rightarrow> int \<Rightarrow> bin" where
  "RehydrateBin ident capacity occupied version =
     \<lparr>b_id = ident, b_capacity = capacity, b_occupied = occupied, b_version = version\<rparr>"

definition Available :: "bin \<Rightarrow> quantity" where
  "Available b = or_zero (q_Sub (b_capacity b) (b_occupied b))"

definition IsFull :: "bin \<Rightarrow> bool" where
  "IsFull b \<longleftrightarrow> GreaterThan (b_occupied b) (b_capacity b) \<or> b_occupied b = b_capacity b"

definition Occupy :: "bin \<Rightarrow> quantity \<Rightarrow> bin result" where
  "Occupy b qty =
     (if qty \<le> 0 then Inl (SharedErr ErrZeroQuantity)
      else if GreaterThan (q_Add (b_occupied b) qty) (b_capacity b) then Inl (LocationErr ErrBinFull)
      else Inr (b\<lparr>b_occupied := q_Add (b_occupied b) qty\<rparr>))"

definition Release :: "bin \<Rightarrow> quantity \<Rightarrow> bin result" where
  "Release b qty =
     (if qty \<le> 0 then Inl (SharedErr ErrZeroQuantity)
      else case q_Sub (b_occupied b) qty of
        Inl _ \<Rightarrow> Inl (LocationErr ErrReleaseExceedsOccupancy)
      | Inr remaining \<Rightarrow> Inr (b\<lparr>b_occupied := remaining\<rparr>))"

definition Resize :: "bin \<Rightarrow> quantity \<Rightarrow> bin result" where
  "Resize b capacity =
     (if capacity \<le> 0 then Inl (LocationErr ErrInvalidCapacity)
      else if GreaterThan (b_occupied b) capacity then Inl (LocationErr ErrCapacityBelowOccupancy)
      else Inr (b\<lparr>b_capacity := capacity\<rparr>))"

section \<open>The invariant of a bin\<close>

definition bin_ok :: "bin \<Rightarrow> bool" where
  "bin_ok b \<longleftrightarrow> 0 \<le> b_occupied b \<and> b_occupied b \<le> b_capacity b \<and> b_capacity b \<le> max_int4"

lemma bin_ok_in64: "bin_ok b \<Longrightarrow> in64 (b_occupied b)" "bin_ok b \<Longrightarrow> in64 (b_capacity b)"
  by (auto simp: bin_ok_def in64_def max_int4_def)

lemma NewBin_ok: "NewBin i c = Inr b \<Longrightarrow> c \<le> max_int4 \<Longrightarrow> bin_ok b"
  by (auto simp: NewBin_def bin_ok_def split: if_splits)

lemma NewBin_fields:
  "NewBin i c = Inr b \<Longrightarrow> b_id b = i \<and> b_capacity b = c \<and> b_occupied b = 0 \<and> i \<noteq> '''' \<and> 0 < c"
  by (auto simp: NewBin_def split: if_splits)

text \<open>
  \<open>Occupy\<close> keeps the invariant only while \<open>occupied + qty\<close> is a 64-bit value: the guard compares the
  wrapped sum.
\<close>

lemma Occupy_exact:
  assumes "bin_ok b" "in64 (b_occupied b + qty)"
  shows "Occupy b qty =
    (if qty \<le> 0 then Inl (SharedErr ErrZeroQuantity)
     else if b_capacity b < b_occupied b + qty then Inl (LocationErr ErrBinFull)
     else Inr (b\<lparr>b_occupied := b_occupied b + qty\<rparr>))"
  using assms by (auto simp: Occupy_def GreaterThan_def)

lemma Occupy_ok:
  assumes "bin_ok b" "Occupy b qty = Inr b'" "in64 (b_occupied b + qty)"
  shows "bin_ok b'" "b_occupied b' = b_occupied b + qty" "b' = b\<lparr>b_occupied := b_occupied b'\<rparr>" "0 < qty"
  using assms by (auto simp: Occupy_exact bin_ok_def split: if_splits)

lemma Release_ok:
  assumes "bin_ok b" "Release b qty = Inr b'" "in64 qty"
  shows "bin_ok b'" "b_occupied b' = b_occupied b - qty" "b' = b\<lparr>b_occupied := b_occupied b'\<rparr>" "0 < qty"
  using assms bin_ok_in64 [OF assms(1)]
  by (auto simp: Release_def q_Sub_nonneg bin_ok_def split: if_splits sum.splits)

lemma Release_enough:
  assumes "bin_ok b" "0 < qty" "qty \<le> b_occupied b"
  shows "Release b qty = Inr (b\<lparr>b_occupied := b_occupied b - qty\<rparr>)"
proof -
  have "in64 qty" using assms by (auto simp: in64_def bin_ok_def max_int4_def)
  with assms bin_ok_in64 [OF assms(1)] show ?thesis
    by (simp add: Release_def q_Sub_nonneg bin_ok_def)
qed

lemma Resize_iff:
  "Resize b c = Inr b' \<longleftrightarrow> 0 < c \<and> b_occupied b \<le> c \<and> b' = b\<lparr>b_capacity := c\<rparr>"
  by (auto simp: Resize_def GreaterThan_def)

lemma Resize_ok: "bin_ok b \<Longrightarrow> Resize b c = Inr b' \<Longrightarrow> c \<le> max_int4 \<Longrightarrow> bin_ok b'"
  by (auto simp: Resize_iff bin_ok_def)

lemma Available_exact: "bin_ok b \<Longrightarrow> Available b = b_capacity b - b_occupied b"
  using bin_ok_in64 [of b] by (auto simp: Available_def q_Sub_nonneg bin_ok_def)

lemma Occupy_id: "Occupy b qty = Inr b' \<Longrightarrow> b_id b' = b_id b \<and> b_version b' = b_version b"
  by (auto simp: Occupy_def split: if_splits)

lemma Release_id: "Release b qty = Inr b' \<Longrightarrow> b_id b' = b_id b \<and> b_version b' = b_version b"
  by (auto simp: Release_def split: if_splits sum.splits)

lemma Resize_id: "Resize b c = Inr b' \<Longrightarrow> b_id b' = b_id b \<and> b_version b' = b_version b"
  by (auto simp: Resize_iff)

end
