(* ===== verification/Stock.thy ===== *)
theory Stock
  imports Shared
begin

text \<open>
  internal/domain/stock: the StockUnit aggregate, a quantity of one SKU in one bin, part of which
  may be reserved. \<open>State\<close> is a Go string type, so it is a string here.
\<close>

type_synonym state = string

definition StateAvailable :: state where "StateAvailable = ''AVAILABLE''"
definition StateReserved :: state where "StateReserved = ''RESERVED''"
definition StatePicked :: state where "StatePicked = ''PICKED''"
definition StateRemoved :: state where "StateRemoved = ''REMOVED''"
definition StateUnlocated :: state where "StateUnlocated = ''UNLOCATED''"

lemmas state_defs =
  StateAvailable_def StateReserved_def StatePicked_def StateRemoved_def StateUnlocated_def

lemma state_distinct [simp]:
  "StateAvailable \<noteq> StateReserved" "StateReserved \<noteq> StateAvailable"
  "StateAvailable \<noteq> StatePicked" "StatePicked \<noteq> StateAvailable"
  "StateAvailable \<noteq> StateRemoved" "StateRemoved \<noteq> StateAvailable"
  "StateAvailable \<noteq> StateUnlocated" "StateUnlocated \<noteq> StateAvailable"
  "StateReserved \<noteq> StatePicked" "StatePicked \<noteq> StateReserved"
  "StateReserved \<noteq> StateRemoved" "StateRemoved \<noteq> StateReserved"
  "StateReserved \<noteq> StateUnlocated" "StateUnlocated \<noteq> StateReserved"
  "StatePicked \<noteq> StateRemoved" "StateRemoved \<noteq> StatePicked"
  "StatePicked \<noteq> StateUnlocated" "StateUnlocated \<noteq> StatePicked"
  "StateRemoved \<noteq> StateUnlocated" "StateUnlocated \<noteq> StateRemoved"
  by (simp_all add: state_defs)

record stock_unit =
  u_id :: string
  u_sku :: sku
  u_bin :: bin_id
  u_quantity :: quantity
  u_reserved :: quantity
  u_state :: state
  u_version :: int

definition NewStockUnit :: "string \<Rightarrow> sku \<Rightarrow> bin_id \<Rightarrow> quantity \<Rightarrow> stock_unit result" where
  "NewStockUnit ident sk binID qty =
     (if sk = '''' \<or> binID = '''' then Inl (StockErr ErrStowRequiresItemAndLocation)
      else if qty \<le> 0 then Inl (SharedErr ErrZeroQuantity)
      else Inr \<lparr>u_id = ident, u_sku = sk, u_bin = binID, u_quantity = qty, u_reserved = 0,
                u_state = StateAvailable, u_version = 1\<rparr>)"

definition RehydrateStockUnit ::
  "string \<Rightarrow> sku \<Rightarrow> bin_id \<Rightarrow> quantity \<Rightarrow> quantity \<Rightarrow> state \<Rightarrow> int \<Rightarrow> stock_unit" where
  "RehydrateStockUnit ident sk binID qty res st version =
     \<lparr>u_id = ident, u_sku = sk, u_bin = binID, u_quantity = qty, u_reserved = res, u_state = st,
      u_version = version\<rparr>"

definition Usable :: "stock_unit \<Rightarrow> quantity" where
  "Usable u =
     (if u_state u = StateUnlocated \<or> u_state u = StateRemoved then 0
      else case q_Sub (u_quantity u) (u_reserved u) of Inl _ \<Rightarrow> 0 | Inr usable \<Rightarrow> usable)"

definition Reserve :: "stock_unit \<Rightarrow> quantity \<Rightarrow> stock_unit result" where
  "Reserve u qty =
     (if u_state u = StateUnlocated \<or> u_state u = StateRemoved then Inl (StockErr ErrUnitUnlocated)
      else if GreaterThan qty (Usable u) then Inl (StockErr StockErrInsufficientUsable)
      else Inr (u\<lparr>u_reserved := q_Add (u_reserved u) qty, u_state := StateReserved\<rparr>))"

definition ReleaseReservation :: "stock_unit \<Rightarrow> quantity \<Rightarrow> stock_unit result" where
  "ReleaseReservation u qty =
     (case q_Sub (u_reserved u) qty of
        Inl _ \<Rightarrow> Inl (StockErr ErrInsufficientReserved)
      | Inr remaining \<Rightarrow>
          (let u' = u\<lparr>u_reserved := remaining\<rparr>
           in if u_reserved u' = 0 \<and> u_state u' = StateReserved
              then Inr (u'\<lparr>u_state := StateAvailable\<rparr>) else Inr u'))"

definition Pick :: "stock_unit \<Rightarrow> quantity \<Rightarrow> stock_unit result" where
  "Pick u qty =
     (case q_Sub (u_reserved u) qty of
        Inl _ \<Rightarrow> Inl (StockErr ErrInsufficientReserved)
      | Inr remainingReserved \<Rightarrow>
          (case q_Sub (u_quantity u) qty of
             Inl _ \<Rightarrow> Inl (StockErr ErrInsufficientReserved)
           | Inr remainingQty \<Rightarrow>
               Inr (u\<lparr>u_reserved := remainingReserved, u_quantity := remainingQty,
                      u_state := (if remainingQty = 0 then StateRemoved else StatePicked)\<rparr>)))"

definition MarkUnlocated :: "stock_unit \<Rightarrow> stock_unit" where
  "MarkUnlocated u = u\<lparr>u_state := StateUnlocated\<rparr>"

section \<open>The invariant of a unit\<close>

definition unit_ok :: "stock_unit \<Rightarrow> bool" where
  "unit_ok u \<longleftrightarrow> 0 \<le> u_reserved u \<and> u_reserved u \<le> u_quantity u \<and> u_quantity u \<le> max_int4"

lemma unit_ok_in64: "unit_ok u \<Longrightarrow> in64 (u_reserved u)" "unit_ok u \<Longrightarrow> in64 (u_quantity u)"
  by (auto simp: unit_ok_def in64_def max_int4_def)

lemma Usable_exact:
  "unit_ok u \<Longrightarrow> Usable u =
     (if u_state u = StateUnlocated \<or> u_state u = StateRemoved then 0 else u_quantity u - u_reserved u)"
  using unit_ok_in64 [of u] by (auto simp: Usable_def q_Sub_nonneg unit_ok_def)

lemma Usable_nonneg: "0 \<le> Usable u"
  by (auto simp: Usable_def dest: q_Sub_result_nonneg split: sum.split)

lemma Usable_bounds: "unit_ok u \<Longrightarrow> Usable u \<le> u_quantity u - u_reserved u"
  by (simp add: Usable_exact) (auto simp: unit_ok_def)

lemma NewStockUnit_fields:
  "NewStockUnit i s b q = Inr u \<Longrightarrow>
     u = \<lparr>u_id = i, u_sku = s, u_bin = b, u_quantity = q, u_reserved = 0,
          u_state = StateAvailable, u_version = 1\<rparr> \<and> s \<noteq> '''' \<and> b \<noteq> '''' \<and> 0 < q"
  by (auto simp: NewStockUnit_def split: if_splits)

text \<open>What the operations that a caller may have refused do to the ledger of the unit.\<close>

lemma Reserve_ok:
  assumes "unit_ok u" "Reserve u q = Inr u'" "0 \<le> q"
  shows "unit_ok u'" "u' = u\<lparr>u_reserved := u_reserved u + q, u_state := StateReserved\<rparr>" "q \<le> Usable u"
proof -
  have q: "q \<le> Usable u" and located: "u_state u \<noteq> StateUnlocated" "u_state u \<noteq> StateRemoved"
    using assms(2) by (auto simp: Reserve_def GreaterThan_def split: if_splits)
  then have le: "u_reserved u + q \<le> u_quantity u" using Usable_bounds [OF assms(1)] by simp
  with assms(1,3) have r: "in64 (u_reserved u + q)" by (auto simp: unit_ok_def in64_def max_int4_def)
  show "q \<le> Usable u" by (rule q)
  show u': "u' = u\<lparr>u_reserved := u_reserved u + q, u_state := StateReserved\<rparr>"
    using assms(2) r by (auto simp: Reserve_def split: if_splits)
  show "unit_ok u'" using assms(1,3) le by (auto simp: u' unit_ok_def)
qed

lemma Reserve_enough:
  assumes "unit_ok u" "0 < q" "q \<le> Usable u"
  shows "Reserve u q = Inr (u\<lparr>u_reserved := u_reserved u + q, u_state := StateReserved\<rparr>)"
proof -
  have st: "u_state u \<noteq> StateUnlocated" "u_state u \<noteq> StateRemoved"
    using assms by (auto simp: Usable_def split: if_splits)
  have "u_reserved u + q \<le> u_quantity u" using assms Usable_bounds [OF assms(1)] by simp
  then have "in64 (u_reserved u + q)" using assms by (auto simp: unit_ok_def in64_def max_int4_def)
  with st assms show ?thesis by (simp add: Reserve_def GreaterThan_def)
qed

lemma ReleaseReservation_exact:
  assumes "unit_ok u" "0 \<le> q" "in64 q"
  shows "ReleaseReservation u q =
    (if u_reserved u < q then Inl (StockErr ErrInsufficientReserved)
     else Inr (u\<lparr>u_reserved := u_reserved u - q,
                 u_state := (if u_reserved u = q \<and> u_state u = StateReserved then StateAvailable
                             else u_state u)\<rparr>))"
  using assms unit_ok_in64 [OF assms(1)]
  by (auto simp: ReleaseReservation_def q_Sub_nonneg unit_ok_def Let_def)

lemma Pick_exact:
  assumes "unit_ok u" "0 \<le> q" "in64 q"
  shows "Pick u q =
    (if u_reserved u < q then Inl (StockErr ErrInsufficientReserved)
     else Inr (u\<lparr>u_reserved := u_reserved u - q, u_quantity := u_quantity u - q,
                 u_state := (if u_quantity u = q then StateRemoved else StatePicked)\<rparr>))"
  using assms unit_ok_in64 [OF assms(1)]
  by (auto simp: Pick_def q_Sub_nonneg unit_ok_def)

lemma unit_ok_release:
  "unit_ok u \<Longrightarrow> 0 \<le> q \<Longrightarrow> in64 q \<Longrightarrow> ReleaseReservation u q = Inr u' \<Longrightarrow> unit_ok u'"
  by (auto simp: ReleaseReservation_exact unit_ok_def split: if_splits)

lemma unit_ok_pick: "unit_ok u \<Longrightarrow> 0 \<le> q \<Longrightarrow> in64 q \<Longrightarrow> Pick u q = Inr u' \<Longrightarrow> unit_ok u'"
  by (auto simp: Pick_exact unit_ok_def split: if_splits)

lemma unit_ok_mark [simp]: "unit_ok (MarkUnlocated u) = unit_ok u"
  by (simp add: MarkUnlocated_def unit_ok_def)

lemma unit_ok_version [simp]: "unit_ok (u\<lparr>u_version := v\<rparr>) = unit_ok u"
  by (simp add: unit_ok_def)

text \<open>No operation moves a unit, renames it or touches its version.\<close>

lemma unit_frame:
  "Reserve u q = Inr u' \<Longrightarrow> u_id u' = u_id u \<and> u_sku u' = u_sku u \<and> u_bin u' = u_bin u \<and>
     u_quantity u' = u_quantity u \<and> u_version u' = u_version u"
  "ReleaseReservation u q = Inr u' \<Longrightarrow> u_id u' = u_id u \<and> u_sku u' = u_sku u \<and> u_bin u' = u_bin u \<and>
     u_quantity u' = u_quantity u \<and> u_version u' = u_version u"
  "Pick u q = Inr u' \<Longrightarrow> u_id u' = u_id u \<and> u_sku u' = u_sku u \<and> u_bin u' = u_bin u \<and>
     u_version u' = u_version u"
  by (auto simp: Reserve_def ReleaseReservation_def Pick_def Let_def split: if_splits sum.splits)

section \<open>The states of a unit\<close>

text \<open>
  What the state of a unit says about its ledger: AVAILABLE means that nothing is reserved, RESERVED
  that something is, and REMOVED that nothing is left.
\<close>

definition state_ok :: "stock_unit \<Rightarrow> bool" where
  "state_ok u \<longleftrightarrow>
     u_state u \<in> {StateAvailable, StateReserved, StatePicked, StateRemoved, StateUnlocated} \<and>
     (u_state u = StateAvailable \<longrightarrow> u_reserved u = 0) \<and>
     (u_state u = StateReserved \<longrightarrow> 0 < u_reserved u) \<and>
     (u_state u = StateRemoved \<longleftrightarrow> u_quantity u = 0)"

lemma state_ok_version [simp]: "state_ok (u\<lparr>u_version := v\<rparr>) = state_ok u"
  by (simp add: state_ok_def)

lemma state_ok_new: "NewStockUnit i s b q = Inr u \<Longrightarrow> state_ok u"
  by (auto dest!: NewStockUnit_fields simp: state_ok_def)

lemma state_ok_reserve: "unit_ok u \<Longrightarrow> 0 < q \<Longrightarrow> Reserve u q = Inr u' \<Longrightarrow> state_ok u'"
  using Reserve_ok(2,3) [of u q u'] Usable_bounds [of u]
  by (auto simp: state_ok_def unit_ok_def)

lemma state_ok_release:
  "unit_ok u \<Longrightarrow> state_ok u \<Longrightarrow> 0 \<le> q \<Longrightarrow> in64 q \<Longrightarrow> ReleaseReservation u q = Inr u' \<Longrightarrow> state_ok u'"
  by (auto simp: ReleaseReservation_exact state_ok_def unit_ok_def split: if_splits)

lemma state_ok_pick:
  "unit_ok u \<Longrightarrow> state_ok u \<Longrightarrow> 0 \<le> q \<Longrightarrow> in64 q \<Longrightarrow> Pick u q = Inr u' \<Longrightarrow> state_ok u'"
  by (auto simp: Pick_exact state_ok_def unit_ok_def split: if_splits)

lemma state_ok_mark: "state_ok u \<Longrightarrow> u_state u \<noteq> StateRemoved \<Longrightarrow> state_ok (MarkUnlocated u)"
  by (simp add: state_ok_def MarkUnlocated_def)

text \<open>One call on a unit that did not return an error, with the quantities the use cases pass.\<close>

inductive unit_step :: "stock_unit \<Rightarrow> stock_unit \<Rightarrow> bool" where
  reserving: "Reserve u q = Inr u' \<Longrightarrow> 0 < q \<Longrightarrow> in64 q \<Longrightarrow> unit_step u u'"
| releasing: "ReleaseReservation u q = Inr u' \<Longrightarrow> 0 < q \<Longrightarrow> in64 q \<Longrightarrow> unit_step u u'"
| picking: "Pick u q = Inr u' \<Longrightarrow> 0 < q \<Longrightarrow> in64 q \<Longrightarrow> unit_step u u'"
| losing: "u_state u \<noteq> StateRemoved \<Longrightarrow> unit_step u (MarkUnlocated u)"

inductive_cases unit_stepE: "unit_step u u'"

lemma unit_step_ok: "unit_step u u' \<Longrightarrow> unit_ok u \<Longrightarrow> state_ok u \<Longrightarrow> unit_ok u' \<and> state_ok u'"
  by (erule unit_stepE)
    (auto intro: Reserve_ok(1) state_ok_reserve unit_ok_release state_ok_release
      unit_ok_pick state_ok_pick state_ok_mark less_imp_le)

lemma unit_step_shrinks: "unit_step u u' \<Longrightarrow> unit_ok u \<Longrightarrow> u_quantity u' \<le> u_quantity u"
  by (erule unit_stepE) (auto dest: unit_frame simp: Pick_exact MarkUnlocated_def split: if_splits)

text \<open>A unit that was picked empty has no step left: REMOVED is final.\<close>

lemma removed_is_final: "unit_step u u' \<Longrightarrow> unit_ok u \<Longrightarrow> state_ok u \<Longrightarrow> u_state u \<noteq> StateRemoved"
  by (erule unit_stepE)
    (auto simp: Reserve_def ReleaseReservation_exact Pick_exact state_ok_def unit_ok_def split: if_splits)

end
