(* ===== verification/Reservation.thy ===== *)
theory Reservation
  imports Shared
begin

text \<open>
  internal/domain/reservation: the Reservation aggregate, a revocable claim on stock, with the
  allocations that say which unit each part of it was drawn from. It is resolved once: from ACTIVE
  to CONFIRMED, REVOKED or EXPIRED.
\<close>

type_synonym status = string

definition StatusActive :: status where "StatusActive = ''ACTIVE''"
definition StatusConfirmed :: status where "StatusConfirmed = ''CONFIRMED''"
definition StatusRevoked :: status where "StatusRevoked = ''REVOKED''"
definition StatusExpired :: status where "StatusExpired = ''EXPIRED''"

lemmas status_defs = StatusActive_def StatusConfirmed_def StatusRevoked_def StatusExpired_def

lemma status_distinct [simp]:
  "StatusActive \<noteq> StatusConfirmed" "StatusConfirmed \<noteq> StatusActive"
  "StatusActive \<noteq> StatusRevoked" "StatusRevoked \<noteq> StatusActive"
  "StatusActive \<noteq> StatusExpired" "StatusExpired \<noteq> StatusActive"
  "StatusConfirmed \<noteq> StatusRevoked" "StatusRevoked \<noteq> StatusConfirmed"
  "StatusConfirmed \<noteq> StatusExpired" "StatusExpired \<noteq> StatusConfirmed"
  "StatusRevoked \<noteq> StatusExpired" "StatusExpired \<noteq> StatusRevoked"
  by (simp_all add: status_defs)

record allocation =
  a_unit :: string
  a_bin :: bin_id
  a_quantity :: quantity

record reservation =
  r_id :: string
  r_sku :: sku
  r_quantity :: quantity
  r_demandRef :: string
  r_allocations :: "allocation list"
  r_status :: status
  r_createdAt :: time
  r_expiresAt :: time
  r_version :: int

definition NewReservation ::
  "string \<Rightarrow> sku \<Rightarrow> quantity \<Rightarrow> string \<Rightarrow> allocation list \<Rightarrow> time \<Rightarrow> int \<Rightarrow> reservation result" where
  "NewReservation ident sk qty demandRef allocations createdAt timeout =
     (if length allocations = 0 then Inl (ReservationErr ErrNoAllocations)
      else Inr \<lparr>r_id = ident, r_sku = sk, r_quantity = qty, r_demandRef = demandRef,
                r_allocations = allocations, r_status = StatusActive, r_createdAt = createdAt,
                r_expiresAt = createdAt + timeout, r_version = 1\<rparr>)"

definition RehydrateReservation ::
  "string \<Rightarrow> sku \<Rightarrow> quantity \<Rightarrow> string \<Rightarrow> allocation list \<Rightarrow> status \<Rightarrow> time \<Rightarrow> time \<Rightarrow> int \<Rightarrow> reservation"
  where
  "RehydrateReservation ident sk qty demandRef allocations st createdAt expiresAt version =
     \<lparr>r_id = ident, r_sku = sk, r_quantity = qty, r_demandRef = demandRef, r_allocations = allocations,
      r_status = st, r_createdAt = createdAt, r_expiresAt = expiresAt, r_version = version\<rparr>"

definition IsExpired :: "reservation \<Rightarrow> time \<Rightarrow> bool" where
  "IsExpired r now \<longleftrightarrow> now > r_expiresAt r"

definition Revoke :: "reservation \<Rightarrow> reservation result" where
  "Revoke r = (if r_status r \<noteq> StatusActive then Inl (ReservationErr ErrAlreadyResolved)
               else Inr (r\<lparr>r_status := StatusRevoked\<rparr>))"

definition Confirm :: "reservation \<Rightarrow> time \<Rightarrow> reservation result" where
  "Confirm r now = (if r_status r \<noteq> StatusActive then Inl (ReservationErr ErrAlreadyResolved)
                    else if IsExpired r now then Inl (ReservationErr ErrExpired)
                    else Inr (r\<lparr>r_status := StatusConfirmed\<rparr>))"

definition Expire :: "reservation \<Rightarrow> reservation result" where
  "Expire r = (if r_status r \<noteq> StatusActive then Inl (ReservationErr ErrAlreadyResolved)
               else Inr (r\<lparr>r_status := StatusExpired\<rparr>))"

section \<open>The state machine\<close>

text \<open>One call on the aggregate, whichever it is, that did not return an error.\<close>

inductive resolve :: "reservation \<Rightarrow> reservation \<Rightarrow> bool" where
  by_revoke: "Revoke r = Inr r' \<Longrightarrow> resolve r r'"
| by_confirm: "Confirm r now = Inr r' \<Longrightarrow> resolve r r'"
| by_expire: "Expire r = Inr r' \<Longrightarrow> resolve r r'"

inductive_cases resolveE: "resolve r r'"

lemma resolve_from_active:
  "resolve r r' \<Longrightarrow> r_status r = StatusActive \<and> r_status r' \<noteq> StatusActive \<and>
     (\<exists>st. r' = r\<lparr>r_status := st\<rparr>)"
  by (erule resolveE) (auto simp: Revoke_def Confirm_def Expire_def split: if_splits)

lemma resolve_once: "resolve r r' \<Longrightarrow> \<not> resolve r' r''"
  using resolve_from_active by blast

end
