(* ===== verification/Product.thy ===== *)
theory Product
  imports Shared
begin

text \<open>
  internal/domain/product: the ProductClassification aggregate, how a SKU must be handled, and the
  same-bin segregation matrix of the DOT hazard classes. \<open>HandlingTag\<close> and \<open>TemperatureClass\<close> are Go
  string types, so they are strings here and the parsers decide which strings are members.
\<close>

section \<open>Handling tags, temperature classes, hazard classes\<close>

type_synonym handling_tag = string
type_synonym temperature_class = string
type_synonym dot_class = int

definition Hazmat :: handling_tag where "Hazmat = ''Hazmat''"
definition Fragile :: handling_tag where "Fragile = ''Fragile''"
definition TemperatureSensitive :: handling_tag where "TemperatureSensitive = ''TemperatureSensitive''"
definition Oversized :: handling_tag where "Oversized = ''Oversized''"
definition HighValue :: handling_tag where "HighValue = ''HighValue''"

lemmas tag_defs = Hazmat_def Fragile_def TemperatureSensitive_def Oversized_def HighValue_def

definition ParseHandlingTag :: "string \<Rightarrow> handling_tag result" where
  "ParseHandlingTag value =
     (if value \<in> {Hazmat, Fragile, TemperatureSensitive, Oversized, HighValue} then Inr value
      else Inl (ProductErr ErrUnknownHandlingTag))"

definition Ambient :: temperature_class where "Ambient = ''Ambient''"
definition Chilled :: temperature_class where "Chilled = ''Chilled''"
definition Frozen :: temperature_class where "Frozen = ''Frozen''"

definition ParseTemperatureClass :: "string \<Rightarrow> temperature_class result" where
  "ParseTemperatureClass value =
     (if value \<in> {Ambient, Chilled, Frozen} then Inr value
      else Inl (ProductErr ErrUnknownTemperatureClass))"

definition DOTHazardClassUnspecified :: dot_class where
  "DOTHazardClassUnspecified = 0"

definition ParseDOTHazardClass :: "int \<Rightarrow> dot_class result" where
  "ParseDOTHazardClass value =
     (if value < 1 \<or> value > 9 then Inl (ProductErr ErrInvalidDOTHazardClass) else Inr value)"

section \<open>ProductClassification\<close>

record classification =
  c_sku :: sku
  c_handlingTags :: "handling_tag set"
  c_temperatureClass :: temperature_class
  c_dotHazardClass :: dot_class

text \<open>The loop of \<open>New\<close> that turns the tag list into a set.\<close>

fun collect_tags :: "handling_tag set \<Rightarrow> handling_tag list \<Rightarrow> handling_tag set result" where
  "collect_tags seen [] = Inr seen"
| "collect_tags seen (tag # tags) =
     (case ParseHandlingTag tag of
        Inl e \<Rightarrow> Inl e
      | Inr _ \<Rightarrow> if tag \<in> seen then Inl (ProductErr ErrDuplicateHandlingTag)
                 else collect_tags (insert tag seen) tags)"

definition NewClassification ::
  "sku \<Rightarrow> handling_tag list \<Rightarrow> temperature_class \<Rightarrow> dot_class \<Rightarrow> classification result" where
  "NewClassification sk tags temperatureClass dotHazardClass =
     (if sk = '''' then Inl (SharedErr ErrEmptySKU)
      else if length tags = 0 then Inl (ProductErr ErrNoHandlingTags)
      else case collect_tags {} tags of
        Inl e \<Rightarrow> Inl e
      | Inr seen \<Rightarrow>
          if TemperatureSensitive \<in> seen \<and> temperatureClass = ''''
            then Inl (ProductErr ErrTemperatureClassRequired)
          else if TemperatureSensitive \<in> seen \<and> isl (ParseTemperatureClass temperatureClass)
            then Inl (ProductErr ErrUnknownTemperatureClass)
          else if TemperatureSensitive \<notin> seen \<and> temperatureClass \<noteq> ''''
            then Inl (ProductErr ErrTemperatureClassNotApplicable)
          else if dotHazardClass \<noteq> DOTHazardClassUnspecified \<and> Hazmat \<notin> seen
            then Inl (ProductErr ErrDOTHazardClassNotApplicable)
          else if dotHazardClass \<noteq> DOTHazardClassUnspecified \<and>
                  isl (ParseDOTHazardClass dotHazardClass)
            then Inl (ProductErr ErrInvalidDOTHazardClass)
          else Inr \<lparr>c_sku = sk, c_handlingTags = seen, c_temperatureClass = temperatureClass,
                    c_dotHazardClass = dotHazardClass\<rparr>)"

definition RehydrateClassification ::
  "sku \<Rightarrow> handling_tag list \<Rightarrow> temperature_class \<Rightarrow> dot_class \<Rightarrow> classification" where
  "RehydrateClassification sk tags temperatureClass dotHazardClass =
     \<lparr>c_sku = sk, c_handlingTags = set tags, c_temperatureClass = temperatureClass,
      c_dotHazardClass = dotHazardClass\<rparr>"

definition all_tags :: "handling_tag list" where
  "all_tags = [Hazmat, Fragile, TemperatureSensitive, Oversized, HighValue]"

definition HandlingTags :: "classification \<Rightarrow> handling_tag list" where
  "HandlingTags c = filter (\<lambda>tag. tag \<in> c_handlingTags c) all_tags"

definition HasTag :: "classification \<Rightarrow> handling_tag \<Rightarrow> bool" where
  "HasTag c tag \<longleftrightarrow> tag \<in> c_handlingTags c"

definition IsHazmat :: "classification \<Rightarrow> bool" where
  "IsHazmat c \<longleftrightarrow> HasTag c Hazmat"

definition IsTemperatureSensitive :: "classification \<Rightarrow> bool" where
  "IsTemperatureSensitive c \<longleftrightarrow> HasTag c TemperatureSensitive"

record slot_attributes =
  sa_hazmat :: bool
  sa_temperatureClass :: temperature_class
  sa_known :: bool

definition unknown_slot :: slot_attributes where
  "unknown_slot = \<lparr>sa_hazmat = False, sa_temperatureClass = '''', sa_known = False\<rparr>"

definition NewProductClassified :: "classification \<Rightarrow> time \<Rightarrow> domain_event" where
  "NewProductClassified c occurredAt =
     ProductClassified occurredAt (c_sku c) (HandlingTags c) (c_temperatureClass c) (c_dotHazardClass c)"

subsection \<open>The invariant of a classification\<close>

definition classification_ok :: "classification \<Rightarrow> bool" where
  "classification_ok c \<longleftrightarrow>
     c_sku c \<noteq> '''' \<and> c_handlingTags c \<noteq> {} \<and> c_handlingTags c \<subseteq> set all_tags \<and>
     (IsTemperatureSensitive c \<longleftrightarrow> c_temperatureClass c \<noteq> '''') \<and>
     (IsTemperatureSensitive c \<longrightarrow> c_temperatureClass c \<in> {Ambient, Chilled, Frozen}) \<and>
     (c_dotHazardClass c \<noteq> 0 \<longrightarrow> IsHazmat c \<and> 1 \<le> c_dotHazardClass c \<and> c_dotHazardClass c \<le> 9)"

lemma ParseHandlingTag_isl: "\<not> isl (ParseHandlingTag t) \<longleftrightarrow> t \<in> set all_tags"
  by (simp add: ParseHandlingTag_def all_tags_def)

lemma collect_tags_iff:
  "collect_tags seen tags = Inr s \<longleftrightarrow>
     set tags \<subseteq> set all_tags \<and> distinct tags \<and> set tags \<inter> seen = {} \<and> s = seen \<union> set tags"
proof (induction tags arbitrary: seen)
  case Nil
  show ?case by auto
next
  case (Cons t tags)
  have "ParseHandlingTag t = (if t \<in> set all_tags then Inr t else Inl (ProductErr ErrUnknownHandlingTag))"
    by (simp add: ParseHandlingTag_def all_tags_def)
  then show ?case by (auto simp: Cons.IH)
qed

lemma HandlingTags_set:
  "c_handlingTags c \<subseteq> set all_tags \<Longrightarrow> set (HandlingTags c) = c_handlingTags c"
  by (auto simp: HandlingTags_def)

lemma all_tags_distinct: "distinct all_tags"
  by (simp add: all_tags_def tag_defs)

lemma HandlingTags_distinct: "distinct (HandlingTags c)"
  by (simp add: HandlingTags_def all_tags_distinct)

lemma TemperatureClass_nonempty: "ParseTemperatureClass '''' = Inl (ProductErr ErrUnknownTemperatureClass)"
  by (simp add: ParseTemperatureClass_def Ambient_def Chilled_def Frozen_def)

lemma NewClassification_iff:
  "NewClassification sk tags tc dot = Inr c \<longleftrightarrow>
     sk \<noteq> '''' \<and> tags \<noteq> [] \<and> distinct tags \<and> set tags \<subseteq> set all_tags \<and>
     (if TemperatureSensitive \<in> set tags then tc \<in> {Ambient, Chilled, Frozen} else tc = '''') \<and>
     (dot = 0 \<or> Hazmat \<in> set tags \<and> 1 \<le> dot \<and> dot \<le> 9) \<and>
     c = RehydrateClassification sk tags tc dot"
proof (cases "collect_tags {} tags")
  case (Inl e)
  then have "\<not> (set tags \<subseteq> set all_tags \<and> distinct tags)"
    using collect_tags_iff [of "{}" tags "set tags"] by auto
  with Inl show ?thesis by (auto simp: NewClassification_def)
next
  case (Inr s)
  then have s: "set tags \<subseteq> set all_tags" "distinct tags" "s = set tags"
    using collect_tags_iff [of "{}" tags s] by auto
  show ?thesis
    unfolding NewClassification_def Inr
    by (auto simp: s RehydrateClassification_def ParseTemperatureClass_def ParseDOTHazardClass_def
        DOTHazardClassUnspecified_def Ambient_def Chilled_def Frozen_def)
qed

section \<open>Same-bin segregation of the DOT hazard classes\<close>

definition incompatiblePairs :: "(nat \<times> nat) list" where
  "incompatiblePairs =
    [(1, 1), (1, 2), (1, 3), (1, 4), (1, 5), (1, 6), (1, 7), (1, 8), (1, 9),
     (2, 2), (2, 3), (2, 4), (2, 5), (2, 6), (2, 7), (2, 8),
     (3, 5), (3, 6),
     (4, 6), (4, 8),
     (5, 6), (5, 8),
     (6, 8)]"

type_synonym segregationMatrix = "bool list list"

definition set_cell :: "segregationMatrix \<Rightarrow> nat \<Rightarrow> nat \<Rightarrow> segregationMatrix" where
  "set_cell m a b = m[a := (m ! a)[b := True]]"

definition buildSegregationMatrix :: segregationMatrix where
  "buildSegregationMatrix =
     fold (\<lambda>(a, b) m. set_cell (set_cell m a b) b a) incompatiblePairs
       (replicate 10 (replicate 10 False))"

definition classIncompatibility :: segregationMatrix where
  "classIncompatibility = buildSegregationMatrix"

definition Incompatible :: "dot_class \<Rightarrow> dot_class \<Rightarrow> bool" where
  "Incompatible a b =
     (if a = DOTHazardClassUnspecified \<or> b = DOTHazardClassUnspecified then False
      else if a < 1 \<or> a > 9 \<or> b < 1 \<or> b > 9 then False
      else classIncompatibility ! nat a ! nat b)"

text \<open>
  The table of the doc comment, row by row, classes 1 to 9: what the pairs must build.
\<close>

definition documented_matrix :: "bool list list" where
  "documented_matrix =
    [[True, True, True, True, True, True, True, True, True],
     [True, True, True, True, True, True, True, True, False],
     [True, True, False, False, True, True, False, False, False],
     [True, True, False, False, False, True, False, True, False],
     [True, True, True, False, False, True, False, True, False],
     [True, True, True, True, True, False, False, True, False],
     [True, True, False, False, False, False, False, False, False],
     [True, True, False, True, True, True, False, False, False],
     [True, False, False, False, False, False, False, False, False]]"

lemma classIncompatibility_table:
  "classIncompatibility = replicate 10 False # map (\<lambda>row. False # row) documented_matrix"
  by code_simp

lemma Incompatible_cell:
  assumes "1 \<le> a" "a \<le> 9" "1 \<le> b" "b \<le> 9"
  shows "Incompatible a b = documented_matrix ! nat (a - 1) ! nat (b - 1)"
proof -
  have n: "nat a = Suc (nat (a - 1))" "nat b = Suc (nat (b - 1))" "nat (a - 1) < 9"
    using assms by simp_all
  have "length documented_matrix = 9" by (simp add: documented_matrix_def)
  with n show ?thesis
    using assms by (simp add: Incompatible_def DOTHazardClassUnspecified_def classIncompatibility_table)
qed

lemma documented_matrix_symmetric:
  "\<forall>i \<in> set [0..<9]. \<forall>j \<in> set [0..<9]. documented_matrix ! i ! j = documented_matrix ! j ! i"
  by code_simp

lemma Incompatible_symmetric: "Incompatible a b = Incompatible b a"
proof (cases "1 \<le> a \<and> a \<le> 9 \<and> 1 \<le> b \<and> b \<le> 9")
  case True
  then have "nat (a - 1) \<in> set [0..<9]" "nat (b - 1) \<in> set [0..<9]" by auto
  with True documented_matrix_symmetric show ?thesis by (simp add: Incompatible_cell)
next
  case False
  then show ?thesis by (auto simp: Incompatible_def)
qed

lemma Incompatible_range: "Incompatible a b \<Longrightarrow> 1 \<le> a \<and> a \<le> 9 \<and> 1 \<le> b \<and> b \<le> 9"
  by (auto simp: Incompatible_def DOTHazardClassUnspecified_def split: if_splits)

end
