(* ===== verification/Ports.thy ===== *)
theory Ports
  imports Location Stock Reservation Product
begin

text \<open>
  internal/application/ports: the interfaces the use cases depend on, as a record of functions over
  a world \<open>'w\<close> that only the adapter knows, and the contract an adapter must keep, as a locale. The
  contract is stated over a snapshot of what the world holds: the tables of the inventory, the
  messages enqueued so far and whether a transaction is open.
\<close>

section \<open>What a closure given to a UnitOfWork assigns\<close>

datatype outcome = BinCreated | BinUnchanged | BinResized

record cycle_count_result =
  cc_bin :: bin_id
  cc_counted :: quantity
  cc_system :: quantity
  cc_discrepancy :: bool

text \<open>
  \<open>UnitOfWork.Execute\<close> takes a \<open>func(ctx) error\<close>; what such a closure computes leaves it by the
  variables it captures, which the closure's result carries here.
\<close>

datatype captured =
  Nothing_captured | Captured_bin bin outcome | Captured_count cycle_count_result
| Captured_reservation reservation

section \<open>The interfaces\<close>

record 'w stock_repo =
  sr_save :: "stock_unit \<Rightarrow> ('w, err, unit) prog"
  sr_find :: "string \<Rightarrow> ('w, err, stock_unit option) prog"
  sr_find_sku :: "sku \<Rightarrow> ('w, err, stock_unit list) prog"
  sr_find_bin :: "bin_id \<Rightarrow> ('w, err, stock_unit list) prog"
  sr_next :: "('w, err, string) prog"

record 'w location_repo =
  lr_save :: "bin \<Rightarrow> ('w, err, unit) prog"
  lr_find :: "bin_id \<Rightarrow> ('w, err, bin option) prog"

record 'w reservation_repo =
  rr_save :: "reservation \<Rightarrow> ('w, err, unit) prog"
  rr_find :: "string \<Rightarrow> ('w, err, reservation option) prog"
  rr_find_demand :: "string \<Rightarrow> ('w, err, reservation list) prog"
  rr_next :: "('w, err, string) prog"

record 'w classification_repo =
  cr_save :: "classification \<Rightarrow> ('w, err, unit) prog"
  cr_find :: "sku \<Rightarrow> ('w, err, classification option) prog"

record 'w reservation_metrics =
  m_created :: "'w \<Rightarrow> 'w"
  m_revoked :: "'w \<Rightarrow> 'w"

type_synonym 'w unit_of_work = "('w, err, captured) prog \<Rightarrow> ('w, err, captured) prog"

text \<open>
  Everything the composition root injects. The fields of \<open>option\<close> type are the ones the use cases
  accept as nil.
\<close>

record 'w ports =
  p_stock :: "'w stock_repo"
  p_locations :: "'w location_repo"
  p_reservations :: "'w reservation_repo"
  p_publish :: "domain_event \<Rightarrow> ('w, err, unit) prog"
  p_now :: "'w \<Rightarrow> time \<times> 'w"
  p_classifications :: "'w classification_repo option"
  p_lookup :: "(bin_id \<Rightarrow> ('w, err, slot_attributes) prog) option"
  p_uow :: "'w unit_of_work option"
  p_metrics :: "'w reservation_metrics option"
  p_timeout :: int

section \<open>The tables of the inventory\<close>

record res_row =
  rr_id :: string
  rr_sku :: sku
  rr_quantity :: quantity
  rr_demandRef :: string
  rr_status :: status
  rr_createdAt :: time
  rr_expiresAt :: time
  rr_version :: int

record alloc_row =
  ar_res :: string
  ar_unit :: string
  ar_quantity :: quantity
  ar_bin :: "bin_id option"

record inventory =
  units :: "stock_unit list"
  bins :: "bin list"
  ress :: "res_row list"
  allocs :: "alloc_row list"
  classes :: "classification list"

definition ar_key :: "alloc_row \<Rightarrow> string \<times> string" where
  "ar_key a = (ar_res a, ar_unit a)"

definition empty_inventory :: inventory where
  "empty_inventory = \<lparr>units = [], bins = [], ress = [], allocs = [], classes = []\<rparr>"

subsection \<open>What a Save does to the tables\<close>

text \<open>\<open>v\<close> is the version the row ends with, which is the adapter's own business.\<close>

definition put_unit :: "int \<Rightarrow> stock_unit \<Rightarrow> inventory \<Rightarrow> inventory" where
  "put_unit v u d = d\<lparr>units := upsert u_id (u\<lparr>u_version := v\<rparr>) (units d)\<rparr>"

definition put_bin :: "int \<Rightarrow> bin \<Rightarrow> inventory \<Rightarrow> inventory" where
  "put_bin v b d = d\<lparr>bins := upsert b_id (b\<lparr>b_version := v\<rparr>) (bins d)\<rparr>"

definition put_class :: "classification \<Rightarrow> inventory \<Rightarrow> inventory" where
  "put_class c d = d\<lparr>classes := upsert c_sku c (classes d)\<rparr>"

text \<open>Saving a reservation that is already stored changes its status and version only.\<close>

definition res_row_of :: "int \<Rightarrow> reservation \<Rightarrow> res_row option \<Rightarrow> res_row" where
  "res_row_of v r old = (case old of
     None \<Rightarrow> \<lparr>rr_id = r_id r, rr_sku = r_sku r, rr_quantity = r_quantity r,
              rr_demandRef = r_demandRef r, rr_status = r_status r, rr_createdAt = r_createdAt r,
              rr_expiresAt = r_expiresAt r, rr_version = v\<rparr>
   | Some row \<Rightarrow> row\<lparr>rr_status := r_status r, rr_version := v\<rparr>)"

text \<open>\<open>bin_id = COALESCE(EXCLUDED.bin_id, reservation_allocations.bin_id)\<close>, with '''' stored as NULL.\<close>

definition put_alloc :: "string \<Rightarrow> allocation \<Rightarrow> alloc_row list \<Rightarrow> alloc_row list" where
  "put_alloc rid a rows =
     (let new = (if a_bin a = '''' then None else Some (a_bin a));
          kept = (case find_row ar_key (rid, a_unit a) rows of None \<Rightarrow> None | Some old \<Rightarrow> ar_bin old)
      in upsert ar_key
           \<lparr>ar_res = rid, ar_unit = a_unit a, ar_quantity = a_quantity a,
            ar_bin = (case new of None \<Rightarrow> kept | Some b \<Rightarrow> Some b)\<rparr> rows)"

definition put_res :: "int \<Rightarrow> reservation \<Rightarrow> inventory \<Rightarrow> inventory" where
  "put_res v r d =
     d\<lparr>ress := upsert rr_id (res_row_of v r (find_row rr_id (r_id r) (ress d))) (ress d),
       allocs := fold (put_alloc (r_id r)) (r_allocations r) (allocs d)\<rparr>"

subsection \<open>What a Find rebuilds from the tables\<close>

definition alloc_of :: "alloc_row \<Rightarrow> allocation" where
  "alloc_of a = \<lparr>a_unit = ar_unit a, a_bin = (case ar_bin a of None \<Rightarrow> '''' | Some b \<Rightarrow> b),
                 a_quantity = ar_quantity a\<rparr>"

definition allocs_of :: "inventory \<Rightarrow> string \<Rightarrow> alloc_row list" where
  "allocs_of d rid = filter (\<lambda>a. ar_res a = rid) (allocs d)"

text \<open>
  \<open>loads d row r\<close>: \<open>r\<close> is the reservation of \<open>row\<close>, with its allocations in some order.
\<close>

definition loads :: "inventory \<Rightarrow> res_row \<Rightarrow> reservation \<Rightarrow> bool" where
  "loads d row r \<longleftrightarrow>
     r_id r = rr_id row \<and> r_sku r = rr_sku row \<and> r_quantity r = rr_quantity row \<and>
     r_demandRef r = rr_demandRef row \<and> r_status r = rr_status row \<and>
     r_createdAt r = rr_createdAt row \<and> r_expiresAt r = rr_expiresAt row \<and>
     r_version r = rr_version row \<and>
     mset (r_allocations r) = mset (map alloc_of (allocs_of d (rr_id row)))"

subsection \<open>The constraints of the schema\<close>

definition schema_ok :: "inventory \<Rightarrow> bool" where
  "schema_ok d \<longleftrightarrow>
     distinct (map u_id (units d)) \<and> distinct (map b_id (bins d)) \<and>
     distinct (map rr_id (ress d)) \<and> distinct (map ar_key (allocs d)) \<and>
     distinct (map c_sku (classes d)) \<and>
     (\<forall>u \<in> set (units d). 0 \<le> u_quantity u \<and> u_quantity u \<le> max_int4 \<and>
        0 \<le> u_reserved u \<and> u_reserved u \<le> max_int4 \<and> u_bin u \<in> b_id ` set (bins d)) \<and>
     (\<forall>b \<in> set (bins d). 0 < b_capacity b \<and> b_capacity b \<le> max_int4 \<and>
        0 \<le> b_occupied b \<and> b_occupied b \<le> max_int4) \<and>
     (\<forall>r \<in> set (ress d). 0 < rr_quantity r \<and> rr_quantity r \<le> max_int4) \<and>
     (\<forall>a \<in> set (allocs d). 0 < ar_quantity a \<and> ar_quantity a \<le> max_int4 \<and>
        ar_res a \<in> rr_id ` set (ress d) \<and> ar_unit a \<in> u_id ` set (units d))"

section \<open>The contract of the ports\<close>

record 'm snapshot =
  inv :: inventory
  log :: "'m list"
  intx :: bool

text \<open>
  \<open>view\<close> reads a world; \<open>wire e rs ms\<close> says that \<open>ms\<close> may be enqueued for the event \<open>e\<close> when \<open>rs\<close>
  are the reservations stored; \<open>slot b a\<close> that the facility may answer \<open>a\<close> about the bin \<open>b\<close>. Any call
  may fail. Outside a transaction a failed call has changed no table; inside
  one it may have changed some, which the transaction then takes back.
\<close>

definition enqueued ::
  "(domain_event \<Rightarrow> res_row list \<Rightarrow> 'm list \<Rightarrow> bool) \<Rightarrow> domain_event list \<Rightarrow> res_row list \<Rightarrow> 'm list \<Rightarrow> bool" where
  "enqueued wire es rs ms \<longleftrightarrow> (\<exists>mss. list_all2 (\<lambda>e m. wire e rs m) es mss \<and> ms = concat mss)"

lemma enqueued_Nil [simp]: "enqueued wire [] rs ms \<longleftrightarrow> ms = []"
  by (simp add: enqueued_def)

lemma enqueued_one: "wire e rs ms \<Longrightarrow> enqueued wire [e] rs ms"
  unfolding enqueued_def by (rule exI [of _ "[ms]"]) simp

lemma enqueued_append:
  "enqueued wire es rs ms \<Longrightarrow> enqueued wire fs rs ns \<Longrightarrow> enqueued wire (es @ fs) rs (ms @ ns)"
  unfolding enqueued_def by (metis concat_append list_all2_appendI)

locale inventory_ports =
  fixes P :: "'w ports"
    and view :: "'w \<Rightarrow> 'm snapshot option"
    and wire :: "domain_event \<Rightarrow> res_row list \<Rightarrow> 'm list \<Rightarrow> bool"
    and slot :: "bin_id \<Rightarrow> slot_attributes \<Rightarrow> bool"
    and failed :: "'m snapshot \<Rightarrow> 'w \<Rightarrow> bool"
    and execute :: "'w unit_of_work"
  assumes failed_iff: "failed s w \<longleftrightarrow>
      (\<exists>s'. view w = Some s' \<and> intx s' = intx s \<and> (intx s \<or> inv s' = inv s))"
    and view_schema: "view w = Some s \<Longrightarrow> schema_ok (inv s)"
    and stock_save: "triple (\<lambda>w. view w = Some s) (sr_save (p_stock P) u)
      (\<lambda>_ w. \<exists>v. view w = Some (s\<lparr>inv := put_unit v u (inv s)\<rparr>)) (\<lambda>_. failed s)"
    and stock_find: "triple (\<lambda>w. view w = Some s) (sr_find (p_stock P) i)
      (\<lambda>x w. view w = Some s \<and> x = find_row u_id i (units (inv s))) (\<lambda>_ w. view w = Some s)"
    and stock_find_sku: "triple (\<lambda>w. view w = Some s) (sr_find_sku (p_stock P) k)
      (\<lambda>xs w. view w = Some s \<and> mset xs = mset (filter (\<lambda>u. u_sku u = k) (units (inv s))))
      (\<lambda>_ w. view w = Some s)"
    and stock_find_bin: "triple (\<lambda>w. view w = Some s) (sr_find_bin (p_stock P) b)
      (\<lambda>xs w. view w = Some s \<and> mset xs = mset (filter (\<lambda>u. u_bin u = b) (units (inv s))))
      (\<lambda>_ w. view w = Some s)"
    and stock_next: "triple (\<lambda>w. view w = Some s) (sr_next (p_stock P))
      (\<lambda>i w. view w = Some s \<and> i \<notin> u_id ` set (units (inv s))) (\<lambda>_ w. view w = Some s)"
    and loc_save: "triple (\<lambda>w. view w = Some s) (lr_save (p_locations P) bn)
      (\<lambda>_ w. \<exists>v. view w = Some (s\<lparr>inv := put_bin v bn (inv s)\<rparr>)) (\<lambda>_. failed s)"
    and loc_find: "triple (\<lambda>w. view w = Some s) (lr_find (p_locations P) bi)
      (\<lambda>x w. view w = Some s \<and> x = find_row b_id bi (bins (inv s))) (\<lambda>_ w. view w = Some s)"
    and res_save: "triple (\<lambda>w. view w = Some s) (rr_save (p_reservations P) r)
      (\<lambda>_ w. \<exists>v. view w = Some (s\<lparr>inv := put_res v r (inv s)\<rparr>)) (\<lambda>_. failed s)"
    and res_find: "triple (\<lambda>w. view w = Some s) (rr_find (p_reservations P) i)
      (\<lambda>x w. view w = Some s \<and> rel_option (loads (inv s)) (find_row rr_id i (ress (inv s))) x)
      (\<lambda>_ w. view w = Some s)"
    and res_find_demand: "triple (\<lambda>w. view w = Some s) (rr_find_demand (p_reservations P) i)
      (\<lambda>xs w. view w = Some s \<and> (\<exists>rows. mset rows = mset (filter (\<lambda>r. rr_demandRef r = i) (ress (inv s)))
         \<and> list_all2 (loads (inv s)) rows xs))
      (\<lambda>_ w. view w = Some s)"
    and res_next: "triple (\<lambda>w. view w = Some s) (rr_next (p_reservations P))
      (\<lambda>i w. view w = Some s \<and> i \<notin> rr_id ` set (ress (inv s))) (\<lambda>_ w. view w = Some s)"
    and publish: "triple (\<lambda>w. view w = Some s) (p_publish P e)
      (\<lambda>_ w. \<exists>ms. wire e (ress (inv s)) ms \<and> view w = Some (s\<lparr>log := log s @ ms\<rparr>)) (\<lambda>_. failed s)"
    and clock: "view w = Some s \<Longrightarrow> view (snd (p_now P w)) = Some s"
    and class_find: "p_classifications P = Some cr \<Longrightarrow> triple (\<lambda>w. view w = Some s) (cr_find cr k)
      (\<lambda>x w. view w = Some s \<and> x = find_row c_sku k (classes (inv s))) (\<lambda>_ w. view w = Some s)"
    and class_save: "p_classifications P = Some cr \<Longrightarrow> c_handlingTags c \<subseteq> set all_tags \<Longrightarrow>
      triple (\<lambda>w. view w = Some s) (cr_save cr c)
      (\<lambda>_ w. view w = Some (s\<lparr>inv := put_class c (inv s)\<rparr>)) (\<lambda>_. failed s)"
    and lookup: "p_lookup P = Some g \<Longrightarrow> triple (\<lambda>w. view w = Some s) (g b)
      (\<lambda>x w. view w = Some s \<and> slot b x) (\<lambda>_ w. view w = Some s)"
    and metrics: "p_metrics P = Some m \<Longrightarrow> view w = Some s \<Longrightarrow>
      view (m_created m w) = Some s \<and> view (m_revoked m w) = Some s"
    and wired: "p_uow P = Some execute"
    and joins: "view w = Some s \<Longrightarrow> intx s \<Longrightarrow> execute f w = f w"
    and commits: "\<not> intx s \<Longrightarrow>
      triple (\<lambda>w. view w = Some (s\<lparr>intx := True\<rparr>)) f
        (\<lambda>a w. \<exists>s'. R a s' \<and> intx s' \<and> view w = Some s') (\<lambda>_ w. \<exists>s'. view w = Some s' \<and> intx s') \<Longrightarrow>
      triple (\<lambda>w. view w = Some s) (execute f)
        (\<lambda>a w. \<exists>s'. R a s' \<and> intx s' \<and> view w = Some (s'\<lparr>intx := False\<rparr>)) (\<lambda>_ w. view w = Some s)"

end
