(* ===== verification/UseCases.thy ===== *)
theory UseCases
  imports Ports
begin

text \<open>
  internal/application/usecases: one program per use case, over the ports it is constructed with.
  A definition follows its Go method statement by statement; what a closure given to
  \<open>atomically\<close> assigns to variables outside it is the closure's \<open>captured\<close> result.
\<close>

section \<open>Shared helpers\<close>

definition atomically :: "'w ports \<Rightarrow> 'w unit_of_work" where
  "atomically P f = (case p_uow P of None \<Rightarrow> f | Some execute \<Rightarrow> execute f)"

definition now :: "'w ports \<Rightarrow> ('w, err, time) prog" where
  "now P = (\<lambda>w. let (t, w') = p_now P w in (Inr t, w'))"

text \<open>A closure that captures nothing.\<close>

definition uncaptured :: "('w, err, unit) prog \<Rightarrow> ('w, err, captured) prog" where
  "uncaptured m = andthen m (\<lambda>_. ret Nothing_captured)"

definition created_metric :: "'w ports \<Rightarrow> ('w, err, unit) prog" where
  "created_metric P = (\<lambda>w. (Inr (), case p_metrics P of None \<Rightarrow> w | Some m \<Rightarrow> m_created m w))"

definition revoked_metric :: "'w ports \<Rightarrow> ('w, err, unit) prog" where
  "revoked_metric P = (\<lambda>w. (Inr (), case p_metrics P of None \<Rightarrow> w | Some m \<Rightarrow> m_revoked m w))"

section \<open>ReceiveStock\<close>

record staged_receipt =
  sg_sku :: sku
  sg_quantity :: quantity
  sg_receivedAt :: time

definition ReceiveStock_Execute :: "'w ports \<Rightarrow> sku \<Rightarrow> quantity \<Rightarrow> ('w, err, staged_receipt) prog" where
  "ReceiveStock_Execute P sk qty =
     (if sk = '''' then throw (SharedErr ErrEmptySKU)
      else if qty \<le> 0 then throw (SharedErr ErrZeroQuantity)
      else andthen (now P) (\<lambda>t.
           andthen (atomically P (uncaptured (p_publish P (StockReceived t sk qty)))) (\<lambda>_.
           ret \<lparr>sg_sku = sk, sg_quantity = qty, sg_receivedAt = t\<rparr>)))"

section \<open>StowStock\<close>

definition checkPlacement :: "'w ports \<Rightarrow> sku \<Rightarrow> bin_id \<Rightarrow> ('w, err, unit) prog" where
  "checkPlacement P sk binID =
     (case (p_classifications P, p_lookup P) of
        (Some cr, Some lookup) \<Rightarrow>
          andthen (cr_find cr sk) (\<lambda>found.
          case found of
            None \<Rightarrow> ret ()
          | Some c \<Rightarrow>
              if \<not> IsHazmat c \<and> \<not> IsTemperatureSensitive c then ret ()
              else andthen (maperr (\<lambda>_. UsecaseErr ErrLocationClassificationUnavailable) (lookup binID))
                (\<lambda>attrs.
                 if \<not> sa_known attrs then ret ()
                 else if IsHazmat c \<and> \<not> sa_hazmat attrs then throw (UsecaseErr ErrHazmatZoneRequired)
                 else if IsTemperatureSensitive c \<and> sa_temperatureClass attrs \<noteq> c_temperatureClass c
                   then throw (UsecaseErr ErrTemperatureClassMismatch)
                 else ret ()))
      | _ \<Rightarrow> ret ())"

text \<open>The loop over the bin's occupants, with the set of SKUs already looked up.\<close>

fun segregation_loop ::
  "'w classification_repo \<Rightarrow> dot_class \<Rightarrow> sku \<Rightarrow> sku set \<Rightarrow> stock_unit list \<Rightarrow> ('w, err, unit) prog" where
  "segregation_loop cr dot sk seen [] = ret ()"
| "segregation_loop cr dot sk seen (occupant # occupants) =
     (let occupantSKU = u_sku occupant in
      if occupantSKU = sk then segregation_loop cr dot sk seen occupants
      else if occupantSKU \<in> seen then segregation_loop cr dot sk seen occupants
      else andthen (cr_find cr occupantSKU) (\<lambda>found.
           case found of
             None \<Rightarrow> segregation_loop cr dot sk (insert occupantSKU seen) occupants
           | Some c \<Rightarrow>
               if Incompatible dot (c_dotHazardClass c)
               then throw (UsecaseErr ErrHazmatClassIncompatible)
               else segregation_loop cr dot sk (insert occupantSKU seen) occupants))"

definition checkSegregation :: "'w ports \<Rightarrow> sku \<Rightarrow> bin_id \<Rightarrow> ('w, err, unit) prog" where
  "checkSegregation P sk binID =
     (case p_classifications P of
        None \<Rightarrow> ret ()
      | Some cr \<Rightarrow>
          andthen (cr_find cr sk) (\<lambda>found.
          case found of
            None \<Rightarrow> ret ()
          | Some incoming \<Rightarrow>
              if c_dotHazardClass incoming = DOTHazardClassUnspecified then ret ()
              else andthen (sr_find_bin (p_stock P) binID) (\<lambda>occupants.
                   segregation_loop cr (c_dotHazardClass incoming) sk {} occupants)))"

definition stow_scope :: "'w ports \<Rightarrow> bin \<Rightarrow> stock_unit \<Rightarrow> time \<Rightarrow> quantity \<Rightarrow> ('w, err, unit) prog" where
  "stow_scope P b unit t qty =
     andthen (lr_save (p_locations P) b) (\<lambda>_.
     andthen (sr_save (p_stock P) unit) (\<lambda>_.
     andthen (p_publish P (ItemStowed t (u_sku unit) (u_bin unit) qty)) (\<lambda>_.
     p_publish P (LocationRecorded t (u_id unit) (u_bin unit)))))"

definition StowStock_Execute ::
  "'w ports \<Rightarrow> sku \<Rightarrow> quantity \<Rightarrow> bin_id \<Rightarrow> ('w, err, stock_unit) prog" where
  "StowStock_Execute P sk qty binID =
     andthen (lr_find (p_locations P) binID) (\<lambda>found.
     case found of
       None \<Rightarrow> throw (UsecaseErr ErrBinNotFound)
     | Some b \<Rightarrow>
         andthen (checkPlacement P sk binID) (\<lambda>_.
         andthen (checkSegregation P sk binID) (\<lambda>_.
         andthen (sr_next (p_stock P)) (\<lambda>ident.
         andthen (lift (NewStockUnit ident sk binID qty)) (\<lambda>unit.
         andthen (lift (Occupy b qty)) (\<lambda>b'.
         andthen (now P) (\<lambda>t.
         andthen (atomically P (uncaptured (stow_scope P b' unit t qty))) (\<lambda>_.
         ret unit))))))))"

section \<open>Expiry, shared by every use case that reads a reservation\<close>

definition release_one :: "'w ports \<Rightarrow> allocation \<Rightarrow> ('w, err, unit) prog" where
  "release_one P alloc =
     andthen (sr_find (p_stock P) (a_unit alloc)) (\<lambda>found.
     case found of
       None \<Rightarrow> throw (UsecaseErr ErrStockUnitNotFound)
     | Some unit \<Rightarrow>
         andthen (lift (ReleaseReservation unit (a_quantity alloc))) (\<lambda>unit'.
         sr_save (p_stock P) unit'))"

definition releaseAllocations :: "'w ports \<Rightarrow> reservation \<Rightarrow> ('w, err, unit) prog" where
  "releaseAllocations P res = each (release_one P) (r_allocations res)"

definition expire_scope :: "'w ports \<Rightarrow> reservation \<Rightarrow> time \<Rightarrow> ('w, err, captured) prog" where
  "expire_scope P res t =
     andthen (releaseAllocations P res) (\<lambda>_.
     andthen (lift (Expire res)) (\<lambda>res'.
     andthen (rr_save (p_reservations P) res') (\<lambda>_.
     andthen (p_publish P (ReservationExpired t (r_id res'))) (\<lambda>_.
     ret (Captured_reservation res')))))"

definition expireIfDue :: "'w ports \<Rightarrow> reservation \<Rightarrow> ('w, err, reservation) prog" where
  "expireIfDue P res =
     (if r_status res \<noteq> StatusActive then ret res
      else andthen (now P) (\<lambda>t.
           if \<not> IsExpired res t then ret res
           else andthen (atomically P (expire_scope P res t)) (\<lambda>c.
                case c of Captured_reservation res' \<Rightarrow> ret res' | _ \<Rightarrow> ret res)))"

fun expireAllIfDue :: "'w ports \<Rightarrow> reservation list \<Rightarrow> ('w, err, reservation list) prog" where
  "expireAllIfDue P [] = ret []"
| "expireAllIfDue P (res # results) =
     andthen (expireIfDue P res) (\<lambda>updated.
     andthen (expireAllIfDue P results) (\<lambda>rest. ret (updated # rest)))"

section \<open>ReserveStock\<close>

definition DefaultReservationTimeout :: int where
  "DefaultReservationTimeout = 30 * 60 * 1000000000"

definition isReplayOf :: "reservation \<Rightarrow> sku \<Rightarrow> quantity \<Rightarrow> bool" where
  "isReplayOf res sk qty \<longleftrightarrow> r_sku res = sk \<and> r_quantity res = qty"

definition activeReservationFor ::
  "'w ports \<Rightarrow> string \<Rightarrow> sku \<Rightarrow> quantity \<Rightarrow> ('w, err, reservation option) prog" where
  "activeReservationFor P demandRef sk qty =
     andthen (rr_find_demand (p_reservations P) demandRef) (\<lambda>existing.
     andthen (expireAllIfDue P existing) (\<lambda>existing'.
     ret (List.find (\<lambda>res. r_status res = StatusActive \<and> isReplayOf res sk qty) existing')))"

definition usable_sum :: "stock_unit list \<Rightarrow> quantity" where
  "usable_sum us = foldl (\<lambda>t u. q_Add t (Usable u)) 0 us"

text \<open>The loop of \<open>allocate\<close>: allocations and touched units in order, and what is left to draw.\<close>

fun draw ::
  "stock_unit list \<Rightarrow> quantity \<Rightarrow> (allocation list \<times> stock_unit list \<times> quantity) result" where
  "draw [] remaining = Inr ([], [], remaining)"
| "draw (unit # us) remaining =
     (if remaining = 0 then Inr ([], [], remaining)
      else
        let usable = Usable unit
        in if usable = 0 then draw us remaining
           else
             let take = (if \<not> GreaterThan remaining usable then remaining else usable)
             in (case Reserve unit take of
                   Inl e \<Rightarrow> Inl e
                 | Inr unit' \<Rightarrow>
                     (case draw us (or_zero (q_Sub remaining take)) of
                        Inl e \<Rightarrow> Inl e
                      | Inr (allocations, touched, left) \<Rightarrow>
                          Inr (\<lparr>a_unit = u_id unit', a_bin = u_bin unit', a_quantity = take\<rparr> # allocations,
                               unit' # touched, left))))"

definition allocate :: "stock_unit list \<Rightarrow> quantity \<Rightarrow> (allocation list \<times> stock_unit list) result" where
  "allocate us qty =
     (if GreaterThan qty (usable_sum us) then Inl (UsecaseErr ErrInsufficientUsable)
      else case draw us qty of
        Inl e \<Rightarrow> Inl e
      | Inr (allocations, touched, left) \<Rightarrow>
          if left > 0 then Inl (UsecaseErr ErrInsufficientUsable) else Inr (allocations, touched))"

definition reserve_scope :: "'w ports \<Rightarrow> reservation \<Rightarrow> time \<Rightarrow> ('w, err, unit) prog" where
  "reserve_scope P res t =
     andthen (rr_save (p_reservations P) res) (\<lambda>_.
     p_publish P (StockReserved t (r_id res) (r_sku res) (r_quantity res) (r_demandRef res)))"

definition ReserveStock_Execute ::
  "'w ports \<Rightarrow> sku \<Rightarrow> quantity \<Rightarrow> string \<Rightarrow> ('w, err, reservation) prog" where
  "ReserveStock_Execute P sk qty demandRef =
     (if qty \<le> 0 then throw (SharedErr ErrZeroQuantity)
      else
        andthen (activeReservationFor P demandRef sk qty) (\<lambda>replay.
        case replay of
          Some res \<Rightarrow> ret res
        | None \<Rightarrow>
            andthen (sr_find_sku (p_stock P) sk) (\<lambda>us.
            andthen (lift (allocate us qty)) (\<lambda>(allocations, touched).
            andthen (each (sr_save (p_stock P)) touched) (\<lambda>_.
            andthen (rr_next (p_reservations P)) (\<lambda>ident.
            andthen (now P) (\<lambda>t.
            andthen (lift (NewReservation ident sk qty demandRef allocations t
                       (if p_timeout P \<le> 0 then DefaultReservationTimeout else p_timeout P))) (\<lambda>res.
            andthen (atomically P (uncaptured (reserve_scope P res t))) (\<lambda>_.
            andthen (created_metric P) (\<lambda>_.
            ret res))))))))))"

section \<open>RevokeReservation\<close>

definition revoke_scope :: "'w ports \<Rightarrow> reservation \<Rightarrow> ('w, err, unit) prog" where
  "revoke_scope P res =
     andthen (releaseAllocations P res) (\<lambda>_.
     andthen (rr_save (p_reservations P) res) (\<lambda>_.
     andthen (now P) (\<lambda>t.
     p_publish P (ReservationRevoked t (r_id res)))))"

definition RevokeReservation_Execute :: "'w ports \<Rightarrow> string \<Rightarrow> ('w, err, unit) prog" where
  "RevokeReservation_Execute P reservationID =
     andthen (rr_find (p_reservations P) reservationID) (\<lambda>found.
     case found of
       None \<Rightarrow> throw (UsecaseErr ErrReservationNotFound)
     | Some res0 \<Rightarrow>
         andthen (expireIfDue P res0) (\<lambda>res1.
         andthen (lift (Revoke res1)) (\<lambda>res.
         andthen (atomically P (uncaptured (revoke_scope P res))) (\<lambda>_.
         revoked_metric P))))"

section \<open>ConfirmPick\<close>

definition pickFromBin :: "'w ports \<Rightarrow> allocation \<Rightarrow> ('w, err, unit) prog" where
  "pickFromBin P alloc =
     andthen (sr_find (p_stock P) (a_unit alloc)) (\<lambda>found.
     case found of
       None \<Rightarrow> throw (UsecaseErr ErrStockUnitNotFound)
     | Some unit \<Rightarrow>
         andthen (lift (Pick unit (a_quantity alloc))) (\<lambda>unit'.
         andthen (sr_save (p_stock P) unit') (\<lambda>_.
         andthen (lr_find (p_locations P) (u_bin unit)) (\<lambda>found_bin.
         case found_bin of
           None \<Rightarrow> throw (UsecaseErr ErrBinNotFound)
         | Some b \<Rightarrow>
             andthen (lift (Release b (a_quantity alloc))) (\<lambda>b'.
             lr_save (p_locations P) b')))))"

definition pick_scope :: "'w ports \<Rightarrow> reservation \<Rightarrow> time \<Rightarrow> ('w, err, unit) prog" where
  "pick_scope P res t =
     andthen (each (pickFromBin P) (r_allocations res)) (\<lambda>_.
     andthen (rr_save (p_reservations P) res) (\<lambda>_.
     p_publish P (StockPicked t (r_id res) (r_sku res) (r_quantity res))))"

definition ConfirmPick_Execute :: "'w ports \<Rightarrow> string \<Rightarrow> ('w, err, unit) prog" where
  "ConfirmPick_Execute P reservationID =
     andthen (rr_find (p_reservations P) reservationID) (\<lambda>found.
     case found of
       None \<Rightarrow> throw (UsecaseErr ErrReservationNotFound)
     | Some res0 \<Rightarrow>
         andthen (expireIfDue P res0) (\<lambda>res1.
         andthen (now P) (\<lambda>t.
         andthen (lift (Confirm res1 t)) (\<lambda>res.
         andthen (atomically P (uncaptured (pick_scope P res t))) (\<lambda>_.
         ret ())))))"

section \<open>RunCycleCount\<close>

definition locatable :: "stock_unit \<Rightarrow> bool" where
  "locatable u \<longleftrightarrow> \<not> (u_state u = StateUnlocated \<or> u_state u = StateRemoved)"

definition locatableUnits :: "stock_unit list \<Rightarrow> quantity \<times> stock_unit list" where
  "locatableUnits us =
     foldl (\<lambda>(systemQty, found) u.
       if locatable u then (q_Add systemQty (u_quantity u), found @ [u]) else (systemQty, found)) (0, []) us"

fun markShortfallUnlocated ::
  "'w ports \<Rightarrow> bin_id \<Rightarrow> stock_unit list \<Rightarrow> quantity \<Rightarrow> time \<Rightarrow> ('w, err, unit) prog" where
  "markShortfallUnlocated P binID [] shortfall t = ret ()"
| "markShortfallUnlocated P binID (unit # us) shortfall t =
     (if shortfall = 0 then ret ()
      else
        let take = (if \<not> GreaterThan shortfall (u_quantity unit) then shortfall else u_quantity unit);
            unit' = MarkUnlocated unit
        in andthen (sr_save (p_stock P) unit') (\<lambda>_.
           andthen (p_publish P (ItemUnlocated t (u_id unit') (u_sku unit') binID take)) (\<lambda>_.
           markShortfallUnlocated P binID us (or_zero (q_Sub shortfall take)) t)))"

definition complete ::
  "'w ports \<Rightarrow> time \<Rightarrow> bin_id \<Rightarrow> quantity \<Rightarrow> quantity \<Rightarrow> bool \<Rightarrow> ('w, err, captured) prog" where
  "complete P t binID countedQty systemQty discrepancy =
     andthen (p_publish P (CycleCountCompleted t binID countedQty systemQty discrepancy)) (\<lambda>_.
     ret (Captured_count \<lparr>cc_bin = binID, cc_counted = countedQty, cc_system = systemQty,
                          cc_discrepancy = discrepancy\<rparr>))"

definition count_scope ::
  "'w ports \<Rightarrow> time \<Rightarrow> bin_id \<Rightarrow> quantity \<Rightarrow> quantity \<Rightarrow> stock_unit list \<Rightarrow> ('w, err, captured) prog" where
  "count_scope P t binID countedQty systemQty found =
     (if countedQty = systemQty then complete P t binID countedQty systemQty False
      else
        andthen (p_publish P (DiscrepancyDetected t binID countedQty systemQty)) (\<lambda>_.
        if GreaterThan countedQty systemQty then complete P t binID countedQty systemQty True
        else
          andthen (markShortfallUnlocated P binID found (or_zero (q_Sub systemQty countedQty)) t) (\<lambda>_.
          complete P t binID countedQty systemQty True)))"

definition RunCycleCount_Execute ::
  "'w ports \<Rightarrow> bin_id \<Rightarrow> quantity \<Rightarrow> ('w, err, cycle_count_result) prog" where
  "RunCycleCount_Execute P binID countedQty =
     andthen (sr_find_bin (p_stock P) binID) (\<lambda>us.
     let (systemQty, found) = locatableUnits us in
     andthen (now P) (\<lambda>t.
     andthen (atomically P (count_scope P t binID countedQty systemQty found)) (\<lambda>c.
     case c of
       Captured_count r \<Rightarrow> ret r
     | _ \<Rightarrow> ret \<lparr>cc_bin = '''', cc_counted = 0, cc_system = 0, cc_discrepancy = False\<rparr>)))"

section \<open>RegisterBin, GetBin, GetUsable, GetReservationsByDemandRef, ClassifyProduct\<close>

definition register_scope :: "'w ports \<Rightarrow> bin_id \<Rightarrow> quantity \<Rightarrow> ('w, err, captured) prog" where
  "register_scope P ident capacity =
     andthen (lr_find (p_locations P) ident) (\<lambda>existing.
     case existing of
       None \<Rightarrow>
         andthen (lift (NewBin ident capacity)) (\<lambda>b.
         andthen (lr_save (p_locations P) b) (\<lambda>_.
         ret (Captured_bin b BinCreated)))
     | Some b \<Rightarrow>
         if b_capacity b = capacity then ret (Captured_bin b BinUnchanged)
         else
           andthen (lift (Resize b capacity)) (\<lambda>b'.
           andthen (lr_save (p_locations P) b') (\<lambda>_.
           ret (Captured_bin b' BinResized))))"

definition RegisterBin_Execute ::
  "'w ports \<Rightarrow> bin_id \<Rightarrow> quantity \<Rightarrow> ('w, err, (bin \<times> outcome) option) prog" where
  "RegisterBin_Execute P ident capacity =
     (if ident = '''' then throw (SharedErr ErrEmptyBinID)
      else if capacity \<le> 0 then throw (LocationErr ErrInvalidCapacity)
      else
        andthen (atomically P (register_scope P ident capacity)) (\<lambda>c.
        case c of Captured_bin b out \<Rightarrow> ret (Some (b, out)) | _ \<Rightarrow> ret None))"

definition GetBin_Execute :: "'w ports \<Rightarrow> bin_id \<Rightarrow> ('w, err, bin) prog" where
  "GetBin_Execute P ident =
     (if ident = '''' then throw (SharedErr ErrEmptyBinID)
      else andthen (lr_find (p_locations P) ident) (\<lambda>found.
           case found of None \<Rightarrow> throw (UsecaseErr ErrBinNotFound) | Some b \<Rightarrow> ret b))"

record usable_inventory =
  ui_sku :: sku
  ui_usable :: quantity

definition GetUsable_Execute :: "'w ports \<Rightarrow> sku \<Rightarrow> ('w, err, usable_inventory) prog" where
  "GetUsable_Execute P sk =
     andthen (sr_find_sku (p_stock P) sk) (\<lambda>us.
     ret \<lparr>ui_sku = sk, ui_usable = foldl (\<lambda>t u. q_Add t (Usable u)) 0 us\<rparr>)"

definition GetReservationsByDemandRef_Execute ::
  "'w ports \<Rightarrow> string \<Rightarrow> ('w, err, reservation list) prog" where
  "GetReservationsByDemandRef_Execute P demandRef =
     andthen (rr_find_demand (p_reservations P) demandRef) (expireAllIfDue P)"

definition ClassifyProduct_Execute ::
  "'w classification_repo \<Rightarrow> 'w ports \<Rightarrow> sku \<Rightarrow> handling_tag list \<Rightarrow> temperature_class \<Rightarrow> dot_class \<Rightarrow>
   ('w, err, classification) prog" where
  "ClassifyProduct_Execute cr P sk tags temperatureClass dotHazardClass =
     andthen (lift (NewClassification sk tags temperatureClass dotHazardClass)) (\<lambda>c.
     andthen (now P) (\<lambda>t.
     andthen (atomically P (uncaptured (andthen (cr_save cr c) (\<lambda>_. p_publish P (NewProductClassified c t))))) (\<lambda>_.
     ret c)))"

end
