(* ===== verification/Invariant.thy ===== *)
theory Invariant
  imports Ports
begin

text \<open>
  What the inventory is supposed to keep true across aggregates, as a predicate on its tables, and
  how the writes of the repositories change what it says.
\<close>

section \<open>The books\<close>

definition active :: "inventory \<Rightarrow> string \<Rightarrow> bool" where
  "active d rid \<longleftrightarrow>
     (case find_row rr_id rid (ress d) of None \<Rightarrow> False | Some r \<Rightarrow> rr_status r = StatusActive)"

text \<open>What the ACTIVE reservations claim of a unit.\<close>

definition claimed :: "inventory \<Rightarrow> string \<Rightarrow> int" where
  "claimed d uid =
     total (\<lambda>a. if ar_unit a = uid \<and> active d (ar_res a) then ar_quantity a else 0) (allocs d)"

text \<open>What the units of a bin hold.\<close>

definition held :: "inventory \<Rightarrow> bin_id \<Rightarrow> int" where
  "held d b = total (\<lambda>u. if u_bin u = b then u_quantity u else 0) (units d)"

definition books :: "inventory \<Rightarrow> bool" where
  "books d \<longleftrightarrow> (\<forall>r \<in> set (ress d).
     rr_quantity r = total (\<lambda>a. if ar_res a = rr_id r then ar_quantity a else 0) (allocs d))"

text \<open>
  \<open>ledger C d\<close>: the units are well formed and at least \<open>C\<close> is reserved of each; the bins are
  well formed and hold what their units hold; a reservation is for the sum of its allocations.
\<close>

definition ledger :: "(string \<Rightarrow> int) \<Rightarrow> inventory \<Rightarrow> bool" where
  "ledger C d \<longleftrightarrow>
     (\<forall>u \<in> set (units d). unit_ok u \<and> state_ok u \<and> C (u_id u) \<le> u_reserved u) \<and>
     (\<forall>b \<in> set (bins d). bin_ok b \<and> b_occupied b = held d (b_id b)) \<and>
     books d \<and> (\<forall>c \<in> set (classes d). classification_ok c)"

definition sys_inv :: "inventory \<Rightarrow> bool" where
  "sys_inv d \<longleftrightarrow> schema_ok d \<and> ledger (claimed d) d"

lemma sys_inv_empty: "sys_inv empty_inventory"
  by (simp add: sys_inv_def schema_ok_def ledger_def books_def empty_inventory_def)

lemma ledger_unit: "ledger C d \<Longrightarrow> u \<in> set (units d) \<Longrightarrow> unit_ok u \<and> state_ok u \<and> C (u_id u) \<le> u_reserved u"
  by (simp add: ledger_def)

lemma ledger_bin: "ledger C d \<Longrightarrow> b \<in> set (bins d) \<Longrightarrow> bin_ok b \<and> b_occupied b = held d (b_id b)"
  by (simp add: ledger_def)

lemma schema_alloc:
  "schema_ok d \<Longrightarrow> a \<in> set (allocs d) \<Longrightarrow> 0 < ar_quantity a \<and> ar_quantity a \<le> max_int4"
  by (simp add: schema_ok_def)

lemma int4_in64: "0 < q \<Longrightarrow> q \<le> max_int4 \<Longrightarrow> in64 q"
  by (simp add: in64_def max_int4_def)

section \<open>What a write leaves alone\<close>

lemma put_unit_sel [simp]:
  "bins (put_unit v u d) = bins d" "ress (put_unit v u d) = ress d"
  "allocs (put_unit v u d) = allocs d" "classes (put_unit v u d) = classes d"
  "units (put_unit v u d) = upsert u_id (u\<lparr>u_version := v\<rparr>) (units d)"
  by (simp_all add: put_unit_def)

lemma put_bin_sel [simp]:
  "units (put_bin v b d) = units d" "ress (put_bin v b d) = ress d"
  "allocs (put_bin v b d) = allocs d" "classes (put_bin v b d) = classes d"
  "bins (put_bin v b d) = upsert b_id (b\<lparr>b_version := v\<rparr>) (bins d)"
  by (simp_all add: put_bin_def)

lemma put_class_sel [simp]:
  "units (put_class c d) = units d" "ress (put_class c d) = ress d"
  "allocs (put_class c d) = allocs d" "bins (put_class c d) = bins d"
  "classes (put_class c d) = upsert c_sku c (classes d)"
  by (simp_all add: put_class_def)

lemma put_res_sel [simp]:
  "units (put_res v r d) = units d" "bins (put_res v r d) = bins d" "classes (put_res v r d) = classes d"
  "ress (put_res v r d) = upsert rr_id (res_row_of v r (find_row rr_id (r_id r) (ress d))) (ress d)"
  "allocs (put_res v r d) = fold (put_alloc (r_id r)) (r_allocations r) (allocs d)"
  by (simp_all add: put_res_def)

lemma active_frame [simp]:
  "active (put_unit v u d) = active d" "active (put_bin v b d) = active d"
  "active (put_class c d) = active d"
  by (simp_all add: active_def fun_eq_iff)

lemma claimed_frame [simp]:
  "claimed (put_unit v u d) = claimed d" "claimed (put_bin v b d) = claimed d"
  "claimed (put_class c d) = claimed d"
  by (simp_all add: claimed_def fun_eq_iff)

lemma books_frame [simp]:
  "books (put_unit v u d) = books d" "books (put_bin v b d) = books d" "books (put_class c d) = books d"
  by (simp_all add: books_def)

lemma held_frame [simp]:
  "held (put_bin v b d) = held d" "held (put_class c d) = held d" "held (put_res v r d) = held d"
  by (simp_all add: held_def fun_eq_iff)

lemma held_put_unit_old:
  "find_row u_id (u_id u) (units d) = Some u0 \<Longrightarrow> u_bin u = u_bin u0 \<Longrightarrow>
   held (put_unit v u d) b = held d b + (if u_bin u0 = b then u_quantity u - u_quantity u0 else 0)"
  by (simp add: held_def total_upsert_Some)

lemma held_put_unit_new:
  "u_id u \<notin> u_id ` set (units d) \<Longrightarrow>
   held (put_unit v u d) b = held d b + (if u_bin u = b then u_quantity u else 0)"
  by (simp add: held_def total_upsert_None find_row_None)

lemma held_none: "(\<And>u. u \<in> set (units d) \<Longrightarrow> u_bin u \<noteq> b) \<Longrightarrow> held d b = 0"
  by (auto simp: held_def intro: total_zero)

section \<open>Writes that keep the ledger\<close>

text \<open>A unit is rewritten with the quantity it had, and with claims it covers.\<close>

lemma ledger_put_unit:
  assumes "schema_ok d" "ledger C d" "find_row u_id (u_id u) (units d) = Some u0"
    and "unit_ok u" "state_ok u" "u_bin u = u_bin u0" "u_quantity u = u_quantity u0"
    and "C' (u_id u) \<le> u_reserved u" and "\<And>i. i \<noteq> u_id u \<Longrightarrow> C' i \<le> C i"
  shows "ledger C' (put_unit v u d)"
proof -
  have dist: "distinct (map u_id (units d))" using assms(1) by (simp add: schema_ok_def)
  have "held (put_unit v u d) b = held d b" for b
    using held_put_unit_old [OF assms(3,6)] assms(7) by simp
  moreover have "\<forall>x \<in> set (units (put_unit v u d)). unit_ok x \<and> state_ok x \<and> C' (u_id x) \<le> u_reserved x"
    using assms(2,4,5,8,9) by (fastforce simp: set_upsert [OF dist] ledger_def)
  ultimately show ?thesis using assms(2) by (simp add: ledger_def)
qed

text \<open>Units leave a bin with their stock, and the bin is told.\<close>

lemma ledger_pick:
  assumes "schema_ok d" "ledger C d"
    and u: "find_row u_id (u_id u) (units d) = Some u0" "unit_ok u" "state_ok u" "u_bin u = u_bin u0"
    and b: "find_row b_id (u_bin u0) (bins d) = Some b0" "bin_ok b" "b_id b = b_id b0"
    and q: "b_occupied b = b_occupied b0 + (u_quantity u - u_quantity u0)"
    and "C' (u_id u) \<le> u_reserved u" and "\<And>i. i \<noteq> u_id u \<Longrightarrow> C' i \<le> C i"
  shows "ledger C' (put_bin v' b (put_unit v u d))"
proof -
  have dist: "distinct (map u_id (units d))" "distinct (map b_id (bins d))"
    using assms(1) by (simp_all add: schema_ok_def)
  have id: "b_id b = u_bin u0" using b(1,3) find_row_key by fastforce
  have occ: "b_occupied b0 = held d (u_bin u0)"
    using ledger_bin [OF assms(2) find_row_set [OF b(1)]] find_row_key [OF b(1)] by simp
  have held: "held (put_unit v u d) i = held d i + (if u_bin u0 = i then u_quantity u - u_quantity u0 else 0)" for i
    by (rule held_put_unit_old [OF u(1,4)])
  have "\<forall>x \<in> set (units (put_unit v u d)). unit_ok x \<and> state_ok x \<and> C' (u_id x) \<le> u_reserved x"
    using assms(2,11,12) u(2,3) by (fastforce simp: set_upsert [OF dist(1)] ledger_def)
  moreover have "\<forall>x \<in> set (bins (put_bin v' b (put_unit v u d))).
      bin_ok x \<and> b_occupied x = held (put_unit v u d) (b_id x)"
    using assms(2) b(2) q occ
    by (auto simp: set_upsert [OF dist(2)] ledger_def held id bin_ok_def)
  ultimately show ?thesis using assms(2) by (simp add: ledger_def)
qed

text \<open>A new unit is put into a bin that was told of it.\<close>

lemma ledger_stow:
  assumes "schema_ok d" "ledger C d"
    and u: "u_id u \<notin> u_id ` set (units d)" "unit_ok u" "state_ok u" "C (u_id u) \<le> u_reserved u"
    and b: "find_row b_id (u_bin u) (bins d) = Some b0" "bin_ok b" "b_id b = b_id b0"
    and q: "b_occupied b = b_occupied b0 + u_quantity u"
  shows "ledger C (put_unit v u (put_bin v' b d))"
proof -
  have dist: "distinct (map u_id (units d))" "distinct (map b_id (bins d))"
    using assms(1) by (simp_all add: schema_ok_def)
  have id: "b_id b = u_bin u" using b(1,3) find_row_key by fastforce
  have occ: "b_occupied b0 = held d (u_bin u)"
    using ledger_bin [OF assms(2) find_row_set [OF b(1)]] find_row_key [OF b(1)] by simp
  have held: "held (put_unit v u (put_bin v' b d)) i = held d i + (if u_bin u = i then u_quantity u else 0)" for i
    using held_put_unit_new [of u "put_bin v' b d"] u(1) by simp
  have "\<forall>x \<in> set (units (put_unit v u (put_bin v' b d))). unit_ok x \<and> state_ok x \<and> C (u_id x) \<le> u_reserved x"
    using assms(2) u by (auto simp: set_upsert [OF dist(1)] ledger_def)
  moreover have "\<forall>x \<in> set (bins (put_unit v u (put_bin v' b d))).
      bin_ok x \<and> b_occupied x = held (put_unit v u (put_bin v' b d)) (b_id x)"
    using assms(2) b(2) q occ unfolding held
    by (auto simp: set_upsert [OF dist(2)] ledger_def id bin_ok_def)
  ultimately show ?thesis using assms(2) by (simp add: ledger_def)
qed

text \<open>A bin is created empty, or keeps its occupancy under another capacity.\<close>

lemma ledger_put_bin:
  assumes "schema_ok d" "ledger C d" "bin_ok b" "b_occupied b = held d (b_id b)"
  shows "ledger C (put_bin v b d)"
proof -
  have "distinct (map b_id (bins d))" using assms(1) by (simp add: schema_ok_def)
  then show ?thesis using assms(2-4) by (auto simp: ledger_def set_upsert bin_ok_def)
qed

lemma ledger_put_class:
  assumes "schema_ok d" "ledger C d" "classification_ok c"
  shows "ledger C (put_class c d)"
proof -
  have "distinct (map c_sku (classes d))" using assms(1) by (simp add: schema_ok_def)
  then show ?thesis using assms(2,3) by (auto simp: ledger_def set_upsert)
qed

end
