(* ===== verification/Effects.thy ===== *)
theory Effects
  imports Invariant
begin

text \<open>
  What the transactional part of each use case does to the tables, as relations between the tables
  before and after it: an abstraction of the use cases that says nothing of ports, worlds or errors.
  The relations leave open the version a row is written with, which is the adapter's business.
\<close>

section \<open>Claims of one reservation\<close>

text \<open>What a list of allocations draws from a unit.\<close>

definition drawn :: "allocation list \<Rightarrow> string \<Rightarrow> int" where
  "drawn as uid = total (\<lambda>a. if a_unit a = uid then a_quantity a else 0) as"

definition claimed_but :: "inventory \<Rightarrow> string \<Rightarrow> string \<Rightarrow> int" where
  "claimed_but d rid uid =
     total (\<lambda>a. if ar_unit a = uid \<and> ar_res a \<noteq> rid \<and> active d (ar_res a) then ar_quantity a else 0) (allocs d)"

lemma drawn_simps [simp]:
  "drawn [] uid = 0" "drawn (a # as) uid = (if a_unit a = uid then a_quantity a else 0) + drawn as uid"
  "drawn (as @ bs) uid = drawn as uid + drawn bs uid"
  by (simp_all add: drawn_def)

lemma drawn_nonneg: "(\<And>a. a \<in> set as \<Longrightarrow> 0 \<le> a_quantity a) \<Longrightarrow> 0 \<le> drawn as uid"
  by (auto simp: drawn_def intro: total_nonneg)

lemma claimed_but_frame [simp]:
  "claimed_but (put_unit v u d) = claimed_but d" "claimed_but (put_bin v b d) = claimed_but d"
  by (simp_all add: claimed_but_def fun_eq_iff)

lemma loads_allocs:
  assumes "loads d row r"
  shows "set (r_allocations r) = alloc_of ` set (allocs_of d (r_id r))"
proof -
  have "set_mset (mset (r_allocations r)) = set_mset (mset (map alloc_of (allocs_of d (r_id r))))"
    using assms by (simp add: loads_def)
  then show ?thesis by simp
qed

lemma loads_bounds:
  assumes "loads d row r" "schema_ok d" "a \<in> set (r_allocations r)"
  shows "0 < a_quantity a" "a_quantity a \<le> max_int4"
  using loads_allocs [OF assms(1)] assms(2,3)
  by (auto simp: alloc_of_def allocs_of_def dest!: schema_alloc)

lemma loads_total:
  assumes "loads d row r"
  shows "total f (r_allocations r) = total (\<lambda>a. if ar_res a = r_id r then f (alloc_of a) else 0) (allocs d)"
proof -
  have "total f (r_allocations r) = total f (map alloc_of (allocs_of d (r_id r)))"
    using assms by (intro total_mset) (simp add: loads_def)
  then show ?thesis by (simp add: allocs_of_def total_filter)
qed

lemma claimed_split:
  assumes "loads d row r" "active d (r_id r)"
  shows "claimed d uid = claimed_but d (r_id r) uid + drawn (r_allocations r) uid"
proof -
  have "drawn (r_allocations r) uid =
      total (\<lambda>a. if ar_res a = r_id r then (if ar_unit a = uid then ar_quantity a else 0) else 0) (allocs d)"
    unfolding drawn_def loads_total [OF assms(1)] by (simp add: alloc_of_def cong: if_cong)
  then show ?thesis
    unfolding claimed_def claimed_but_def
    by (simp only: total_plus [symmetric]) (rule total_cong, use assms(2) in auto)
qed

section \<open>Saving a reservation\<close>

lemma put_alloc_same:
  assumes "distinct (map ar_key rows)" "a \<in> set rows" "ar_res a = rid"
  shows "put_alloc rid (alloc_of a) rows = rows"
proof -
  have f: "find_row ar_key (rid, ar_unit a) rows = Some a"
    using find_row_distinct [OF assms(1,2)] assms(3) by (simp add: ar_key_def)
  have "upsert ar_key a rows = rows"
    using f assms(3) by (intro upsert_same) (simp add: ar_key_def)
  moreover have "\<lparr>ar_res = rid, ar_unit = ar_unit a, ar_quantity = ar_quantity a, ar_bin = ar_bin a\<rparr> = a"
    using assms(3) by simp
  ultimately show ?thesis
    using f by (auto simp: put_alloc_def alloc_of_def Let_def split: option.splits)
qed

lemma fold_put_alloc_same:
  assumes "distinct (map ar_key rows)" "set as \<subseteq> alloc_of ` {a \<in> set rows. ar_res a = rid}"
  shows "fold (put_alloc rid) as rows = rows"
  using assms(2) by (induction as) (auto simp: put_alloc_same [OF assms(1)])

definition new_alloc :: "string \<Rightarrow> allocation \<Rightarrow> alloc_row" where
  "new_alloc rid a = \<lparr>ar_res = rid, ar_unit = a_unit a, ar_quantity = a_quantity a,
                      ar_bin = (if a_bin a = '''' then None else Some (a_bin a))\<rparr>"

lemma new_alloc_sel [simp]:
  "ar_res (new_alloc rid a) = rid" "ar_unit (new_alloc rid a) = a_unit a"
  "ar_quantity (new_alloc rid a) = a_quantity a"
  by (simp_all add: new_alloc_def)

lemma put_alloc_new: "(rid, a_unit a) \<notin> ar_key ` set rows \<Longrightarrow> put_alloc rid a rows = rows @ [new_alloc rid a]"
  using upsert_fresh [of ar_key "new_alloc rid a" rows] find_row_None [of ar_key "(rid, a_unit a)" rows]
  by (cases "a_bin a = ''''") (simp_all add: put_alloc_def new_alloc_def ar_key_def)

lemma fold_put_alloc_new:
  "distinct (map a_unit as) \<Longrightarrow> (\<And>a. a \<in> set as \<Longrightarrow> (rid, a_unit a) \<notin> ar_key ` set rows) \<Longrightarrow>
   fold (put_alloc rid) as rows = rows @ map (new_alloc rid) as"
proof (induction as arbitrary: rows)
  case (Cons a as)
  have "fold (put_alloc rid) as (rows @ [new_alloc rid a]) = (rows @ [new_alloc rid a]) @ map (new_alloc rid) as"
    using Cons.prems by (intro Cons.IH) (auto simp: ar_key_def image_iff)
  then show ?case using Cons.prems by (simp add: put_alloc_new)
qed simp

lemma put_res_resolved:
  assumes "schema_ok d" "find_row rr_id (r_id r) (ress d) = Some row" "loads d row r"
  shows "allocs (put_res v (r\<lparr>r_status := st\<rparr>) d) = allocs d"
    and "ress (put_res v (r\<lparr>r_status := st\<rparr>) d) = upsert rr_id (row\<lparr>rr_status := st, rr_version := v\<rparr>) (ress d)"
    and "active (put_res v (r\<lparr>r_status := st\<rparr>) d) i = (if i = r_id r then st = StatusActive else active d i)"
proof -
  have key: "rr_id row = r_id r" using assms(2) by (rule find_row_key)
  show "allocs (put_res v (r\<lparr>r_status := st\<rparr>) d) = allocs d"
    using loads_allocs [OF assms(3)] assms(1)
    by (simp, intro fold_put_alloc_same) (auto simp: schema_ok_def allocs_of_def)
  show "ress (put_res v (r\<lparr>r_status := st\<rparr>) d) = upsert rr_id (row\<lparr>rr_status := st, rr_version := v\<rparr>) (ress d)"
    by (simp add: assms(2) res_row_of_def)
  then show "active (put_res v (r\<lparr>r_status := st\<rparr>) d) i = (if i = r_id r then st = StatusActive else active d i)"
    by (simp add: active_def find_upsert key)
qed

lemma claimed_resolved:
  assumes "schema_ok d" "find_row rr_id (r_id r) (ress d) = Some row" "loads d row r" "st \<noteq> StatusActive"
  shows "claimed (put_res v (r\<lparr>r_status := st\<rparr>) d) uid = claimed_but d (r_id r) uid"
  unfolding claimed_def claimed_but_def put_res_resolved [OF assms(1-3)]
  by (rule total_cong) (use assms(4) in auto)

lemma books_resolved:
  assumes "schema_ok d" "find_row rr_id (r_id r) (ress d) = Some row" "loads d row r" "books d"
  shows "books (put_res v (r\<lparr>r_status := st\<rparr>) d)"
proof -
  have "distinct (map rr_id (ress d))" using assms(1) by (simp add: schema_ok_def)
  with assms(4) find_row_set [OF assms(2)] show ?thesis
    unfolding books_def put_res_resolved [OF assms(1-3)] by (auto simp: set_upsert)
qed

text \<open>A reservation that is resolved gives up its claims: what it drew need not be reserved any more.\<close>

lemma ledger_resolved:
  assumes "schema_ok d" "find_row rr_id (r_id r) (ress d) = Some row" "loads d row r" "st \<noteq> StatusActive"
    and "ledger (claimed_but d (r_id r)) d"
  shows "ledger (claimed (put_res v (r\<lparr>r_status := st\<rparr>) d)) (put_res v (r\<lparr>r_status := st\<rparr>) d)"
  using assms(5) books_resolved [OF assms(1-3)]
  by (simp add: ledger_def claimed_resolved [OF assms(1-4)] del: put_res_sel(4,5))

text \<open>A new reservation adds the claims of its allocations.\<close>

lemma no_alloc_of_fresh:
  "schema_ok d \<Longrightarrow> rid \<notin> rr_id ` set (ress d) \<Longrightarrow> a \<in> set (allocs d) \<Longrightarrow> ar_res a \<noteq> rid"
  by (auto simp: schema_ok_def)

lemma put_res_new:
  assumes "schema_ok d" "r_id r \<notin> rr_id ` set (ress d)" "distinct (map a_unit (r_allocations r))"
  shows "allocs (put_res v r d) = allocs d @ map (new_alloc (r_id r)) (r_allocations r)"
    and "ress (put_res v r d) = ress d @ [res_row_of v r None]"
    and "active (put_res v r d) i = (if i = r_id r then r_status r = StatusActive else active d i)"
proof -
  have none: "find_row rr_id (r_id r) (ress d) = None" using assms(2) by (simp add: find_row_None)
  show "allocs (put_res v r d) = allocs d @ map (new_alloc (r_id r)) (r_allocations r)"
    by (simp, intro fold_put_alloc_new [OF assms(3)])
      (auto simp: ar_key_def dest: no_alloc_of_fresh [OF assms(1,2)])
  have ress: "ress (put_res v r d) = upsert rr_id (res_row_of v r None) (ress d)"
    by (simp add: none)
  show "ress (put_res v r d) = ress d @ [res_row_of v r None]"
    unfolding ress by (rule upsert_fresh) (use assms(2) in \<open>simp add: res_row_of_def\<close>)
  show "active (put_res v r d) i = (if i = r_id r then r_status r = StatusActive else active d i)"
    unfolding active_def ress find_upsert by (simp add: res_row_of_def)
qed

lemma claimed_new:
  assumes "schema_ok d" "r_id r \<notin> rr_id ` set (ress d)" "distinct (map a_unit (r_allocations r))"
    and "r_status r = StatusActive"
  shows "claimed (put_res v r d) uid = claimed d uid + drawn (r_allocations r) uid"
proof -
  have "total (\<lambda>a. if ar_unit a = uid \<and> active (put_res v r d) (ar_res a) then ar_quantity a else 0) (allocs d)
      = claimed d uid"
    unfolding claimed_def
    by (rule total_cong) (use no_alloc_of_fresh [OF assms(1,2)] in \<open>auto simp: put_res_new [OF assms(1-3)]\<close>)
  then show ?thesis
    by (simp add: claimed_def put_res_new [OF assms(1-3)] assms(4) drawn_def del: put_res_sel cong: if_cong)
qed

lemma ledger_new:
  assumes "schema_ok d" "r_id r \<notin> rr_id ` set (ress d)" "distinct (map a_unit (r_allocations r))"
    and "r_status r = StatusActive" "r_quantity r = total a_quantity (r_allocations r)"
    and "ledger (\<lambda>i. claimed d i + drawn (r_allocations r) i) d"
  shows "ledger (claimed (put_res v r d)) (put_res v r d)"
proof -
  have old: "rr_id row \<noteq> r_id r" if "row \<in> set (ress d)" for row
    using assms(2) imageI [OF that, of rr_id] by auto
  have "total (\<lambda>a. if ar_res a = r_id r then ar_quantity a else 0) (allocs d) = 0"
    using no_alloc_of_fresh [OF assms(1,2)] by (auto intro: total_zero)
  moreover have "total (\<lambda>a. if r_id r = rr_id row then a_quantity a else 0) (r_allocations r) = 0"
    if "row \<in> set (ress d)" for row
    using old [OF that] by (auto intro: total_zero)
  moreover have "books d" using assms(6) by (simp add: ledger_def)
  ultimately have "books (put_res v r d)"
    using assms(5)
    by (auto simp: books_def put_res_new [OF assms(1-3)] res_row_of_def simp del: put_res_sel cong: if_cong)
  then show ?thesis
    using assms(6) by (simp add: ledger_def claimed_new [OF assms(1-4)] del: put_res_sel(4,5))
qed

section \<open>The loops\<close>

inductive released :: "allocation list \<Rightarrow> inventory \<Rightarrow> inventory \<Rightarrow> bool" where
  released_none: "released [] d d"
| released_one: "find_row u_id (a_unit a) (units d) = Some u \<Longrightarrow> ReleaseReservation u (a_quantity a) = Inr u' \<Longrightarrow>
    schema_ok (put_unit v u' d) \<Longrightarrow> released as (put_unit v u' d) d' \<Longrightarrow> released (a # as) d d'"

inductive picked :: "allocation list \<Rightarrow> inventory \<Rightarrow> inventory \<Rightarrow> bool" where
  picked_none: "picked [] d d"
| picked_one: "find_row u_id (a_unit a) (units d) = Some u \<Longrightarrow> Pick u (a_quantity a) = Inr u' \<Longrightarrow>
    find_row b_id (u_bin u) (bins d) = Some b \<Longrightarrow> Release b (a_quantity a) = Inr b' \<Longrightarrow>
    schema_ok (put_bin v' b' (put_unit v u' d)) \<Longrightarrow>
    picked as (put_bin v' b' (put_unit v u' d)) d' \<Longrightarrow> picked (a # as) d d'"

inductive rewritten :: "stock_unit list \<Rightarrow> inventory \<Rightarrow> inventory \<Rightarrow> bool" where
  rewritten_none: "rewritten [] d d"
| rewritten_one: "schema_ok (put_unit v u d) \<Longrightarrow> rewritten us (put_unit v u d) d' \<Longrightarrow> rewritten (u # us) d d'"

inductive_cases released_ConsE: "released (a # as) d d'"
inductive_cases picked_ConsE: "picked (a # as) d d'"
inductive_cases rewritten_ConsE: "rewritten (u # us) d d'"
inductive_simps released_Nil [simp]: "released [] d d'"
inductive_simps picked_Nil [simp]: "picked [] d d'"
inductive_simps rewritten_Nil [simp]: "rewritten [] d d'"

lemma released_frame:
  "released as d d' \<Longrightarrow> bins d' = bins d \<and> ress d' = ress d \<and> allocs d' = allocs d \<and> classes d' = classes d"
  by (induction rule: released.induct) auto

lemma picked_frame: "picked as d d' \<Longrightarrow> ress d' = ress d \<and> allocs d' = allocs d \<and> classes d' = classes d"
  by (induction rule: picked.induct) auto

lemma rewritten_frame:
  "rewritten us d d' \<Longrightarrow> bins d' = bins d \<and> ress d' = ress d \<and> allocs d' = allocs d \<and> classes d' = classes d"
  by (induction rule: rewritten.induct) auto

lemma released_schema: "released as d d' \<Longrightarrow> schema_ok d \<Longrightarrow> schema_ok d'"
  by (induction rule: released.induct) auto

lemma picked_schema: "picked as d d' \<Longrightarrow> schema_ok d \<Longrightarrow> schema_ok d'"
  by (induction rule: picked.induct) auto

lemma rewritten_schema: "rewritten us d d' \<Longrightarrow> schema_ok d \<Longrightarrow> schema_ok d'"
  by (induction rule: rewritten.induct) auto

lemma released_ledger:
  assumes "released as d d'" "schema_ok d" "ledger (\<lambda>i. C i + drawn as i) d"
    and "\<And>a. a \<in> set as \<Longrightarrow> 0 < a_quantity a \<and> a_quantity a \<le> max_int4"
  shows "ledger C d'"
  using assms
proof (induction rule: released.induct)
  case (released_none d)
  then show ?case by simp
next
  case (released_one a d u u' v as d')
  have q: "0 < a_quantity a" "in64 (a_quantity a)" using released_one.prems(3) [of a] by (auto intro: int4_in64)
  have u: "unit_ok u" "state_ok u" "C (u_id u) + drawn (a # as) (u_id u) \<le> u_reserved u" "u_id u = a_unit a"
    using ledger_unit [OF released_one.prems(2) find_row_set [OF released_one.hyps(1)]]
      find_row_key [OF released_one.hyps(1)] by auto
  have frame: "u_id u' = u_id u" "u_bin u' = u_bin u" "u_quantity u' = u_quantity u"
    using unit_frame(2) [OF released_one.hyps(2)] by auto
  have res: "u_reserved u' = u_reserved u - a_quantity a"
    using released_one.hyps(2) q u(1) by (auto simp: ReleaseReservation_exact split: if_splits)
  have "ledger (\<lambda>i. C i + drawn as i) (put_unit v u' d)"
    by (rule ledger_put_unit [OF released_one.prems(1,2), where ?u0.0 = u])
      (use q u frame res released_one.hyps(1,2) in
        \<open>auto intro: unit_ok_release state_ok_release less_imp_le\<close>)
  then show ?case using released_one by simp
qed

lemma picked_ledger:
  assumes "picked as d d'" "schema_ok d" "ledger (\<lambda>i. C i + drawn as i) d"
    and "\<And>a. a \<in> set as \<Longrightarrow> 0 < a_quantity a \<and> a_quantity a \<le> max_int4"
  shows "ledger C d'"
  using assms
proof (induction rule: picked.induct)
  case (picked_none d)
  then show ?case by simp
next
  case (picked_one a d u u' b b' v' v as d')
  have q: "0 < a_quantity a" "in64 (a_quantity a)" using picked_one.prems(3) [of a] by (auto intro: int4_in64)
  have u: "unit_ok u" "state_ok u" "C (u_id u) + drawn (a # as) (u_id u) \<le> u_reserved u" "u_id u = a_unit a"
    using ledger_unit [OF picked_one.prems(2) find_row_set [OF picked_one.hyps(1)]]
      find_row_key [OF picked_one.hyps(1)] by auto
  have frame: "u_id u' = u_id u" "u_bin u' = u_bin u"
    using unit_frame(3) [OF picked_one.hyps(2)] by auto
  have res: "u_reserved u' = u_reserved u - a_quantity a" "u_quantity u' = u_quantity u - a_quantity a"
    using picked_one.hyps(2) q u(1) by (auto simp: Pick_exact split: if_splits)
  have b: "bin_ok b" using ledger_bin [OF picked_one.prems(2) find_row_set [OF picked_one.hyps(3)]] by simp
  have b': "bin_ok b'" "b_occupied b' = b_occupied b - a_quantity a" "b_id b' = b_id b"
    using Release_ok(1,2) [OF b picked_one.hyps(4) q(2)] Release_id [OF picked_one.hyps(4)] by auto
  have "ledger (\<lambda>i. C i + drawn as i) (put_bin v' b' (put_unit v u' d))"
    by (rule ledger_pick [OF picked_one.prems(1,2), where ?u0.0 = u and ?b0.0 = b])
      (use q u frame res b' picked_one.hyps(1,2,3) in
        \<open>auto intro: unit_ok_pick state_ok_pick less_imp_le\<close>)
  then show ?case using picked_one by simp
qed

text \<open>Where the quantities went.\<close>

definition reserved_of :: "inventory \<Rightarrow> string \<Rightarrow> quantity" where
  "reserved_of d i = (case find_row u_id i (units d) of None \<Rightarrow> 0 | Some u \<Rightarrow> u_reserved u)"

definition quantity_of :: "inventory \<Rightarrow> string \<Rightarrow> quantity" where
  "quantity_of d i = (case find_row u_id i (units d) of None \<Rightarrow> 0 | Some u \<Rightarrow> u_quantity u)"

lemma of_put_unit [simp]:
  "reserved_of (put_unit v u d) i = (if i = u_id u then u_reserved u else reserved_of d i)"
  "quantity_of (put_unit v u d) i = (if i = u_id u then u_quantity u else quantity_of d i)"
  "reserved_of (put_bin v b d) = reserved_of d" "quantity_of (put_bin v b d) = quantity_of d"
  "reserved_of (put_res v r d) = reserved_of d" "quantity_of (put_res v r d) = quantity_of d"
  by (simp_all add: reserved_of_def quantity_of_def find_upsert fun_eq_iff)

lemma released_amounts:
  assumes "released as d d'" "\<And>u. u \<in> set (units d) \<Longrightarrow> unit_ok u"
    and "\<And>a. a \<in> set as \<Longrightarrow> 0 < a_quantity a \<and> a_quantity a \<le> max_int4"
  shows "reserved_of d' i = reserved_of d i - drawn as i \<and> quantity_of d' i = quantity_of d i"
  using assms
proof (induction rule: released.induct)
  case (released_none d)
  then show ?case by simp
next
  case (released_one a d u u' v as d')
  have q: "0 < a_quantity a" "in64 (a_quantity a)" using released_one.prems(2) [of a] by (auto intro: int4_in64)
  have u: "unit_ok u" "u_id u = a_unit a"
    using released_one.prems(1) find_row_set [OF released_one.hyps(1)] find_row_key [OF released_one.hyps(1)] by auto
  have "u_reserved u' = u_reserved u - a_quantity a" "u_quantity u' = u_quantity u" "u_id u' = u_id u" "unit_ok u'"
    using released_one.hyps(2) q u(1) unit_ok_release [OF u(1) less_imp_le [OF q(1)] q(2) released_one.hyps(2)]
    by (auto simp: ReleaseReservation_exact split: if_splits)
  moreover have "unit_ok x" if "x \<in> set (units (put_unit v u' d))" for x
    using that released_one.prems(1) \<open>unit_ok u'\<close> set_upsert_subset [of u_id "u'\<lparr>u_version := v\<rparr>" "units d"] by auto
  then have "reserved_of d' i = reserved_of (put_unit v u' d) i - drawn as i \<and>
      quantity_of d' i = quantity_of (put_unit v u' d) i"
    using released_one.IH released_one.prems(2) by simp
  moreover have "reserved_of d (a_unit a) = u_reserved u" "quantity_of d (a_unit a) = u_quantity u"
    using released_one.hyps(1) by (simp_all add: reserved_of_def quantity_of_def)
  ultimately show ?case using u(2) by auto
qed

lemma picked_amounts:
  assumes "picked as d d'" "\<And>u. u \<in> set (units d) \<Longrightarrow> unit_ok u"
    and "\<And>a. a \<in> set as \<Longrightarrow> 0 < a_quantity a \<and> a_quantity a \<le> max_int4"
  shows "reserved_of d' i = reserved_of d i - drawn as i \<and> quantity_of d' i = quantity_of d i - drawn as i"
  using assms
proof (induction rule: picked.induct)
  case (picked_none d)
  then show ?case by simp
next
  case (picked_one a d u u' b b' v' v as d')
  have q: "0 < a_quantity a" "in64 (a_quantity a)" using picked_one.prems(2) [of a] by (auto intro: int4_in64)
  have u: "unit_ok u" "u_id u = a_unit a"
    using picked_one.prems(1) find_row_set [OF picked_one.hyps(1)] find_row_key [OF picked_one.hyps(1)] by auto
  have "u_reserved u' = u_reserved u - a_quantity a" "u_quantity u' = u_quantity u - a_quantity a"
    "u_id u' = u_id u" "unit_ok u'"
    using picked_one.hyps(2) q u(1) unit_ok_pick [OF u(1) less_imp_le [OF q(1)] q(2) picked_one.hyps(2)]
    by (auto simp: Pick_exact split: if_splits)
  moreover have "unit_ok x" if "x \<in> set (units (put_bin v' b' (put_unit v u' d)))" for x
    using that picked_one.prems(1) \<open>unit_ok u'\<close> set_upsert_subset [of u_id "u'\<lparr>u_version := v\<rparr>" "units d"] by auto
  then have "reserved_of d' i = reserved_of (put_bin v' b' (put_unit v u' d)) i - drawn as i \<and>
      quantity_of d' i = quantity_of (put_bin v' b' (put_unit v u' d)) i - drawn as i"
    using picked_one.IH picked_one.prems(2) by simp
  moreover have "reserved_of d (a_unit a) = u_reserved u" "quantity_of d (a_unit a) = u_quantity u"
    using picked_one.hyps(1) by (simp_all add: reserved_of_def quantity_of_def)
  ultimately show ?case using u(2) by auto
qed

end
