(* ===== verification/Allocation.thy ===== *)
theory Allocation
  imports UseCases Effects
begin

text \<open>
  The pure parts of two use cases: how ReserveStock draws a quantity from the units of a SKU, and
  which units RunCycleCount gives up for lost; and what writing their results back does to the ledger.
\<close>

section \<open>Drawing from units\<close>

lemma usable_sum_wrap: "usable_sum us = wrap64 (total Usable us)"
proof -
  have "foldl (\<lambda>t u. wrap64 (t + Usable u)) a us = wrap64 (a + total Usable us)" if "in64 a" for a
    using that
  proof (induction us arbitrary: a)
    case (Cons u us)
    then show ?case by (simp add: wrap64_add add.assoc)
  qed simp
  then show ?thesis by (simp add: usable_sum_def q_Add_def in64_def)
qed

text \<open>An allocation and the unit it was drawn from, as it was before and as it is to be saved.\<close>

definition drawn_from :: "stock_unit list \<Rightarrow> allocation \<Rightarrow> stock_unit \<Rightarrow> bool" where
  "drawn_from us a t \<longleftrightarrow> a_unit a = u_id t \<and> a_bin a = u_bin t \<and> 0 < a_quantity a \<and> in64 (a_quantity a) \<and>
     (\<exists>u \<in> set us. Reserve u (a_quantity a) = Inr t)"

lemma drawn_from_Cons: "drawn_from us a t \<Longrightarrow> drawn_from (u # us) a t"
  by (auto simp: drawn_from_def)

lemma draw_total:
  assumes "\<And>u. u \<in> set us \<Longrightarrow> unit_ok u" "0 \<le> q" "in64 q"
  shows "\<exists>as ts. draw us q = Inr (as, ts, max 0 (q - total Usable us)) \<and>
    total a_quantity as = min q (total Usable us) \<and> list_all2 (drawn_from us) as ts \<and>
    set (map u_id ts) \<subseteq> set (map u_id us) \<and> (distinct (map u_id us) \<longrightarrow> distinct (map u_id ts))"
  using assms
proof (induction us arbitrary: q)
  case Nil
  then show ?case by simp
next
  case (Cons u us)
  have nonneg: "0 \<le> total Usable us" by (auto intro: total_nonneg Usable_nonneg)
  show ?case
  proof (cases "q = 0 \<or> Usable u = 0")
    case True
    show ?thesis
    proof (cases "q = 0")
      case True
      then show ?thesis using nonneg Usable_nonneg [of u] by simp
    next
      case False
      with True have "Usable u = 0" by simp
      obtain as ts where IH: "draw us q = Inr (as, ts, max 0 (q - total Usable us))"
        "total a_quantity as = min q (total Usable us)" "list_all2 (drawn_from us) as ts"
        "set (map u_id ts) \<subseteq> set (map u_id us)" "distinct (map u_id us) \<longrightarrow> distinct (map u_id ts)"
        using Cons.IH [of q] Cons.prems by auto
      have "list_all2 (drawn_from (u # us)) as ts"
        using IH(3) by (rule list_all2_mono) (rule drawn_from_Cons)
      moreover have "set (map u_id ts) \<subseteq> set (map u_id (u # us))"
        using IH(4) by (simp add: subset_insertI2)
      ultimately show ?thesis using IH(1,2,5) False \<open>Usable u = 0\<close> by simp
    qed
  next
    case False
    define take where "take = min q (Usable u)"
    have take: "0 < take" "take \<le> q" "take \<le> Usable u"
      using False Cons.prems(2) Usable_nonneg [of u] by (auto simp: take_def)
    have in64: "in64 take" "in64 (q - take)" using take Cons.prems(3) by (auto simp: in64_def)
    define u' where "u' = u\<lparr>u_reserved := u_reserved u + take, u_state := StateReserved\<rparr>"
    have res: "Reserve u take = Inr u'"
      unfolding u'_def by (rule Reserve_enough) (use Cons.prems(1) take in auto)
    have rest: "or_zero (q_Sub q take) = q - take" using in64(2) take(2) by (simp add: q_Sub_exact)
    obtain as ts where IH: "draw us (q - take) = Inr (as, ts, max 0 (q - take - total Usable us))"
      "total a_quantity as = min (q - take) (total Usable us)" "list_all2 (drawn_from us) as ts"
      "set (map u_id ts) \<subseteq> set (map u_id us)" "distinct (map u_id us) \<longrightarrow> distinct (map u_id ts)"
      using Cons.IH [of "q - take"] Cons.prems take in64 by auto
    have eq: "draw (u # us) q =
        Inr (\<lparr>a_unit = u_id u', a_bin = u_bin u', a_quantity = take\<rparr> # as, u' # ts,
             max 0 (q - take - total Usable us))"
      using False res rest IH(1) by (auto simp: Let_def GreaterThan_def take_def min_def split: if_splits)
    have "list_all2 (drawn_from (u # us))
        (\<lparr>a_unit = u_id u', a_bin = u_bin u', a_quantity = take\<rparr> # as) (u' # ts)"
      using IH(3) res take(1) in64(1) by (auto simp: drawn_from_def intro: list_all2_mono drawn_from_Cons)
    moreover have arith: "max 0 (q - take - total Usable us) = max 0 (q - total Usable (u # us))"
      "take + min (q - take) (total Usable us) = min q (total Usable (u # us))"
      using nonneg by (auto simp: take_def min_def)
    moreover have "set (map u_id (u' # ts)) \<subseteq> set (map u_id (u # us))"
      using IH(4) by (simp add: subset_insertI2 u'_def)
    moreover have "distinct (map u_id (u # us)) \<longrightarrow> distinct (map u_id (u' # ts))"
      using IH(5) subsetD [OF IH(4), of "u_id u"] by (simp add: u'_def) blast
    moreover have "total a_quantity (\<lparr>a_unit = u_id u', a_bin = u_bin u', a_quantity = take\<rparr> # as)
        = min q (total Usable (u # us))"
      using IH(2) arith(2) by simp
    ultimately show ?thesis using eq unfolding arith(1) by blast
  qed
qed

lemma allocate_spec:
  assumes "allocate us q = Inr (as, ts)" "\<And>u. u \<in> set us \<Longrightarrow> unit_ok u" "0 < q" "in64 q"
  shows "total a_quantity as = q" "list_all2 (drawn_from us) as ts" "as \<noteq> []"
    "distinct (map u_id us) \<Longrightarrow> distinct (map u_id ts)"
proof -
  obtain as' ts' where d: "draw us q = Inr (as', ts', max 0 (q - total Usable us))"
    "total a_quantity as' = min q (total Usable us)" "list_all2 (drawn_from us) as' ts'"
    "distinct (map u_id us) \<longrightarrow> distinct (map u_id ts')"
    using draw_total [OF assms(2), of us q] assms(3,4) by auto
  have eq: "as = as'" "ts = ts'" "q \<le> total Usable us"
    using assms(1) d(1) by (auto simp: allocate_def split: if_splits)
  then show "total a_quantity as = q" "list_all2 (drawn_from us) as ts"
    "distinct (map u_id us) \<Longrightarrow> distinct (map u_id ts)" using d by auto
  then show "as \<noteq> []" using assms(3) by auto
qed

lemma allocate_iff:
  assumes "\<And>u. u \<in> set us \<Longrightarrow> unit_ok u" "0 < q" "in64 q" "in64 (total Usable us)"
  shows "allocate us q =
    (if total Usable us < q then Inl (UsecaseErr ErrInsufficientUsable)
     else case draw us q of Inl e \<Rightarrow> Inl e | Inr (as, ts, left) \<Rightarrow> Inr (as, ts))"
proof -
  obtain as ts where "draw us q = Inr (as, ts, max 0 (q - total Usable us))"
    using draw_total [OF assms(1), of us q] assms(2,3) by auto
  then show ?thesis
    using assms(4) by (auto simp: allocate_def usable_sum_wrap GreaterThan_def)
qed

text \<open>\<open>total Usable\<close> stays in range as long as the table has fewer than \<open>2 ^ 32\<close> rows.\<close>

lemma total_Usable_in64:
  assumes "\<And>u. u \<in> set us \<Longrightarrow> unit_ok u" "length us \<le> 2 ^ 32"
  shows "in64 (total Usable us)"
proof -
  have "total Usable us \<le> int (length us) * max_int4"
    using assms(1)
  proof (induction us)
    case (Cons u us)
    have "Usable u \<le> max_int4" using Usable_bounds [of u] Cons.prems [of u] by (auto simp: unit_ok_def)
    with Cons show ?case by (simp add: algebra_simps)
  qed simp
  also have "\<dots> \<le> 2 ^ 32 * max_int4"
    using assms(2) by (intro mult_right_mono) (simp_all add: max_int4_def)
  finally show ?thesis
    using total_nonneg [of us Usable] by (simp add: Usable_nonneg in64_def max_int4_def)
qed

section \<open>Saving the touched units\<close>

lemma ledger_mono: "ledger C d \<Longrightarrow> (\<And>i. C' i \<le> C i) \<Longrightarrow> ledger C' d"
  by (auto simp: ledger_def intro: order_trans)

definition touches :: "inventory \<Rightarrow> allocation \<Rightarrow> stock_unit \<Rightarrow> bool" where
  "touches d a t \<longleftrightarrow> a_unit a = u_id t \<and> 0 < a_quantity a \<and>
     (\<exists>u. find_row u_id (u_id t) (units d) = Some u \<and> Reserve u (a_quantity a) = Inr t)"

lemma touches_put_unit: "touches d a t \<Longrightarrow> u_id t \<noteq> u_id u \<Longrightarrow> touches (put_unit v u d) a t"
  by (simp add: touches_def find_upsert)

lemma rewritten_touched:
  assumes "rewritten ts d d'" "schema_ok d" "ledger C d" "distinct (map u_id ts)"
    and "list_all2 (touches d) as ts"
  shows "ledger (\<lambda>i. C i + drawn as i) d'"
  using assms
proof (induction arbitrary: as C rule: rewritten.induct)
  case (rewritten_none d)
  then show ?case by simp
next
  case (rewritten_one v t d ts d')
  obtain a as' u where as: "as = a # as'" "a_unit a = u_id t" "0 < a_quantity a"
      "find_row u_id (u_id t) (units d) = Some u" "Reserve u (a_quantity a) = Inr t"
    using rewritten_one.prems(4) by (auto simp: list_all2_Cons2 touches_def)
  have u: "unit_ok u" "state_ok u" "C (u_id u) \<le> u_reserved u" "u_id u = u_id t"
    using ledger_unit [OF rewritten_one.prems(2) find_row_set [OF as(4)]] find_row_key [OF as(4)] by auto
  have t: "unit_ok t" "u_reserved t = u_reserved u + a_quantity a"
    using Reserve_ok(1,2) [OF u(1) as(5) less_imp_le [OF as(3)]] by simp_all
  have frame: "u_bin t = u_bin u" "u_quantity t = u_quantity u"
    using unit_frame(1) [OF as(5)] by simp_all
  let ?C = "\<lambda>i. C i + (if i = u_id t then a_quantity a else 0)"
  have "ledger ?C (put_unit v t d)"
    by (rule ledger_put_unit [OF rewritten_one.prems(1,2), where ?u0.0 = u])
      (use u(3,4) as(4) t frame state_ok_reserve [OF u(1) as(3,5)] in simp_all)
  moreover have "touches (put_unit v t d) b t'" if "t' \<in> set ts" "touches d b t'" for b t'
  proof (rule touches_put_unit [OF that(2)])
    have "u_id t' \<in> u_id ` set ts" using that(1) by (rule imageI)
    moreover have "u_id t \<notin> u_id ` set ts" using rewritten_one.prems(3) by simp
    ultimately show "u_id t' \<noteq> u_id t" by metis
  qed
  then have "list_all2 (touches (put_unit v t d)) as' ts"
    using rewritten_one.prems(4) by (auto simp: as(1) intro: list.rel_mono_strong)
  ultimately have "ledger (\<lambda>i. ?C i + drawn as' i) d'"
    using rewritten_one.prems(3) by (intro rewritten_one.IH rewritten_one.hyps(1)) auto
  then show ?case
    by (rule ledger_mono) (auto simp: as(1,2))
qed

text \<open>A loop that fails half way has saved the first of the touched units, which only reserves more.\<close>

lemma rewritten_touched_some:
  assumes "rewritten ts d d'" "schema_ok d" "ledger C d" "distinct (map u_id ts)"
    and "\<And>t. t \<in> set ts \<Longrightarrow> \<exists>a. touches d a t"
  shows "ledger C d'"
proof -
  define as where "as = map (\<lambda>t. SOME a. touches d a t) ts"
  have "touches d (SOME a. touches d a t) t" if "t \<in> set ts" for t
    using someI_ex [OF assms(5) [OF that]] .
  then have as: "list_all2 (touches d) as ts"
    by (auto simp: as_def list_all2_conv_all_nth)
  have "0 \<le> a_quantity a" if "a \<in> set as" for a
    using as that by (fastforce simp: list_all2_conv_all_nth in_set_conv_nth touches_def)
  then have nonneg: "0 \<le> drawn as i" for i by (rule drawn_nonneg)
  show ?thesis
    by (rule ledger_mono [OF rewritten_touched [OF assms(1-4) as]]) (simp add: nonneg)
qed

section \<open>Units given up for lost\<close>

text \<open>The units the loop of \<open>markShortfallUnlocated\<close> reaches.\<close>

fun lost_units :: "stock_unit list \<Rightarrow> quantity \<Rightarrow> stock_unit list" where
  "lost_units [] n = []"
| "lost_units (u # us) n =
     (if n = 0 then [] else u # lost_units us (n - min n (u_quantity u)))"

lemma lost_units_set: "set (lost_units us n) \<subseteq> set us"
  by (induction us n rule: lost_units.induct) auto

lemma lost_units_distinct: "distinct (map u_id us) \<Longrightarrow> distinct (map u_id (lost_units us n))"
  by (induction us n rule: lost_units.induct) (use lost_units_set in \<open>fastforce\<close>)+

lemma lost_units_cover:
  assumes "\<And>u. u \<in> set us \<Longrightarrow> 0 \<le> u_quantity u" "0 \<le> n" "n \<le> total u_quantity us"
  shows "n \<le> total u_quantity (lost_units us n)"
  using assms
proof (induction us n rule: lost_units.induct)
  case (2 u us n)
  have u: "0 \<le> u_quantity u" "\<And>x. x \<in> set us \<Longrightarrow> 0 \<le> u_quantity x" using "2.prems"(1) by simp_all
  show ?case
  proof (cases "n = 0")
    case True
    then show ?thesis by simp
  next
    case False
    have "n - min n (u_quantity u) \<le> total u_quantity (lost_units us (n - min n (u_quantity u)))"
      using "2.IH" [OF False u(2)] "2.prems"(2,3) u(1) total_nonneg [of us u_quantity] u(2) by simp
    with False u(1) show ?thesis by simp
  qed
qed simp

lemma rewritten_lost:
  assumes "rewritten (map MarkUnlocated us) d d'" "schema_ok d" "ledger C d" "distinct (map u_id us)"
    and "\<And>u. u \<in> set us \<Longrightarrow> find_row u_id (u_id u) (units d) = Some u \<and> u_state u \<noteq> StateRemoved"
  shows "ledger C d'"
  using assms
proof (induction us arbitrary: d)
  case (Cons u us)
  from Cons.prems(1) obtain v where w: "schema_ok (put_unit v (MarkUnlocated u) d)"
      "rewritten (map MarkUnlocated us) (put_unit v (MarkUnlocated u) d) d'"
    by (auto elim: rewritten_ConsE)
  have f: "find_row u_id (u_id u) (units d) = Some u" "u_state u \<noteq> StateRemoved" using Cons.prems(5) by auto
  have u: "unit_ok u" "state_ok u" "C (u_id u) \<le> u_reserved u"
    using ledger_unit [OF Cons.prems(3) find_row_set [OF f(1)]] by auto
  have id: "u_id (MarkUnlocated u) = u_id u" "u_bin (MarkUnlocated u) = u_bin u"
    "u_quantity (MarkUnlocated u) = u_quantity u" "u_reserved (MarkUnlocated u) = u_reserved u"
    by (simp_all add: MarkUnlocated_def)
  have "ledger C (put_unit v (MarkUnlocated u) d)"
    by (rule ledger_put_unit [OF Cons.prems(2,3), where ?u0.0 = u]) (use f u in \<open>auto simp: id state_ok_mark\<close>)
  then show ?case
    using Cons.prems(4,5) by (intro Cons.IH [OF w(2,1)]) (auto simp: find_upsert id image_iff)
qed simp

lemma locatableUnits_eq:
  "locatableUnits us = (wrap64 (total u_quantity (filter locatable us)), filter locatable us)"
proof -
  have "foldl (\<lambda>(s, found) u. if locatable u then (q_Add s (u_quantity u), found @ [u]) else (s, found)) (s, found) us
      = (wrap64 (s + total u_quantity (filter locatable us)), found @ filter locatable us)" if "in64 s" for s found
    using that
  proof (induction us arbitrary: s found)
    case (Cons u us)
    then show ?case by (auto simp: q_Add_def wrap64_add add.assoc)
  qed simp
  then show ?thesis by (simp add: locatableUnits_def in64_def)
qed

end
