(* ===== verification/UseCaseRules.thy ===== *)
theory UseCaseRules
  imports Allocation
begin

text \<open>
  The contract of the ports as rules that execute a use case forward: each rule takes the first call
  of a program off it and leaves the rest to be shown from the snapshot the call ends in.
\<close>

lemma andthen_ret_right: "andthen m ret = m"
  by (auto simp: fun_eq_iff andthen_def ret_def split: prod.split sum.split)

lemma triple_tail: "triple P (andthen m ret) Q E \<Longrightarrow> triple P m Q E"
  by (simp add: andthen_ret_right)

lemma triple_conjR: "(c \<Longrightarrow> triple P m Q E) \<Longrightarrow> triple (\<lambda>w. P w \<and> c) m Q E"
  by (auto simp: triple_def)

lemma andthen_assoc: "andthen (andthen m f) g = andthen m (\<lambda>x. andthen (f x) g)"
  by (auto simp: fun_eq_iff andthen_def split: prod.split sum.split)

lemma triple_step:
  assumes "triple P m R E'" "\<And>x. triple (R x) (f x) Q E" "\<And>e w. E' e w \<Longrightarrow> E e w"
  shows "triple P (andthen m f) Q E"
  by (rule triple_andthen [OF triple_weaken [OF assms(1)] assms(2)]) (auto intro: assms(3))

lemma triple_Inr:
  assumes "\<And>w. P w \<Longrightarrow> \<exists>w'. m w = (Inr x, w') \<and> P' w'" "triple P' (f x) Q E"
  shows "triple P (andthen m f) Q E"
proof (rule triple_andthen)
  show "triple P m (\<lambda>y w. y = x \<and> P' w) E"
    by (rule tripleI) (use assms(1) in force)+
  show "triple (\<lambda>w. y = x \<and> P' w) (f y) Q E" for y
    by (rule triple_conj) (simp add: assms(2))
qed

named_theorems step \<open>rules that take the first call off a program\<close>

context inventory_ports
begin

lemma fail_tx: "failed s w \<Longrightarrow> intx s \<Longrightarrow> \<exists>s'. view w = Some s' \<and> intx s'"
  by (auto simp: failed_iff)

lemma fail_out: "failed s w \<Longrightarrow> \<not> intx s \<Longrightarrow> \<exists>s'. view w = Some s' \<and> \<not> intx s' \<and> inv s' = inv s"
  by (auto simp: failed_iff)

lemma step_stock_find [step]:
  assumes "triple (\<lambda>w. view w = Some s) (f (find_row u_id i (units (inv s)))) Q E"
    and "\<And>e w. view w = Some s \<Longrightarrow> E e w"
  shows "triple (\<lambda>w. view w = Some s) (andthen (sr_find (p_stock P) i) f) Q E"
  by (rule triple_step [OF stock_find]) (auto intro!: triple_conjR assms)

lemma step_stock_save [step]:
  assumes "\<And>v. schema_ok (put_unit v u (inv s)) \<Longrightarrow>
      triple (\<lambda>w. view w = Some (s\<lparr>inv := put_unit v u (inv s)\<rparr>)) (f ()) Q E"
    and "\<And>e w. failed s w \<Longrightarrow> E e w"
  shows "triple (\<lambda>w. view w = Some s) (andthen (sr_save (p_stock P) u) f) Q E"
proof (rule triple_step [OF stock_save])
  fix x
  have "triple (\<lambda>w. view w = Some (s\<lparr>inv := put_unit v u (inv s)\<rparr>)) (f ()) Q E" for v
  proof (cases "schema_ok (put_unit v u (inv s))")
    case True then show ?thesis by (rule assms(1))
  next
    case False then show ?thesis by (auto simp: triple_def dest: view_schema)
  qed
  then show "triple (\<lambda>w. \<exists>v. view w = Some (s\<lparr>inv := put_unit v u (inv s)\<rparr>)) (f x) Q E"
    by (auto intro: triple_ex)
qed (rule assms(2))

lemma step_stock_find_sku [step]:
  assumes "\<And>xs. mset xs = mset (filter (\<lambda>u. u_sku u = k) (units (inv s))) \<Longrightarrow>
      triple (\<lambda>w. view w = Some s) (f xs) Q E"
    and "\<And>e w. view w = Some s \<Longrightarrow> E e w"
  shows "triple (\<lambda>w. view w = Some s) (andthen (sr_find_sku (p_stock P) k) f) Q E"
  by (rule triple_step [OF stock_find_sku]) (auto intro!: triple_conjR assms)

lemma step_stock_find_bin [step]:
  assumes "\<And>xs. mset xs = mset (filter (\<lambda>u. u_bin u = b) (units (inv s))) \<Longrightarrow>
      triple (\<lambda>w. view w = Some s) (f xs) Q E"
    and "\<And>e w. view w = Some s \<Longrightarrow> E e w"
  shows "triple (\<lambda>w. view w = Some s) (andthen (sr_find_bin (p_stock P) b) f) Q E"
  by (rule triple_step [OF stock_find_bin]) (auto intro!: triple_conjR assms)

lemma step_stock_next [step]:
  assumes "\<And>i. i \<notin> u_id ` set (units (inv s)) \<Longrightarrow> triple (\<lambda>w. view w = Some s) (f i) Q E"
    and "\<And>e w. view w = Some s \<Longrightarrow> E e w"
  shows "triple (\<lambda>w. view w = Some s) (andthen (sr_next (p_stock P)) f) Q E"
  by (rule triple_step [OF stock_next]) (auto intro!: triple_conjR assms)

lemma step_loc_find [step]:
  assumes "triple (\<lambda>w. view w = Some s) (f (find_row b_id i (bins (inv s)))) Q E"
    and "\<And>e w. view w = Some s \<Longrightarrow> E e w"
  shows "triple (\<lambda>w. view w = Some s) (andthen (lr_find (p_locations P) i) f) Q E"
  by (rule triple_step [OF loc_find]) (auto intro!: triple_conjR assms)

lemma step_loc_save [step]:
  assumes "\<And>v. schema_ok (put_bin v b (inv s)) \<Longrightarrow>
      triple (\<lambda>w. view w = Some (s\<lparr>inv := put_bin v b (inv s)\<rparr>)) (f ()) Q E"
    and "\<And>e w. failed s w \<Longrightarrow> E e w"
  shows "triple (\<lambda>w. view w = Some s) (andthen (lr_save (p_locations P) b) f) Q E"
proof (rule triple_step [OF loc_save])
  fix x
  have "triple (\<lambda>w. view w = Some (s\<lparr>inv := put_bin v b (inv s)\<rparr>)) (f ()) Q E" for v
  proof (cases "schema_ok (put_bin v b (inv s))")
    case True then show ?thesis by (rule assms(1))
  next
    case False then show ?thesis by (auto simp: triple_def dest: view_schema)
  qed
  then show "triple (\<lambda>w. \<exists>v. view w = Some (s\<lparr>inv := put_bin v b (inv s)\<rparr>)) (f x) Q E"
    by (auto intro: triple_ex)
qed (rule assms(2))

lemma step_res_save [step]:
  assumes "\<And>v. schema_ok (put_res v r (inv s)) \<Longrightarrow>
      triple (\<lambda>w. view w = Some (s\<lparr>inv := put_res v r (inv s)\<rparr>)) (f ()) Q E"
    and "\<And>e w. failed s w \<Longrightarrow> E e w"
  shows "triple (\<lambda>w. view w = Some s) (andthen (rr_save (p_reservations P) r) f) Q E"
proof (rule triple_step [OF res_save])
  fix x
  have "triple (\<lambda>w. view w = Some (s\<lparr>inv := put_res v r (inv s)\<rparr>)) (f ()) Q E" for v
  proof (cases "schema_ok (put_res v r (inv s))")
    case True then show ?thesis by (rule assms(1))
  next
    case False then show ?thesis by (auto simp: triple_def dest: view_schema)
  qed
  then show "triple (\<lambda>w. \<exists>v. view w = Some (s\<lparr>inv := put_res v r (inv s)\<rparr>)) (f x) Q E"
    by (auto intro: triple_ex)
qed (rule assms(2))

lemma step_res_find [step]:
  assumes "\<And>x. rel_option (loads (inv s)) (find_row rr_id i (ress (inv s))) x \<Longrightarrow>
      triple (\<lambda>w. view w = Some s) (f x) Q E"
    and "\<And>e w. view w = Some s \<Longrightarrow> E e w"
  shows "triple (\<lambda>w. view w = Some s) (andthen (rr_find (p_reservations P) i) f) Q E"
  by (rule triple_step [OF res_find]) (auto intro!: triple_conjR assms)

lemma step_res_find_demand [step]:
  assumes "\<And>xs rows. mset rows = mset (filter (\<lambda>r. rr_demandRef r = i) (ress (inv s))) \<Longrightarrow>
      list_all2 (loads (inv s)) rows xs \<Longrightarrow> triple (\<lambda>w. view w = Some s) (f xs) Q E"
    and "\<And>e w. view w = Some s \<Longrightarrow> E e w"
  shows "triple (\<lambda>w. view w = Some s) (andthen (rr_find_demand (p_reservations P) i) f) Q E"
  by (rule triple_step [OF res_find_demand])
    (auto simp del: mset_filter intro!: triple_conjR assms(2), erule (1) assms(1))

lemma step_res_next [step]:
  assumes "\<And>i. i \<notin> rr_id ` set (ress (inv s)) \<Longrightarrow> triple (\<lambda>w. view w = Some s) (f i) Q E"
    and "\<And>e w. view w = Some s \<Longrightarrow> E e w"
  shows "triple (\<lambda>w. view w = Some s) (andthen (rr_next (p_reservations P)) f) Q E"
  by (rule triple_step [OF res_next]) (auto intro!: triple_conjR assms)

lemma step_publish [step]:
  assumes "\<And>ms. wire e (ress (inv s)) ms \<Longrightarrow>
      triple (\<lambda>w. view w = Some (s\<lparr>log := log s @ ms\<rparr>)) (f ()) Q E"
    and "\<And>e w. failed s w \<Longrightarrow> E e w"
  shows "triple (\<lambda>w. view w = Some s) (andthen (p_publish P e) f) Q E"
  by (rule triple_step [OF publish]) (auto intro!: triple_ex triple_conj assms)

lemma step_now [step]:
  assumes "\<And>t. triple (\<lambda>w. view w = Some s) (f t) Q E"
  shows "triple (\<lambda>w. view w = Some s) (andthen (now P) f) Q E"
proof (rule triple_step [where R = "\<lambda>_ w. view w = Some s" and E' = "\<lambda>_ _. False"])
  show "triple (\<lambda>w. view w = Some s) (now P) (\<lambda>_ w. view w = Some s) (\<lambda>_ _. False)"
    using clock by (fastforce simp: triple_def now_def split: prod.split)
qed (use assms in auto)

lemma step_class_find:
  assumes "p_classifications P = Some cr"
    and "triple (\<lambda>w. view w = Some s) (f (find_row c_sku k (classes (inv s)))) Q E"
    and "\<And>e w. view w = Some s \<Longrightarrow> E e w"
  shows "triple (\<lambda>w. view w = Some s) (andthen (cr_find cr k) f) Q E"
  by (rule triple_step [OF class_find [OF assms(1)]]) (auto intro!: triple_conjR assms)

lemma step_class_save:
  assumes "p_classifications P = Some cr" "c_handlingTags c \<subseteq> set all_tags"
    and "triple (\<lambda>w. view w = Some (s\<lparr>inv := put_class c (inv s)\<rparr>)) (f ()) Q E"
    and "\<And>e w. failed s w \<Longrightarrow> E e w"
  shows "triple (\<lambda>w. view w = Some s) (andthen (cr_save cr c) f) Q E"
  by (rule triple_step [OF class_save [OF assms(1,2)]]) (auto intro: assms)

lemma step_lookup:
  assumes "p_lookup P = Some g"
    and "\<And>a. slot b a \<Longrightarrow> triple (\<lambda>w. view w = Some s) (f a) Q E"
    and "\<And>w. view w = Some s \<Longrightarrow> E e w"
  shows "triple (\<lambda>w. view w = Some s) (andthen (maperr (\<lambda>_. e) (g b)) f) Q E"
proof (rule triple_step)
  show "triple (\<lambda>w. view w = Some s) (maperr (\<lambda>_. e) (g b)) (\<lambda>x w. view w = Some s \<and> slot b x)
      (\<lambda>x w. x = e \<and> view w = Some s)"
    by (rule triple_maperr [OF triple_weaken [OF lookup [OF assms(1)]]]) auto
qed (auto intro!: triple_conjR assms)

lemma step_lift [step]:
  assumes "\<And>x. r = Inr x \<Longrightarrow> triple (\<lambda>w. view w = Some s) (f x) Q E"
    and "\<And>e w. r = Inl e \<Longrightarrow> view w = Some s \<Longrightarrow> E e w"
  shows "triple (\<lambda>w. view w = Some s) (andthen (lift r) f) Q E"
  using assms by (cases r) (auto intro: triple_throw)

lemma step_metric [step]:
  assumes "triple (\<lambda>w. view w = Some s) (f ()) Q E"
  shows "triple (\<lambda>w. view w = Some s) (andthen (created_metric P) f) Q E"
    and "triple (\<lambda>w. view w = Some s) (andthen (revoked_metric P) f) Q E"
  by (rule triple_Inr [where P' = "\<lambda>w. view w = Some s" and x = "()"],
      use metrics in \<open>auto simp: created_metric_def revoked_metric_def assms split: option.split\<close>)+

text \<open>A transaction of its own: all of it or nothing.\<close>

lemma step_atomically:
  assumes "\<not> intx s"
    and "triple (\<lambda>w. view w = Some (s\<lparr>intx := True\<rparr>)) f
      (\<lambda>a w. \<exists>s'. R a s' \<and> intx s' \<and> view w = Some s') (\<lambda>_ w. \<exists>s'. view w = Some s' \<and> intx s')"
    and "\<And>a s'. R a s' \<Longrightarrow> intx s' \<Longrightarrow> triple (\<lambda>w. view w = Some (s'\<lparr>intx := False\<rparr>)) (k a) Q E"
    and "\<And>e w. view w = Some s \<Longrightarrow> E e w"
  shows "triple (\<lambda>w. view w = Some s) (andthen (atomically P f) k) Q E"
proof -
  have "triple (\<lambda>w. view w = Some s) (atomically P f)
      (\<lambda>a w. \<exists>s'. R a s' \<and> intx s' \<and> view w = Some (s'\<lparr>intx := False\<rparr>)) (\<lambda>_ w. view w = Some s)"
    using commits [OF assms(1,2)] by (simp add: atomically_def wired)
  then show ?thesis
    by (rule triple_step) (auto intro!: triple_ex triple_conj assms)
qed

end

end
