(* ===== verification/Contracts.thy ===== *)
theory Contracts
  imports UseCaseRules
begin

text \<open>
  The abstract specification of the use cases: what each of them may do to the tables, as a relation
  between the tables before and after, and the proof that each relation keeps the invariant of the
  inventory. The programs of UseCases are shown to implement these relations in UseCaseProofs.
\<close>

section \<open>StowStock\<close>

definition placement_ok :: "classification \<Rightarrow> slot_attributes \<Rightarrow> bool" where
  "placement_ok c a \<longleftrightarrow> sa_known a \<longrightarrow>
     (IsHazmat c \<longrightarrow> sa_hazmat a) \<and>
     (IsTemperatureSensitive c \<longrightarrow> sa_temperatureClass a = c_temperatureClass c)"

text \<open>The facility gave an answer that the handling of the SKU allows, if it needed one.\<close>

definition placed :: "(bin_id \<Rightarrow> slot_attributes \<Rightarrow> bool) \<Rightarrow> inventory \<Rightarrow> sku \<Rightarrow> bin_id \<Rightarrow> bool" where
  "placed slot d sk b \<longleftrightarrow>
     (case find_row c_sku sk (classes d) of
        None \<Rightarrow> True
      | Some c \<Rightarrow> IsHazmat c \<or> IsTemperatureSensitive c \<longrightarrow> (\<exists>a. slot b a \<and> placement_ok c a))"

text \<open>No other SKU in the bin has a hazard class that must not be stored with this one's.\<close>

definition compatible_with :: "inventory \<Rightarrow> dot_class \<Rightarrow> sku \<Rightarrow> bool" where
  "compatible_with d dot k \<longleftrightarrow>
     (case find_row c_sku k (classes d) of
        None \<Rightarrow> True | Some c \<Rightarrow> \<not> Incompatible dot (c_dotHazardClass c))"

definition segregated :: "inventory \<Rightarrow> sku \<Rightarrow> bin_id \<Rightarrow> bool" where
  "segregated d sk b \<longleftrightarrow>
     (case find_row c_sku sk (classes d) of
        None \<Rightarrow> True
      | Some c \<Rightarrow> \<forall>u \<in> set (units d). u_bin u = b \<and> u_sku u \<noteq> sk \<longrightarrow>
          compatible_with d (c_dotHazardClass c) (u_sku u))"

definition stowed :: "sku \<Rightarrow> quantity \<Rightarrow> bin_id \<Rightarrow> inventory \<Rightarrow> stock_unit \<Rightarrow> inventory \<Rightarrow> bool" where
  "stowed sk q b d u d' \<longleftrightarrow>
     (\<exists>bn bn' v v'. find_row b_id b (bins d) = Some bn \<and> u_id u \<notin> u_id ` set (units d) \<and>
        NewStockUnit (u_id u) sk b q = Inr u \<and> Occupy bn q = Inr bn' \<and>
        d' = put_unit v u (put_bin v' bn' d) \<and> schema_ok d')"

lemma claimed_fresh_unit:
  "schema_ok d \<Longrightarrow> i \<notin> u_id ` set (units d) \<Longrightarrow> claimed d i = 0"
  unfolding claimed_def by (rule total_zero) (auto simp: schema_ok_def)

lemma stowed_keeps:
  assumes "sys_inv d" "stowed sk q b d u d'"
  shows "sys_inv d'"
proof -
  have d: "schema_ok d" "ledger (claimed d) d" using assms(1) by (simp_all add: sys_inv_def)
  obtain bn bn' v v' where s: "find_row b_id b (bins d) = Some bn" "u_id u \<notin> u_id ` set (units d)"
      "NewStockUnit (u_id u) sk b q = Inr u" "Occupy bn q = Inr bn'"
      "d' = put_unit v u (put_bin v' bn' d)" "schema_ok d'"
    using assms(2) by (auto simp: stowed_def)
  have u: "u_quantity u = q" "u_reserved u = 0" "u_bin u = b" "0 < q"
    using NewStockUnit_fields [OF s(3)] by (metis stock_unit.select_convs)+
  have "u\<lparr>u_version := v\<rparr> \<in> set (units d')" using upsert_member by (simp add: s(5))
  then have q: "q \<le> max_int4" using s(6) u(1) by (fastforce simp: schema_ok_def)
  have bn: "bin_ok bn" using ledger_bin [OF d(2) find_row_set [OF s(1)]] by simp
  have "in64 (b_occupied bn + q)"
    using bn u(4) q by (auto simp: bin_ok_def in64_def max_int4_def)
  note bn' = Occupy_ok(1,2) [OF bn s(4) this]
  have "ledger (claimed d) d'"
    unfolding s(5)
    by (rule ledger_stow [OF d, where ?b0.0 = bn])
      (use s(1,2) u q bn' Occupy_id [OF s(4)] state_ok_new [OF s(3)] claimed_fresh_unit [OF d(1) s(2)]
        in \<open>simp_all add: unit_ok_def\<close>)
  then show ?thesis using s(5,6) by (simp add: sys_inv_def)
qed

section \<open>Reservations that end\<close>

text \<open>Everything allocated to \<open>r\<close> goes back to usable, and \<open>r\<close> ends in \<open>st\<close>.\<close>

definition returned :: "status \<Rightarrow> reservation \<Rightarrow> inventory \<Rightarrow> inventory \<Rightarrow> bool" where
  "returned st r d d' \<longleftrightarrow>
     (\<exists>row d1 v. find_row rr_id (r_id r) (ress d) = Some row \<and> loads d row r \<and>
        r_status r = StatusActive \<and> released (r_allocations r) d d1 \<and>
        d' = put_res v (r\<lparr>r_status := st\<rparr>) d1 \<and> schema_ok d')"

text \<open>Everything allocated to \<open>r\<close> leaves its units and its bins.\<close>

definition taken :: "reservation \<Rightarrow> inventory \<Rightarrow> inventory \<Rightarrow> bool" where
  "taken r d d' \<longleftrightarrow>
     (\<exists>row d1 v. find_row rr_id (r_id r) (ress d) = Some row \<and> loads d row r \<and>
        r_status r = StatusActive \<and> picked (r_allocations r) d d1 \<and>
        d' = put_res v (r\<lparr>r_status := StatusConfirmed\<rparr>) d1 \<and> schema_ok d')"

lemma claimed_but_same:
  "ress d1 = ress d \<Longrightarrow> allocs d1 = allocs d \<Longrightarrow> claimed_but d1 = claimed_but d"
  by (simp add: claimed_but_def active_def fun_eq_iff)

lemma loads_same: "allocs d1 = allocs d \<Longrightarrow> loads d1 row r = loads d row r"
  by (simp add: loads_def allocs_of_def)

lemma active_row:
  "find_row rr_id rid (ress d) = Some row \<Longrightarrow> active d rid \<longleftrightarrow> rr_status row = StatusActive"
  by (simp add: active_def)

lemma ledger_active:
  assumes "sys_inv d" "find_row rr_id (r_id r) (ress d) = Some row" "loads d row r" "r_status r = StatusActive"
  shows "ledger (\<lambda>i. claimed_but d (r_id r) i + drawn (r_allocations r) i) d"
proof -
  have "active d (r_id r)" using assms(2-4) by (simp add: active_row loads_def)
  then have "claimed d = (\<lambda>i. claimed_but d (r_id r) i + drawn (r_allocations r) i)"
    using claimed_split [OF assms(3)] by (simp add: fun_eq_iff)
  then show ?thesis using assms(1) by (simp add: sys_inv_def)
qed

lemma returned_keeps:
  assumes "sys_inv d" "returned st r d d'" "st \<noteq> StatusActive"
  shows "sys_inv d'"
proof -
  obtain row d1 v where s: "find_row rr_id (r_id r) (ress d) = Some row" "loads d row r"
      "r_status r = StatusActive" "released (r_allocations r) d d1"
      "d' = put_res v (r\<lparr>r_status := st\<rparr>) d1" "schema_ok d'"
    using assms(2) by (auto simp: returned_def)
  have d: "schema_ok d" using assms(1) by (simp add: sys_inv_def)
  note fr = released_frame [OF s(4)]
  have "ledger (claimed_but d (r_id r)) d1"
    by (rule released_ledger [OF s(4) d ledger_active [OF assms(1) s(1-3)]])
      (use loads_bounds [OF s(2) d] in simp)
  then have l1: "ledger (claimed_but d1 (r_id r)) d1" using fr by (simp add: claimed_but_same [of d1 d])
  have "ledger (claimed d') d'"
    unfolding s(5)
    by (rule ledger_resolved [OF released_schema [OF s(4) d], where row = row])
      (use s(1,2) fr l1 assms(3) in \<open>simp_all add: loads_same [of d1 d]\<close>)
  then show ?thesis using s(6) by (simp add: sys_inv_def)
qed

lemma taken_keeps:
  assumes "sys_inv d" "taken r d d'"
  shows "sys_inv d'"
proof -
  obtain row d1 v where s: "find_row rr_id (r_id r) (ress d) = Some row" "loads d row r"
      "r_status r = StatusActive" "picked (r_allocations r) d d1"
      "d' = put_res v (r\<lparr>r_status := StatusConfirmed\<rparr>) d1" "schema_ok d'"
    using assms(2) by (auto simp: taken_def)
  have d: "schema_ok d" using assms(1) by (simp add: sys_inv_def)
  note fr = picked_frame [OF s(4)]
  have "ledger (claimed_but d (r_id r)) d1"
    by (rule picked_ledger [OF s(4) d ledger_active [OF assms(1) s(1-3)]])
      (use loads_bounds [OF s(2) d] in simp)
  then have l1: "ledger (claimed_but d1 (r_id r)) d1" using fr by (simp add: claimed_but_same [of d1 d])
  have "ledger (claimed d') d'"
    unfolding s(5)
    by (rule ledger_resolved [OF picked_schema [OF s(4) d], where row = row])
      (use s(1,2) fr l1 in \<open>simp_all add: loads_same [of d1 d]\<close>)
  then show ?thesis using s(6) by (simp add: sys_inv_def)
qed

text \<open>One reservation that timed out is given back. Lookups do this to every one they come across.\<close>

definition expires :: "inventory \<Rightarrow> inventory \<Rightarrow> bool" where
  "expires d d' \<longleftrightarrow> (\<exists>r t. IsExpired r t \<and> returned StatusExpired r d d')"

lemma expiresI: "IsExpired r t \<Longrightarrow> returned StatusExpired r d d' \<Longrightarrow> expires d d'"
  by (auto simp: expires_def)

lemma expires_keeps: "expires\<^sup>*\<^sup>* d d' \<Longrightarrow> sys_inv d \<Longrightarrow> sys_inv d'"
  by (induction rule: rtranclp_induct) (auto simp: expires_def intro: returned_keeps)

text \<open>What is left of the other reservations: everything but the version and status of a row.\<close>

lemma returned_frame:
  assumes "returned st r d d'" "schema_ok d"
  shows "allocs d' = allocs d" "classes d' = classes d" "bins d' = bins d"
    "\<exists>v. \<forall>i. find_row rr_id i (ress d') = (if i = r_id r
       then map_option (\<lambda>row. row\<lparr>rr_status := st, rr_version := v\<rparr>) (find_row rr_id i (ress d))
       else find_row rr_id i (ress d))"
proof -
  obtain row d1 v where s: "find_row rr_id (r_id r) (ress d) = Some row" "loads d row r"
      "released (r_allocations r) d d1" "d' = put_res v (r\<lparr>r_status := st\<rparr>) d1"
    using assms(1) by (auto simp: returned_def)
  note fr = released_frame [OF s(3)]
  have key: "rr_id row = r_id r" by (rule find_row_key [OF s(1)])
  have f: "find_row rr_id (r_id r) (ress d1) = Some row" "loads d1 row r"
    using s(1,2) fr by (simp_all add: loads_same [of d1 d])
  note res = put_res_resolved [OF released_schema [OF s(3) assms(2)] f]
  show "allocs d' = allocs d" using res(1) fr s(4) by simp
  show "classes d' = classes d" "bins d' = bins d" using fr s(4) by simp_all
  show "\<exists>v. \<forall>i. find_row rr_id i (ress d') = (if i = r_id r
       then map_option (\<lambda>row. row\<lparr>rr_status := st, rr_version := v\<rparr>) (find_row rr_id i (ress d))
       else find_row rr_id i (ress d))"
    unfolding s(4) res(2) using s(1) fr by (intro exI [of _ v]) (simp add: find_upsert key)
qed

section \<open>ReserveStock\<close>

definition reserved_new :: "sku \<Rightarrow> quantity \<Rightarrow> string \<Rightarrow> inventory \<Rightarrow> reservation \<Rightarrow> inventory \<Rightarrow> bool" where
  "reserved_new sk q ref d r d' \<longleftrightarrow>
     (\<exists>us ts d1 v. mset us = mset (filter (\<lambda>u. u_sku u = sk) (units d)) \<and>
        allocate us q = Inr (r_allocations r, ts) \<and> rewritten ts d d1 \<and>
        r_id r \<notin> rr_id ` set (ress d) \<and> r_sku r = sk \<and> r_quantity r = q \<and> r_demandRef r = ref \<and>
        r_status r = StatusActive \<and> r_version r = 1 \<and> d' = put_res v r d1 \<and> schema_ok d')"

text \<open>A reservation that failed after some of the units it would have drawn from were saved.\<close>

definition stranded :: "sku \<Rightarrow> quantity \<Rightarrow> inventory \<Rightarrow> inventory \<Rightarrow> bool" where
  "stranded sk q d d' \<longleftrightarrow>
     (\<exists>us as ts n. mset us = mset (filter (\<lambda>u. u_sku u = sk) (units d)) \<and>
        allocate us q = Inr (as, ts) \<and> rewritten (take n ts) d d')"

lemma allocate_touches:
  assumes "sys_inv d" "mset us = mset (filter (\<lambda>u. u_sku u = sk) (units d))"
    and "allocate us q = Inr (as, ts)" "0 < q" "in64 q"
  shows "list_all2 (touches d) as ts" "distinct (map u_id ts)" "total a_quantity as = q" "as \<noteq> []"
    "distinct (map a_unit as)"
proof -
  have us: "set us \<subseteq> set (units d)" using assms(2) by (metis filter_is_subset mset_eq_setD)
  have dist: "distinct (map u_id (units d))" using assms(1) by (simp add: sys_inv_def schema_ok_def)
  have ok: "unit_ok u" if "u \<in> set us" for u
    using that us assms(1) by (auto simp: sys_inv_def ledger_def)
  have "mset (map u_id us) = mset (map u_id (filter (\<lambda>u. u_sku u = sk) (units d)))"
    using assms(2) by simp
  then have "distinct (map u_id us)"
    using dist by (metis distinct_map_filter mset_eq_imp_distinct_iff)
  then have spec: "total a_quantity as = q" "list_all2 (drawn_from us) as ts" "as \<noteq> []" "distinct (map u_id ts)"
    using allocate_spec [OF assms(3) ok assms(4,5)] by auto
  then show "distinct (map u_id ts)" "total a_quantity as = q" "as \<noteq> []" by simp_all
  have "touches d a t" if t: "drawn_from us a t" for a t
  proof -
    obtain u where u: "u \<in> set us" "Reserve u (a_quantity a) = Inr t" "a_unit a = u_id t" "0 < a_quantity a"
      using t unfolding drawn_from_def by blast
    then have "find_row u_id (u_id t) (units d) = Some u"
      using find_row_distinct [OF dist, of u] us unit_frame(1) [OF u(2)] by auto
    with u show ?thesis by (auto simp: touches_def)
  qed
  with spec(2) show all: "list_all2 (touches d) as ts" by (auto intro: list_all2_mono)
  then have "map a_unit as = map u_id ts"
    by (auto simp: list_all2_conv_all_nth touches_def intro: nth_equalityI)
  then show "distinct (map a_unit as)" using spec(4) by simp
qed

lemma reserved_new_keeps:
  assumes "sys_inv d" "reserved_new sk q ref d r d'" "0 < q" "in64 q"
  shows "sys_inv d'"
proof -
  obtain us ts d1 v where s: "mset us = mset (filter (\<lambda>u. u_sku u = sk) (units d))"
      "allocate us q = Inr (r_allocations r, ts)" "rewritten ts d d1" "r_id r \<notin> rr_id ` set (ress d)"
      "r_quantity r = q" "r_status r = StatusActive" "d' = put_res v r d1" "schema_ok d'"
    using assms(2) by (auto simp: reserved_new_def)
  note al = allocate_touches [OF assms(1) s(1,2) assms(3,4)]
  note fr = rewritten_frame [OF s(3)]
  have d: "schema_ok d" "ledger (claimed d) d" using assms(1) by (simp_all add: sys_inv_def)
  have l1: "ledger (\<lambda>i. claimed d i + drawn (r_allocations r) i) d1"
    by (rule rewritten_touched [OF s(3) d al(2,1)])
  have "claimed d1 = claimed d" using fr by (simp add: claimed_def active_def fun_eq_iff)
  with l1 have "ledger (claimed d') d'"
    unfolding s(7)
    by (intro ledger_new [OF rewritten_schema [OF s(3) d(1)]]) (use s fr al in simp_all)
  then show ?thesis using s(8) by (simp add: sys_inv_def)
qed

lemma stranded_keeps:
  assumes "sys_inv d" "stranded sk q d d'" "0 < q" "in64 q"
  shows "sys_inv d'" "ress d' = ress d" "allocs d' = allocs d"
proof -
  obtain us as ts n where s: "mset us = mset (filter (\<lambda>u. u_sku u = sk) (units d))"
      "allocate us q = Inr (as, ts)" "rewritten (take n ts) d d'"
    using assms(2) by (auto simp: stranded_def)
  note al = allocate_touches [OF assms(1) s(1,2) assms(3,4)]
  note fr = rewritten_frame [OF s(3)]
  show "ress d' = ress d" "allocs d' = allocs d" using fr by simp_all
  have d: "schema_ok d" "ledger (claimed d) d" using assms(1) by (simp_all add: sys_inv_def)
  have dist: "distinct (map u_id (take n ts))" using al(2) by (simp add: take_map [symmetric])
  have "\<exists>a. touches d a t" if "t \<in> set (take n ts)" for t
    using al(1) in_set_takeD [OF that] by (auto simp: list_all2_conv_all_nth in_set_conv_nth)
  then have "ledger (claimed d) d'"
    by (rule rewritten_touched_some [OF s(3) d dist])
  moreover have "claimed d' = claimed d" using fr by (simp add: claimed_def active_def fun_eq_iff)
  ultimately show "sys_inv d'" using rewritten_schema [OF s(3) d(1)] by (simp add: sys_inv_def)
qed

section \<open>RunCycleCount, RegisterBin, ClassifyProduct\<close>

definition system_quantity :: "inventory \<Rightarrow> bin_id \<Rightarrow> quantity" where
  "system_quantity d b = wrap64 (total (\<lambda>u. if u_bin u = b \<and> locatable u then u_quantity u else 0) (units d))"

definition counted :: "stock_unit list \<Rightarrow> bin_id \<Rightarrow> quantity \<Rightarrow> inventory \<Rightarrow> inventory \<Rightarrow> bool" where
  "counted us b n d d' \<longleftrightarrow> mset us = mset (filter (\<lambda>u. u_bin u = b) (units d)) \<and>
     (if n < system_quantity d b
      then rewritten (map MarkUnlocated (lost_units (filter locatable us) (system_quantity d b - n))) d d'
      else d' = d)"

lemma system_quantity_found:
  assumes "mset us = mset (filter (\<lambda>u. u_bin u = b) (units d))"
  shows "wrap64 (total u_quantity (filter locatable us)) = system_quantity d b"
proof -
  have "mset (filter locatable us) = mset (filter locatable (filter (\<lambda>u. u_bin u = b) (units d)))"
    using assms by (metis mset_filter)
  then have "total u_quantity (filter locatable us) =
      total u_quantity (filter locatable (filter (\<lambda>u. u_bin u = b) (units d)))" by (rule total_mset)
  then show ?thesis by (simp add: system_quantity_def total_filter conj_commute)
qed

lemma counted_keeps:
  assumes "sys_inv d" "counted us b n d d'"
  shows "sys_inv d'"
proof -
  have d: "schema_ok d" "ledger (claimed d) d" using assms(1) by (simp_all add: sys_inv_def)
  have dist: "distinct (map u_id (units d))" using d(1) by (simp add: schema_ok_def)
  have us: "mset us = mset (filter (\<lambda>u. u_bin u = b) (units d))"
      "d' = d \<or> rewritten (map MarkUnlocated (lost_units (filter locatable us) (system_quantity d b - n))) d d'"
    using assms(2) by (auto simp: counted_def split: if_splits)
  let ?lost = "lost_units (filter locatable us) (system_quantity d b - n)"
  have set: "set ?lost \<subseteq> {u \<in> set (units d). locatable u}"
    using lost_units_set [of "filter locatable us"] mset_eq_setD [OF us(1)] by auto
  have "mset (map u_id us) = mset (map u_id (filter (\<lambda>u. u_bin u = b) (units d)))"
    using us(1) by simp
  then have "distinct (map u_id (filter locatable us))"
    using dist by (metis distinct_map_filter mset_eq_imp_distinct_iff)
  then have dl: "distinct (map u_id ?lost)" by (rule lost_units_distinct)
  have keeps: "sys_inv d'" if r: "rewritten (map MarkUnlocated ?lost) d d'"
  proof -
    have "ledger (claimed d) d'"
      by (rule rewritten_lost [OF r d dl]) (use set find_row_distinct [OF dist] in \<open>auto simp: locatable_def\<close>)
    moreover have "claimed d' = claimed d"
      using rewritten_frame [OF r] by (simp add: claimed_def active_def fun_eq_iff)
    ultimately show ?thesis using rewritten_schema [OF r d(1)] by (simp add: sys_inv_def)
  qed
  from us(2) show ?thesis using keeps assms(1) by auto
qed

definition registered :: "bin_id \<Rightarrow> quantity \<Rightarrow> inventory \<Rightarrow> bin \<Rightarrow> outcome \<Rightarrow> inventory \<Rightarrow> bool" where
  "registered i cap d b out d' \<longleftrightarrow>
     (case find_row b_id i (bins d) of
        None \<Rightarrow> out = BinCreated \<and> NewBin i cap = Inr b \<and> (\<exists>v. d' = put_bin v b d)
      | Some b0 \<Rightarrow>
          if b_capacity b0 = cap then out = BinUnchanged \<and> b = b0 \<and> d' = d
          else out = BinResized \<and> Resize b0 cap = Inr b \<and> (\<exists>v. d' = put_bin v b d)) \<and>
     schema_ok d'"

lemma registered_keeps:
  assumes "sys_inv d" "registered i cap d b out d'"
  shows "sys_inv d'"
proof -
  have d: "schema_ok d" "ledger (claimed d) d" and d': "schema_ok d'"
    using assms by (simp_all add: sys_inv_def registered_def)
  have written: "sys_inv d'" if "bin_ok b" "b_occupied b = held d (b_id b)" "d' = put_bin v b d" for v
    using ledger_put_bin [OF d that(1,2)] d' that(3) by (simp add: sys_inv_def)
  have cap: "b_capacity b \<le> max_int4" if "d' = put_bin v b d" for v
    using d' upsert_member [of "b\<lparr>b_version := v\<rparr>" b_id "bins d"] by (fastforce simp: that schema_ok_def)
  show ?thesis
  proof (cases "find_row b_id i (bins d)")
    case None
    then obtain v where b: "NewBin i cap = Inr b" "d' = put_bin v b d"
      using assms(2) by (auto simp: registered_def)
    note f = NewBin_fields [OF b(1)]
    have "held d i = 0"
      using None d(1) by (intro held_none) (auto simp: schema_ok_def find_row_None)
    with f cap [OF b(2)] b show ?thesis
      by (intro written [OF _ _ b(2)]) (auto simp: bin_ok_def)
  next
    case (Some b0)
    have b0: "bin_ok b0" "b_occupied b0 = held d (b_id b0)"
      using ledger_bin [OF d(2) find_row_set [OF Some]] by auto
    show ?thesis
    proof (cases "b_capacity b0 = cap")
      case True
      then show ?thesis using assms Some by (simp add: registered_def)
    next
      case False
      then obtain v where b: "Resize b0 cap = Inr b" "d' = put_bin v b d"
        using assms(2) Some by (auto simp: registered_def)
      with b0 cap [OF b(2)] show ?thesis
        by (intro written [OF _ _ b(2)]) (auto simp: Resize_iff bin_ok_def)
    qed
  qed
qed

lemma NewClassification_ok:
  assumes "NewClassification sk tags tc dot = Inr c"
  shows "classification_ok c" "c_handlingTags c \<subseteq> set all_tags" "c_sku c = sk"
  using assms unfolding NewClassification_iff
  by (auto simp: classification_ok_def RehydrateClassification_def IsHazmat_def IsTemperatureSensitive_def
      HasTag_def Ambient_def Chilled_def Frozen_def split: if_splits)

lemma put_class_keeps:
  "sys_inv d \<Longrightarrow> classification_ok c \<Longrightarrow> schema_ok (put_class c d) \<Longrightarrow> sys_inv (put_class c d)"
  using ledger_put_class by (simp add: sys_inv_def)

section \<open>Lookups of reservations, which expire what is due\<close>

definition stored :: "inventory \<Rightarrow> reservation \<Rightarrow> bool" where
  "stored d r \<longleftrightarrow> (\<exists>row. find_row rr_id (r_id r) (ress d) = Some row \<and> loads d row r)"

text \<open>
  \<open>settled wire s r s' r'\<close>: a lookup that came across \<open>r\<close> in \<open>s\<close> goes on in \<open>s'\<close> with \<open>r'\<close>, which is \<open>r\<close>
  itself, or \<open>r\<close> EXPIRED, its stock given back and the event enqueued.
\<close>

definition settled ::
  "(domain_event \<Rightarrow> res_row list \<Rightarrow> 'm list \<Rightarrow> bool) \<Rightarrow> 'm snapshot \<Rightarrow> reservation \<Rightarrow> 'm snapshot \<Rightarrow> reservation \<Rightarrow> bool"
  where
  "settled wire s r s' r' \<longleftrightarrow>
     r' = r \<and> s' = s \<and> (r_status r = StatusActive \<longrightarrow> (\<exists>t. \<not> IsExpired r t)) \<or>
     (\<exists>t d' ms. IsExpired r t \<and> returned StatusExpired r (inv s) d' \<and>
        enqueued wire [ReservationExpired t (r_id r)] (ress d') ms \<and>
        r' = r\<lparr>r_status := StatusExpired\<rparr> \<and> s' = s\<lparr>inv := d', log := log s @ ms\<rparr>)"

lemma settled_kept:
  "r_status r \<noteq> StatusActive \<or> \<not> IsExpired r t \<Longrightarrow> settled wire s r s r"
  by (auto simp: settled_def)

lemma settled_expired:
  "IsExpired r t \<Longrightarrow> returned StatusExpired r (inv s) d' \<Longrightarrow>
   enqueued wire [ReservationExpired t (r_id r)] (ress d') ms \<Longrightarrow>
   settled wire s r (s\<lparr>inv := d', log := log s @ ms\<rparr>) (r\<lparr>r_status := StatusExpired\<rparr>)"
  unfolding settled_def by blast

inductive settled_all ::
  "(domain_event \<Rightarrow> res_row list \<Rightarrow> 'm list \<Rightarrow> bool) \<Rightarrow> 'm snapshot \<Rightarrow> reservation list \<Rightarrow>
   'm snapshot \<Rightarrow> reservation list \<Rightarrow> bool" for wire where
  settled_none: "settled_all wire s [] s []"
| settled_one: "settled wire s r s' r' \<Longrightarrow> settled_all wire s' rs s'' rs' \<Longrightarrow>
    settled_all wire s (r # rs) s'' (r' # rs')"

lemma settled_expires: "settled wire s r s' r' \<Longrightarrow> expires\<^sup>*\<^sup>* (inv s) (inv s')"
  by (auto simp: settled_def dest: expiresI [THEN r_into_rtranclp [of expires]])

lemma settled_intx: "settled wire s r s' r' \<Longrightarrow> intx s' = intx s"
  by (auto simp: settled_def)

lemma settled_active:
  "settled wire s r s' r' \<Longrightarrow> r_status r' = StatusActive \<Longrightarrow> r' = r \<and> s' = s \<and> (\<exists>t. \<not> IsExpired r t)"
  by (auto simp: settled_def)

lemma settled_all_expires: "settled_all wire s rs s' rs' \<Longrightarrow> expires\<^sup>*\<^sup>* (inv s) (inv s')"
  by (induction rule: settled_all.induct) (auto dest: settled_expires intro: rtranclp_trans)

lemma settled_all_intx: "settled_all wire s rs s' rs' \<Longrightarrow> intx s' = intx s"
  by (induction rule: settled_all.induct) (auto dest: settled_intx)

lemma returned_schema: "returned st r d d' \<Longrightarrow> schema_ok d'"
  by (auto simp: returned_def)

text \<open>Expiring one reservation leaves the others as they were read.\<close>

lemma returned_stored:
  assumes "returned st r d d'" "schema_ok d" "stored d x" "r_id x \<noteq> r_id r"
  shows "stored d' x"
  using assms(3,4) returned_frame(1,4) [OF assms(1,2)]
  by (auto simp: stored_def loads_same [of d' d])

lemma settled_stored:
  "settled wire s r s' r' \<Longrightarrow> schema_ok (inv s) \<Longrightarrow> stored (inv s) x \<Longrightarrow> r_id x \<noteq> r_id r \<Longrightarrow>
   stored (inv s') x \<and> schema_ok (inv s')"
  by (auto simp: settled_def intro: returned_stored returned_schema)

lemma settled_schema: "settled wire s r s' r' \<Longrightarrow> schema_ok (inv s) \<Longrightarrow> schema_ok (inv s')"
  by (auto simp: settled_def dest: returned_schema)

lemma settled_all_stored:
  assumes "settled_all wire s rs s' rs'" "schema_ok (inv s)" "stored (inv s) x" "r_id x \<notin> r_id ` set rs"
  shows "stored (inv s') x"
  using assms
proof (induction rule: settled_all.induct)
  case (settled_one s r s' r' rs s'' rs')
  then show ?case using settled_stored [OF settled_one.hyps(1)] by auto
qed simp

text \<open>What a lookup returns as ACTIVE is ACTIVE in the tables it leaves, and was not due.\<close>

lemma settled_all_active:
  assumes "settled_all wire s rs s' rs'" "schema_ok (inv s)" "\<And>r. r \<in> set rs \<Longrightarrow> stored (inv s) r"
    and "distinct (map r_id rs)" "r' \<in> set rs'" "r_status r' = StatusActive"
  shows "r' \<in> set rs \<and> stored (inv s') r' \<and> (\<exists>t. \<not> IsExpired r' t)"
  using assms
proof (induction rule: settled_all.induct)
  case (settled_one s r s1 r1 rs s2 rs')
  show ?case
  proof (cases "r' = r1")
    case True
    then have r: "r1 = r" "s1 = s" using settled_active [OF settled_one.hyps(1)] settled_one.prems(5) by auto
    have "\<exists>t. \<not> IsExpired r t"
      using settled_active [OF settled_one.hyps(1)] settled_one.prems(5) True by simp
    moreover have "stored (inv s2) r"
      by (rule settled_all_stored [OF settled_one.hyps(2)])
        (use settled_one.prems r in auto)
    ultimately show ?thesis using True r by simp
  next
    case False
    have st: "stored (inv s1) x" if "x \<in> set rs" for x
    proof -
      have "r_id x \<in> r_id ` set rs" using that by (rule imageI)
      then have "r_id x \<noteq> r_id r" using settled_one.prems(3) by auto
      then show ?thesis using settled_stored [OF settled_one.hyps(1) settled_one.prems(1)] settled_one.prems(2) that by auto
    qed
    have "r' \<in> set rs \<and> stored (inv s2) r' \<and> (\<exists>t. \<not> IsExpired r' t)"
      by (rule settled_one.IH)
        (use settled_schema [OF settled_one.hyps(1)] settled_one.prems False st in auto)
    then show ?thesis by simp
  qed
qed simp

text \<open>The rows of a lookup after it: same terms, and the status the lookup returned.\<close>

definition demand :: "inventory \<Rightarrow> string \<Rightarrow> (string \<times> sku \<times> quantity) option" where
  "demand d i = map_option (\<lambda>row. (rr_demandRef row, rr_sku row, rr_quantity row)) (find_row rr_id i (ress d))"

definition same_terms :: "inventory \<Rightarrow> inventory \<Rightarrow> bool" where
  "same_terms d d' \<longleftrightarrow> demand d' = demand d \<and> (\<forall>i. active d' i \<longrightarrow> active d i)"

lemma same_terms_refl: "same_terms d d"
  by (simp add: same_terms_def)

lemma same_terms_trans: "same_terms d d1 \<Longrightarrow> same_terms d1 d2 \<Longrightarrow> same_terms d d2"
  by (simp add: same_terms_def)

lemma same_terms_put_res:
  assumes "find_row rr_id (r_id r) (ress d) = Some row" "st \<noteq> StatusActive" "ress d1 = ress d"
  shows "same_terms d (put_res v (r\<lparr>r_status := st\<rparr>) d1)"
  using assms find_row_key [OF assms(1)]
  by (auto simp: same_terms_def demand_def active_def fun_eq_iff find_upsert res_row_of_def)

lemma returned_same_terms: "returned st r d d' \<Longrightarrow> st \<noteq> StatusActive \<Longrightarrow> same_terms d d'"
  unfolding returned_def by (auto dest!: released_frame intro: same_terms_put_res)

lemma taken_same_terms: "taken r d d' \<Longrightarrow> same_terms d d'"
  unfolding taken_def by (auto dest!: picked_frame intro: same_terms_put_res)

lemma settled_same_terms: "settled wire s r s' r' \<Longrightarrow> same_terms (inv s) (inv s')"
  by (auto simp: settled_def intro: returned_same_terms same_terms_refl)

lemma settled_all_same_terms: "settled_all wire s rs s' rs' \<Longrightarrow> same_terms (inv s) (inv s')"
  by (induction rule: settled_all.induct) (auto intro: same_terms_refl same_terms_trans settled_same_terms)

text \<open>A lookup leaves no ACTIVE row behind that it did not return as ACTIVE.\<close>

lemma settled_inactive:
  assumes "settled wire s r s' r'" "schema_ok (inv s)" "stored (inv s) r" "r_status r' \<noteq> StatusActive"
  shows "\<not> active (inv s') (r_id r)"
proof -
  obtain row where row: "find_row rr_id (r_id r) (ress (inv s)) = Some row" "loads (inv s) row r"
    using assms(3) by (auto simp: stored_def)
  have st: "r_status r = rr_status row" using row(2) by (simp add: loads_def)
  show ?thesis
  proof (cases "r' = r")
    case True
    then have "s' = s \<or> returned StatusExpired r (inv s) (inv s')" using assms(1) by (auto simp: settled_def)
    with True assms(4) st row(1) show ?thesis by (auto simp: active_def returned_def)
  next
    case False
    then have "returned StatusExpired r (inv s) (inv s')" using assms(1) by (auto simp: settled_def)
    then show ?thesis using returned_frame(4) [OF _ assms(2)] row(1) by (fastforce simp: active_def)
  qed
qed

lemma same_terms_active: "same_terms d d' \<Longrightarrow> active d' i \<Longrightarrow> active d i"
  by (simp add: same_terms_def)

lemma settled_all_inactive:
  assumes "settled_all wire s rs s' rs'" "schema_ok (inv s)" "\<And>r. r \<in> set rs \<Longrightarrow> stored (inv s) r"
    and "distinct (map r_id rs)" "r \<in> set rs" "active (inv s') (r_id r)"
  shows "r \<in> set rs' \<and> r_status r = StatusActive"
  using assms
proof (induction rule: settled_all.induct)
  case (settled_one s x s1 x' rs s2 rs')
  show ?case
  proof (cases "r = x")
    case True
    have "active (inv s1) (r_id r)"
      using same_terms_active [OF settled_all_same_terms [OF settled_one.hyps(2)] settled_one.prems(5)] .
    then have act: "r_status x' = StatusActive"
      using settled_inactive [OF settled_one.hyps(1) settled_one.prems(1) settled_one.prems(2)] True by auto
    then show ?thesis using settled_active [OF settled_one.hyps(1)] True by auto
  next
    case False
    have st: "stored (inv s1) y" if "y \<in> set rs" for y
    proof -
      have "r_id y \<in> r_id ` set rs" using that by (rule imageI)
      then have "r_id y \<noteq> r_id x" using settled_one.prems(3) by auto
      then show ?thesis using settled_stored [OF settled_one.hyps(1) settled_one.prems(1)] settled_one.prems(2) that by auto
    qed
    have "r \<in> set rs' \<and> r_status r = StatusActive"
      by (rule settled_one.IH)
        (use settled_schema [OF settled_one.hyps(1)] settled_one.prems False st in auto)
    then show ?thesis by simp
  qed
qed simp

section \<open>One ACTIVE reservation for a demand\<close>

definition claimed_once :: "inventory \<Rightarrow> bool" where
  "claimed_once d \<longleftrightarrow> (\<forall>i j. active d i \<longrightarrow> active d j \<longrightarrow> demand d i = demand d j \<longrightarrow> i = j)"

definition unclaimed :: "string \<Rightarrow> sku \<Rightarrow> quantity \<Rightarrow> inventory \<Rightarrow> bool" where
  "unclaimed ref sk q d \<longleftrightarrow> (\<forall>i. active d i \<longrightarrow> demand d i \<noteq> Some (ref, sk, q))"

lemma same_terms_once: "same_terms d d' \<Longrightarrow> claimed_once d \<Longrightarrow> claimed_once d'"
  by (simp add: same_terms_def claimed_once_def)

lemma same_ress_terms: "ress d' = ress d \<Longrightarrow> same_terms d d'"
  by (simp add: same_terms_def demand_def active_def fun_eq_iff)

lemma reserved_new_once:
  assumes "reserved_new sk q ref d r d'" "claimed_once d" "unclaimed ref sk q d"
  shows "claimed_once d'"
proof -
  obtain d1 v where s: "r_id r \<notin> rr_id ` set (ress d)" "ress d1 = ress d" "d' = put_res v r d1"
      "r_sku r = sk" "r_quantity r = q" "r_demandRef r = ref"
    using assms(1) unfolding reserved_new_def by (auto dest: rewritten_frame)
  have none: "find_row rr_id (r_id r) (ress d) = None" using s(1) by (simp add: find_row_None)
  have row: "find_row rr_id i (ress d') =
      (if i = r_id r then Some (res_row_of v r None) else find_row rr_id i (ress d))" for i
    using none by (simp add: s(2,3) find_upsert) (simp add: res_row_of_def)
  have dem: "demand d' i = (if i = r_id r then Some (ref, sk, q) else demand d i)" for i
    unfolding demand_def row by (simp add: res_row_of_def s(4-6))
  have act: "active d' i \<Longrightarrow> i \<noteq> r_id r \<Longrightarrow> active d i" for i unfolding active_def row by simp
  show ?thesis
    using assms(2,3) unfolding claimed_once_def unclaimed_def dem by (metis act)
qed

section \<open>Operations on one reservation\<close>

text \<open>The reservation was due: the operation expired it, and was refused.\<close>

definition overdue ::
  "(domain_event \<Rightarrow> res_row list \<Rightarrow> 'm list \<Rightarrow> bool) \<Rightarrow> 'm snapshot \<Rightarrow> string \<Rightarrow> err \<Rightarrow> 'm snapshot \<Rightarrow> bool" where
  "overdue wire s i e s' \<longleftrightarrow> e = ReservationErr ErrAlreadyResolved \<and>
     (\<exists>r t d' ms. r_id r = i \<and> IsExpired r t \<and> returned StatusExpired r (inv s) d' \<and>
        enqueued wire [ReservationExpired t i] (ress d') ms \<and> s' = s\<lparr>inv := d', log := log s @ ms\<rparr>)"

lemma overdueI:
  "IsExpired r t \<Longrightarrow> returned StatusExpired r (inv s) d' \<Longrightarrow>
   enqueued wire [ReservationExpired t (r_id r)] (ress d') ms \<Longrightarrow>
   overdue wire s (r_id r) (ReservationErr ErrAlreadyResolved) (s\<lparr>inv := d', log := log s @ ms\<rparr>)"
  unfolding overdue_def by blast

lemma settled_cases:
  assumes "settled wire s r s' r'"
  obtains "r' = r" "s' = s" "r_status r = StatusActive \<longrightarrow> (\<exists>t. \<not> IsExpired r t)"
  | "r_status r' = StatusExpired" "overdue wire s (r_id r) (ReservationErr ErrAlreadyResolved) s'"
proof (cases "r' = r \<and> s' = s \<and> (r_status r = StatusActive \<longrightarrow> (\<exists>t. \<not> IsExpired r t))")
  case True
  then show thesis using that(1) by blast
next
  case False
  then obtain t d' ms where e: "IsExpired r t" "returned StatusExpired r (inv s) d'"
      "enqueued wire [ReservationExpired t (r_id r)] (ress d') ms"
      "r' = r\<lparr>r_status := StatusExpired\<rparr>" "s' = s\<lparr>inv := d', log := log s @ ms\<rparr>"
    using assms unfolding settled_def by blast
  then show thesis using that(2) overdueI [OF e(1-3)] by simp
qed

section \<open>Lookups by demand reference\<close>

text \<open>
  \<open>rs'\<close> are the reservations stored for the reference \<open>ref\<close>, each one settled on the way from \<open>s\<close> to \<open>s'\<close>.
\<close>

definition looked_up ::
  "(domain_event \<Rightarrow> res_row list \<Rightarrow> 'm list \<Rightarrow> bool) \<Rightarrow> 'm snapshot \<Rightarrow> string \<Rightarrow> 'm snapshot \<Rightarrow> reservation list \<Rightarrow> bool"
  where
  "looked_up wire s ref s' rs' \<longleftrightarrow>
     (\<exists>rs rows. mset rows = mset (filter (\<lambda>r. rr_demandRef r = ref) (ress (inv s))) \<and>
        list_all2 (loads (inv s)) rows rs \<and> settled_all wire s rs s' rs')"

text \<open>What FindByDemandRef returned is what the tables hold.\<close>

lemma found_demand:
  assumes "mset rows = mset (filter (\<lambda>r. rr_demandRef r = i) (ress d))" "list_all2 (loads d) rows xs"
    and "schema_ok d"
  shows "\<And>x. x \<in> set xs \<Longrightarrow> stored d x" "distinct (map r_id xs)"
    and "\<And>row. row \<in> set (ress d) \<Longrightarrow> rr_demandRef row = i \<Longrightarrow> \<exists>x \<in> set xs. loads d row x"
    and "\<And>x. x \<in> set xs \<Longrightarrow> r_demandRef x = i"
proof -
  have dist: "distinct (map rr_id (ress d))" using assms(3) by (simp add: schema_ok_def)
  have rows: "set rows = {r \<in> set (ress d). rr_demandRef r = i}"
    using assms(1) by (metis mset_eq_setD set_filter)
  have ids: "map r_id xs = map rr_id rows"
    using assms(2) by (auto simp: list_all2_conv_all_nth loads_def intro: nth_equalityI)
  have ex: "\<exists>row \<in> set rows. loads d row x" if "x \<in> set xs" for x
    using assms(2) that by (fastforce simp: list_all2_conv_all_nth in_set_conv_nth)
  show "stored d x" if x: "x \<in> set xs" for x
  proof -
    obtain row where "row \<in> set rows" "loads d row x" using ex [OF x] ..
    then show ?thesis
      using find_row_distinct [OF dist, of row] rows by (auto simp: stored_def loads_def)
  qed
  have "mset (map rr_id rows) = mset (map rr_id (filter (\<lambda>r. rr_demandRef r = i) (ress d)))"
    using assms(1) by simp
  then show "distinct (map r_id xs)"
    unfolding ids using dist by (metis distinct_map_filter mset_eq_imp_distinct_iff)
  show "\<exists>x \<in> set xs. loads d row x" if row: "row \<in> set (ress d)" "rr_demandRef row = i" for row
  proof -
    obtain k where "k < length rows" "rows ! k = row"
      using row rows by (metis (mono_tags, lifting) in_set_conv_nth mem_Collect_eq)
    then have "xs ! k \<in> set xs" "loads d row (xs ! k)"
      using assms(2) by (auto simp: list_all2_conv_all_nth)
    then show ?thesis ..
  qed
  show "r_demandRef x = i" if "x \<in> set xs" for x
    using ex [OF that] rows by (auto simp: loads_def)
qed

text \<open>An ACTIVE reservation the lookup returned is one of the tables it leaves, and was not due.\<close>

lemma looked_up_active:
  assumes "looked_up wire s ref s' rs'" "schema_ok (inv s)" "r \<in> set rs'" "r_status r = StatusActive"
  shows "stored (inv s') r \<and> r_demandRef r = ref \<and> (\<exists>t. \<not> IsExpired r t)"
proof -
  obtain rs rows where l: "mset rows = mset (filter (\<lambda>r. rr_demandRef r = ref) (ress (inv s)))"
      "list_all2 (loads (inv s)) rows rs" "settled_all wire s rs s' rs'"
    using assms(1) by (auto simp: looked_up_def)
  note f = found_demand [OF l(1,2) assms(2)]
  from settled_all_active [OF l(3) assms(2) f(1,2) assms(3,4)] f(4) show ?thesis by blast
qed

text \<open>When it returned none for the SKU and the quantity, there is none.\<close>

lemma looked_up_none:
  assumes "looked_up wire s ref s' rs'" "schema_ok (inv s)"
    and "\<And>r. r \<in> set rs' \<Longrightarrow> r_status r = StatusActive \<Longrightarrow> \<not> isReplayOf r sk q"
  shows "unclaimed ref sk q (inv s')"
proof -
  obtain rs rows where l: "mset rows = mset (filter (\<lambda>r. rr_demandRef r = ref) (ress (inv s)))"
      "list_all2 (loads (inv s)) rows rs" "settled_all wire s rs s' rs'"
    using assms(1) by (auto simp: looked_up_def)
  note f = found_demand [OF l(1,2) assms(2)]
  have "False" if a: "active (inv s') i" "demand (inv s') i = Some (ref, sk, q)" for i
  proof -
    have "demand (inv s) i = Some (ref, sk, q)"
      using a(2) settled_all_same_terms [OF l(3)] by (simp add: same_terms_def)
    then obtain row where row: "find_row rr_id i (ress (inv s)) = Some row" "rr_demandRef row = ref"
        "rr_sku row = sk" "rr_quantity row = q" by (auto simp: demand_def)
    obtain r where r: "r \<in> set rs" "loads (inv s) row r"
      using f(3) [OF find_row_set [OF row(1)] row(2)] ..
    have "r_id r = i" using r(2) find_row_key [OF row(1)] by (simp add: loads_def)
    then have "r \<in> set rs' \<and> r_status r = StatusActive"
      using settled_all_inactive [OF l(3) assms(2) f(1,2) r(1)] a(1) by simp
    moreover have "isReplayOf r sk q" using r(2) row(3,4) by (simp add: isReplayOf_def loads_def)
    ultimately show False using assms(3) by blast
  qed
  then show ?thesis by (auto simp: unclaimed_def)
qed

text \<open>The invariant of the inventory: its books balance, and no demand is served twice.\<close>

definition books_ok :: "inventory \<Rightarrow> bool" where
  "books_ok d \<longleftrightarrow> sys_inv d \<and> claimed_once d"

lemma books_ok_empty: "books_ok empty_inventory"
  using sys_inv_empty by (simp add: books_ok_def claimed_once_def active_def empty_inventory_def)

lemma books_ok_expires: "expires\<^sup>*\<^sup>* d d' \<Longrightarrow> same_terms d d' \<Longrightarrow> books_ok d \<Longrightarrow> books_ok d'"
  by (simp add: books_ok_def expires_keeps same_terms_once)

lemma books_ok_returned: "returned st r d d' \<Longrightarrow> st \<noteq> StatusActive \<Longrightarrow> books_ok d \<Longrightarrow> books_ok d'"
  unfolding books_ok_def using returned_keeps returned_same_terms same_terms_once by blast

lemma books_ok_taken: "taken r d d' \<Longrightarrow> books_ok d \<Longrightarrow> books_ok d'"
  unfolding books_ok_def using taken_keeps taken_same_terms same_terms_once by blast

lemma books_ok_stowed: "stowed sk q b d u d' \<Longrightarrow> books_ok d \<Longrightarrow> books_ok d'"
  unfolding books_ok_def using stowed_keeps same_terms_once [OF same_ress_terms]
  by (metis stowed_def put_unit_sel(2) put_bin_sel(2))

lemma books_ok_counted: "counted us b n d d' \<Longrightarrow> books_ok d \<Longrightarrow> books_ok d'"
  unfolding books_ok_def using counted_keeps same_terms_once [OF same_ress_terms] rewritten_frame
  by (metis counted_def)

lemma books_ok_registered: "registered i cap d b out d' \<Longrightarrow> books_ok d \<Longrightarrow> books_ok d'"
proof -
  assume r: "registered i cap d b out d'" and d: "books_ok d"
  have "ress d' = ress d" using r by (auto simp: registered_def split: option.splits if_splits)
  then show ?thesis using d registered_keeps [OF _ r] same_terms_once [OF same_ress_terms]
    by (auto simp: books_ok_def)
qed

lemma books_ok_classified:
  "NewClassification sk tags tc dot = Inr c \<Longrightarrow> schema_ok (put_class c d) \<Longrightarrow> books_ok d \<Longrightarrow> books_ok (put_class c d)"
  unfolding books_ok_def
  using put_class_keeps NewClassification_ok(1) same_terms_once [OF same_ress_terms] put_class_sel(2) by metis

lemma books_ok_reserved:
  "reserved_new sk q ref d r d' \<Longrightarrow> unclaimed ref sk q d \<Longrightarrow> 0 < q \<Longrightarrow> in64 q \<Longrightarrow> books_ok d \<Longrightarrow> books_ok d'"
  unfolding books_ok_def using reserved_new_keeps reserved_new_once by blast

lemma books_ok_stranded:
  "stranded sk q d d' \<Longrightarrow> 0 < q \<Longrightarrow> in64 q \<Longrightarrow> books_ok d \<Longrightarrow> books_ok d'"
  unfolding books_ok_def using stranded_keeps same_terms_once [OF same_ress_terms] by metis

lemma books_ok_schema: "books_ok d \<Longrightarrow> schema_ok d"
  by (simp add: books_ok_def sys_inv_def)

end
