(* ===== verification/UseCaseProofs.thy ===== *)
theory UseCaseProofs
  imports Contracts
begin

text \<open>
  The programs of UseCases implement the relations of Contracts, over any ports that keep the contract
  \<open>inventory_ports\<close>. The triples give, for every use case called outside a transaction, the tables
  and the messages enqueued after a result, and what is left after an error.
\<close>

text \<open>The events of \<open>markShortfallUnlocated\<close>, in the order it publishes them.\<close>

fun lost_events :: "time \<Rightarrow> bin_id \<Rightarrow> stock_unit list \<Rightarrow> quantity \<Rightarrow> domain_event list" where
  "lost_events t b [] n = []"
| "lost_events t b (u # us) n =
     (if n = 0 then []
      else ItemUnlocated t (u_id u) (u_sku u) b (min n (u_quantity u))
           # lost_events t b us (n - min n (u_quantity u)))"

lemma snapshot_eq [simp]:
  "s\<lparr>inv := d\<rparr> = s\<lparr>inv := d'\<rparr> \<longleftrightarrow> d = d'"
  "s\<lparr>log := l\<rparr> = s\<lparr>log := l'\<rparr> \<longleftrightarrow> l = l'"
  "s\<lparr>inv := d, log := l\<rparr> = s\<lparr>inv := d', log := l'\<rparr> \<longleftrightarrow> d = d' \<and> l = l'"
  by (cases s; simp)+

text \<open>The events of a cycle count.\<close>

definition count_events :: "time \<Rightarrow> stock_unit list \<Rightarrow> bin_id \<Rightarrow> quantity \<Rightarrow> quantity \<Rightarrow> domain_event list" where
  "count_events t us b n sys =
     (if n = sys then [CycleCountCompleted t b n sys False]
      else DiscrepancyDetected t b n sys #
           (if n < sys then lost_events t b (filter locatable us) (sys - n) else []) @
           [CycleCountCompleted t b n sys True])"

context inventory_ports
begin

section \<open>The loops inside a transaction\<close>

lemma intx_back [simp]: "\<not> intx x \<Longrightarrow> x\<lparr>intx := False\<rparr> = x"
  by (cases x) simp

lemma step_release:
  assumes "intx s"
    and "\<And>d'. released as (inv s) d' \<Longrightarrow> triple (\<lambda>w. view w = Some (s\<lparr>inv := d'\<rparr>)) (f ()) Q E"
    and "\<And>e w s'. view w = Some s' \<Longrightarrow> intx s' \<Longrightarrow> E e w"
  shows "triple (\<lambda>w. view w = Some s) (andthen (each (release_one P) as) f) Q E"
  using assms(1,2)
proof (induction as arbitrary: s)
  case Nil
  from Nil(2) [OF released_none] show ?case by simp
next
  case (Cons a as)
  note err = assms(3) [OF _ Cons.prems(1)]
  show ?case
    unfolding each.simps release_one_def [of P a] andthen_assoc
  proof (rule step_stock_find, goal_cases)
    case 1
    show ?case
    proof (cases "find_row u_id (a_unit a) (units (inv s))")
      case None
      then show ?thesis by (auto intro: triple_throw err)
    next
      case (Some u)
      show ?thesis
        unfolding Some option.case andthen_assoc
        by (intro step_lift step_stock_save Cons.IH)
          (auto intro: Cons.prems assms(3) released_one [OF Some] dest: fail_tx)
    qed
  qed (rule err)
qed

lemma step_pick:
  assumes "intx s"
    and "\<And>d'. picked as (inv s) d' \<Longrightarrow> triple (\<lambda>w. view w = Some (s\<lparr>inv := d'\<rparr>)) (f ()) Q E"
    and "\<And>e w s'. view w = Some s' \<Longrightarrow> intx s' \<Longrightarrow> E e w"
  shows "triple (\<lambda>w. view w = Some s) (andthen (each (pickFromBin P) as) f) Q E"
  using assms(1,2)
proof (induction as arbitrary: s)
  case Nil
  from Nil(2) [OF picked_none] show ?case by simp
next
  case (Cons a as)
  note err = assms(3) [OF _ Cons.prems(1)]
  have ferr: "E e w" if "failed s' w" "intx s'" for s' e w using fail_tx [OF that] assms(3) by blast
  show ?case
    unfolding each.simps pickFromBin_def [of P a] andthen_assoc
  proof (rule step_stock_find, goal_cases)
    case 1
    show ?case
    proof (cases "find_row u_id (a_unit a) (units (inv s))")
      case None
      then show ?thesis by (auto intro: triple_throw err)
    next
      case (Some u)
      show ?thesis
      proof (cases "find_row b_id (u_bin u) (bins (inv s))")
        case None
        then show ?thesis
          unfolding Some option.case andthen_assoc
          by (intro step_lift step_stock_save step_loc_find)
            (auto intro!: triple_throw intro: ferr assms(3) simp: Cons.prems(1))
      next
        case b: (Some b)
        show ?thesis
          unfolding Some option.case andthen_assoc
          by (intro step_lift step_stock_save step_loc_find,
              simp_all add: andthen_assoc b Cons.prems(1) err ferr,
              intro step_lift step_loc_save Cons.IH,
              auto simp: Cons.prems(1) intro: Cons.prems(2) assms(3) ferr picked_one [OF Some _ b])
      qed
    qed
  qed (rule err)
qed

lemma step_saves:
  assumes "\<And>d'. rewritten ts (inv s) d' \<Longrightarrow> triple (\<lambda>w. view w = Some (s\<lparr>inv := d'\<rparr>)) (f ()) Q E"
    and "\<And>n d' e w. rewritten (take n ts) (inv s) d' \<Longrightarrow> failed (s\<lparr>inv := d'\<rparr>) w \<Longrightarrow> E e w"
  shows "triple (\<lambda>w. view w = Some s) (andthen (each (sr_save (p_stock P)) ts) f) Q E"
  using assms
proof (induction ts arbitrary: s)
  case Nil
  from Nil(1) [OF rewritten_none] show ?case by simp
next
  case (Cons t ts)
  show ?case
    unfolding each.simps andthen_assoc
  proof (rule step_stock_save)
    fix v assume ok: "schema_ok (put_unit v t (inv s))"
    show "triple (\<lambda>w. view w = Some (s\<lparr>inv := put_unit v t (inv s)\<rparr>))
        (andthen (each (sr_save (p_stock P)) ts) f) Q E"
    proof (rule Cons.IH)
      fix d' assume "rewritten ts (inv (s\<lparr>inv := put_unit v t (inv s)\<rparr>)) d'"
      then show "triple (\<lambda>w. view w = Some (s\<lparr>inv := put_unit v t (inv s), inv := d'\<rparr>)) (f ()) Q E"
        using Cons.prems(1) [OF rewritten_one [OF ok]] by simp
    next
      fix n d' e w
      assume "rewritten (take n ts) (inv (s\<lparr>inv := put_unit v t (inv s)\<rparr>)) d'"
        "failed (s\<lparr>inv := put_unit v t (inv s), inv := d'\<rparr>) w"
      then show "E e w"
        using Cons.prems(2) [of "Suc n" d' w e] rewritten_one [OF ok] by simp
    qed
  next
    fix e w assume "failed s w"
    then show "E e w" using Cons.prems(2) [of 0 "inv s" w e] by simp
  qed
qed

lemma step_mark:
  assumes "intx s" "0 \<le> n" "in64 n" "\<And>u. u \<in> set us \<Longrightarrow> 0 \<le> u_quantity u"
    and "\<And>d' ms. rewritten (map MarkUnlocated (lost_units us n)) (inv s) d' \<Longrightarrow>
      enqueued wire (lost_events t b us n) (ress (inv s)) ms \<Longrightarrow>
      triple (\<lambda>w. view w = Some (s\<lparr>inv := d', log := log s @ ms\<rparr>)) (f ()) Q E"
    and "\<And>e w s'. view w = Some s' \<Longrightarrow> intx s' \<Longrightarrow> E e w"
  shows "triple (\<lambda>w. view w = Some s) (andthen (markShortfallUnlocated P b us n t) f) Q E"
  using assms(1-5)
proof (induction us arbitrary: s n)
  case Nil
  from Nil(5) [of "inv s" "[]"] show ?case by simp
next
  case (Cons u us)
  have q: "0 \<le> u_quantity u" using Cons.prems(4) by simp
  show ?case
  proof (cases "n = 0")
    case True
    then show ?thesis using Cons.prems(5) [of "inv s" "[]"] by simp
  next
    case False
    let ?take = "min n (u_quantity u)"
    have take: "(if \<not> GreaterThan n (u_quantity u) then n else u_quantity u) = ?take"
      by (auto simp: GreaterThan_def)
    have in64: "in64 (n - ?take)" using Cons.prems(2,3) q by (auto simp: in64_def min_def)
    then have rest: "or_zero (q_Sub n ?take) = n - ?take" by (simp add: q_Sub_exact)
    let ?s = "\<lambda>v ms. s\<lparr>inv := put_unit v (MarkUnlocated u) (inv s), log := log s @ ms\<rparr>"
    have "triple (\<lambda>w. view w = Some (?s v ms)) (andthen (markShortfallUnlocated P b us (n - ?take) t) f) Q E"
      if v: "schema_ok (put_unit v (MarkUnlocated u) (inv s))"
        and ms: "wire (ItemUnlocated t (u_id u) (u_sku u) b ?take) (ress (inv s)) ms" for v ms
    proof (rule Cons.IH)
      fix d' ns
      assume d': "rewritten (map MarkUnlocated (lost_units us (n - ?take))) (inv (?s v ms)) d'"
        and ns: "enqueued wire (lost_events t b us (n - ?take)) (ress (inv (?s v ms))) ns"
      have "enqueued wire (lost_events t b (u # us) n) (ress (inv s)) (ms @ ns)"
        using enqueued_append [OF enqueued_one [of wire, OF ms], of "lost_events t b us (n - ?take)" ns] ns False
        by simp
      then show "triple (\<lambda>w. view w = Some ((?s v ms)\<lparr>inv := d', log := log (?s v ms) @ ns\<rparr>)) (f ()) Q E"
        using Cons.prems(5) [of d' "ms @ ns"] rewritten_one [OF v] d' False by simp
    qed (use Cons.prems(1,2,4) in64 in auto)
    then show ?thesis
      unfolding markShortfallUnlocated.simps Let_def take rest if_not_P [OF False] andthen_assoc
      by (intro step_stock_save step_publish)
        (auto simp: Cons.prems(1) MarkUnlocated_def intro: assms(6) dest!: fail_tx)
  qed
qed

section \<open>ReceiveStock and StowStock\<close>

lemma receive:
  assumes "\<not> intx s"
  shows "triple (\<lambda>w. view w = Some s) (ReceiveStock_Execute P sk q)
    (\<lambda>r w. \<exists>ms. sk \<noteq> '''' \<and> 0 < q \<and> sg_sku r = sk \<and> sg_quantity r = q \<and>
       enqueued wire [StockReceived (sg_receivedAt r) sk q] (ress (inv s)) ms \<and>
       view w = Some (s\<lparr>log := log s @ ms\<rparr>))
    (\<lambda>_ w. view w = Some s)"
proof -
  let ?R = "\<lambda>t _ s'. \<exists>ms. enqueued wire [StockReceived t sk q] (ress (inv s)) ms \<and>
    s' = s\<lparr>intx := True, log := log s @ ms\<rparr>"
  show ?thesis
    unfolding ReceiveStock_Execute_def uncaptured_def
    by (intro triple_if triple_throw step_now step_atomically [OF assms, where R = "?R _"] step_publish triple_ret)
      (use assms in \<open>auto intro: enqueued_one dest: fail_tx\<close>)
qed

text \<open>What the placement and the segregation checks let through.\<close>

lemma step_placement:
  assumes "(p_classifications P \<noteq> None \<Longrightarrow> p_lookup P \<noteq> None \<Longrightarrow> placed slot (inv s) sk b) \<Longrightarrow>
      triple (\<lambda>w. view w = Some s) (f ()) Q E"
    and "\<And>e w. view w = Some s \<Longrightarrow> E e w"
  shows "triple (\<lambda>w. view w = Some s) (andthen (checkPlacement P sk b) f) Q E"
proof (cases "p_classifications P"; cases "p_lookup P")
  fix cr g assume cr: "p_classifications P = Some cr" and g: "p_lookup P = Some g"
  show ?thesis
    unfolding checkPlacement_def cr g prod.case option.case andthen_assoc
  proof (rule step_class_find [OF cr], goal_cases)
    case 1
    show ?case
    proof (cases "find_row c_sku sk (classes (inv s))")
      case None
      then show ?thesis using assms(1) by (simp add: placed_def)
    next
      case (Some c)
      then have "triple (\<lambda>w. view w = Some s) (f ()) Q E"
        if "IsHazmat c \<or> IsTemperatureSensitive c \<longrightarrow> (\<exists>a. slot b a \<and> placement_ok c a)"
        using assms(1) that by (simp add: placed_def)
      then show ?thesis
        unfolding Some option.case
        by (cases "\<not> IsHazmat c \<and> \<not> IsTemperatureSensitive c", simp)
          (simp add: andthen_assoc, rule step_lookup [OF g],
            auto intro!: triple_throw assms(2) simp: placement_ok_def)
    qed
  qed (rule assms(2))
qed (use assms(1) in \<open>simp_all add: checkPlacement_def\<close>)

lemma step_segregation_loop:
  assumes "p_classifications P = Some cr"
    and "(\<And>u. u \<in> set us \<Longrightarrow> u_sku u \<noteq> sk \<Longrightarrow> u_sku u \<notin> seen \<Longrightarrow>
        compatible_with (inv s) dot (u_sku u)) \<Longrightarrow>
      triple (\<lambda>w. view w = Some s) (f ()) Q E"
    and "\<And>e w. view w = Some s \<Longrightarrow> E e w"
  shows "triple (\<lambda>w. view w = Some s) (andthen (segregation_loop cr dot sk seen us) f) Q E"
  using assms(2)
proof (induction us arbitrary: seen)
  case Nil
  then show ?case by simp
next
  case (Cons u us)
  show ?case
  proof (cases "u_sku u = sk \<or> u_sku u \<in> seen")
    case True
    have "triple (\<lambda>w. view w = Some s) (andthen (segregation_loop cr dot sk seen us) f) Q E"
      by (rule Cons.IH, rule Cons.prems) (use True in auto)
    with True show ?thesis by (auto simp: Let_def)
  next
    case False
    have "triple (\<lambda>w. view w = Some s) (andthen (cr_find cr (u_sku u)) (\<lambda>x.
        andthen (case x of
            None \<Rightarrow> segregation_loop cr dot sk (insert (u_sku u) seen) us
          | Some c \<Rightarrow> if Incompatible dot (c_dotHazardClass c)
              then throw (UsecaseErr ErrHazmatClassIncompatible)
              else segregation_loop cr dot sk (insert (u_sku u) seen) us) f)) Q E"
    proof (rule step_class_find [OF assms(1)], goal_cases)
      case 1
      show ?case
      proof (cases "compatible_with (inv s) dot (u_sku u)")
        case True
        have "triple (\<lambda>w. view w = Some s) (andthen (segregation_loop cr dot sk (insert (u_sku u) seen) us) f) Q E"
        proof (rule Cons.IH, rule Cons.prems)
          fix x
          assume "\<And>x. x \<in> set us \<Longrightarrow> u_sku x \<noteq> sk \<Longrightarrow> u_sku x \<notin> insert (u_sku u) seen \<Longrightarrow>
              compatible_with (inv s) dot (u_sku x)"
            "x \<in> set (u # us)" "u_sku x \<noteq> sk" "u_sku x \<notin> seen"
          then show "compatible_with (inv s) dot (u_sku x)"
            using True by (cases "u_sku x = u_sku u") auto
        qed
        with True show ?thesis by (auto simp: compatible_with_def split: option.splits)
      next
        case False
        then show ?thesis
          by (auto simp: compatible_with_def split: option.splits intro!: triple_throw assms(3))
      qed
    qed (rule assms(3))
    with False show ?thesis by (simp add: Let_def andthen_assoc)
  qed
qed

lemma step_segregation:
  assumes "(p_classifications P \<noteq> None \<Longrightarrow> segregated (inv s) sk b) \<Longrightarrow>
      triple (\<lambda>w. view w = Some s) (f ()) Q E"
    and "\<And>e w. view w = Some s \<Longrightarrow> E e w"
  shows "triple (\<lambda>w. view w = Some s) (andthen (checkSegregation P sk b) f) Q E"
proof (cases "p_classifications P")
  case None
  then show ?thesis using assms(1) by (simp add: checkSegregation_def)
next
  case cr: (Some cr)
  show ?thesis
    unfolding checkSegregation_def cr option.case andthen_assoc
  proof (rule step_class_find [OF cr], goal_cases)
    case 1
    show ?case
    proof (cases "find_row c_sku sk (classes (inv s))")
      case None
      then show ?thesis using assms(1) by (simp add: segregated_def)
    next
      case (Some c)
      have clear: "triple (\<lambda>w. view w = Some s) (f ()) Q E"
        if "\<And>u. u \<in> set (units (inv s)) \<Longrightarrow> u_bin u = b \<Longrightarrow> u_sku u \<noteq> sk \<Longrightarrow>
          compatible_with (inv s) (c_dotHazardClass c) (u_sku u)"
      proof (rule assms(1))
        show "segregated (inv s) sk b" using that by (simp add: segregated_def Some)
      qed
      show ?thesis
      proof (cases "c_dotHazardClass c = DOTHazardClassUnspecified")
        case True
        then show ?thesis
          by (simp add: Some) (rule clear, simp add: compatible_with_def Incompatible_def split: option.split)
      next
        case False
        show ?thesis
          unfolding Some option.case if_not_P [OF False] andthen_assoc
        proof (rule step_stock_find_bin)
          fix us assume "mset us = mset (filter (\<lambda>u. u_bin u = b) (units (inv s)))"
          then have us: "set us = {u \<in> set (units (inv s)). u_bin u = b}"
            by (metis mset_eq_setD set_filter)
          show "triple (\<lambda>w. view w = Some s)
              (andthen (segregation_loop cr (c_dotHazardClass c) sk {} us) f) Q E"
            by (rule step_segregation_loop [OF cr], rule clear) (auto simp: us assms(2))
        qed (rule assms(2))
      qed
    qed
  qed (rule assms(2))
qed

lemma stow:
  assumes "\<not> intx s"
  shows "triple (\<lambda>w. view w = Some s) (StowStock_Execute P sk q b)
    (\<lambda>u w. \<exists>d' t ms. stowed sk q b (inv s) u d' \<and>
       (p_classifications P \<noteq> None \<longrightarrow> segregated (inv s) sk b) \<and>
       (p_classifications P \<noteq> None \<longrightarrow> p_lookup P \<noteq> None \<longrightarrow> placed slot (inv s) sk b) \<and>
       enqueued wire [ItemStowed t sk b q, LocationRecorded t (u_id u) b] (ress (inv s)) ms \<and>
       view w = Some (s\<lparr>inv := d', log := log s @ ms\<rparr>))
    (\<lambda>_ w. view w = Some s)"
  unfolding StowStock_Execute_def
proof (rule step_loc_find, goal_cases)
  case 1
  show ?case
  proof (cases "find_row b_id b (bins (inv s))")
    case None
    then show ?thesis by (auto intro: triple_throw)
  next
    case (Some bn)
    show ?thesis
      unfolding Some option.case
    proof (intro step_placement step_segregation step_stock_next step_lift step_now, goal_cases)
      case (1 i u bn' t)
      let ?R = "\<lambda>_ s'. \<exists>v v' ms. schema_ok (put_unit v u (put_bin v' bn' (inv s))) \<and>
        enqueued wire [ItemStowed t sk b q, LocationRecorded t (u_id u) b] (ress (inv s)) ms \<and>
        s' = s\<lparr>intx := True, inv := put_unit v u (put_bin v' bn' (inv s)), log := log s @ ms\<rparr>"
      note u = NewStockUnit_fields [OF 1(4)]
      have stowed: "stowed sk q b (inv s) u (put_unit v u (put_bin v' bn' (inv s)))"
        if "schema_ok (put_unit v u (put_bin v' bn' (inv s)))" for v v'
        using 1(3,4,5) Some that u unfolding stowed_def by auto
      show ?case
      proof (rule step_atomically [OF assms, where R = ?R], goal_cases)
        case 1
        show ?case
          unfolding uncaptured_def stow_scope_def andthen_assoc
          apply (intro step_loc_save step_stock_save step_publish triple_ret)
          apply (auto dest: fail_tx simp: u)
          subgoal for v v' ms ms'
            using enqueued_append [OF enqueued_one enqueued_one, of wire _ "ress (inv s)" ms _ ms']
            by (intro exI [of _ v] exI [of _ v'] exI [of _ "ms @ ms'"]) auto
          done
      next
        case (2 a s')
        then obtain v v' ms where s': "schema_ok (put_unit v u (put_bin v' bn' (inv s)))"
          "enqueued wire [ItemStowed t sk b q, LocationRecorded t (u_id u) b] (ress (inv s)) ms"
          "s' = s\<lparr>intx := True, inv := put_unit v u (put_bin v' bn' (inv s)), log := log s @ ms\<rparr>"
          by blast
        show ?case
          by (intro triple_ret exI [of _ "put_unit v u (put_bin v' bn' (inv s))"] exI [of _ t] exI [of _ ms] conjI)
            (use stowed s' 1(1,2) assms in auto)
      qed
    qed auto
  qed
qed auto

section \<open>Lookups of reservations\<close>

lemma expire_scope_triple:
  assumes "stored (inv s) r" "r_status r = StatusActive" "intx s"
  shows "triple (\<lambda>w. view w = Some s) (expire_scope P r t)
    (\<lambda>c w. \<exists>s'. (\<exists>d' ms. returned StatusExpired r (inv s) d' \<and>
        enqueued wire [ReservationExpired t (r_id r)] (ress d') ms \<and>
        c = Captured_reservation (r\<lparr>r_status := StatusExpired\<rparr>) \<and>
        s' = s\<lparr>inv := d', log := log s @ ms\<rparr>) \<and> intx s' \<and> view w = Some s')
    (\<lambda>_ w. \<exists>s'. view w = Some s' \<and> intx s')"
proof -
  have ex: "Expire r = Inr (r\<lparr>r_status := StatusExpired\<rparr>)" using assms(2) by (simp add: Expire_def)
  have ret: "returned StatusExpired r (inv s) (put_res v (r\<lparr>r_status := StatusExpired\<rparr>) d1)"
    if "released (r_allocations r) (inv s) d1" "schema_ok (put_res v (r\<lparr>r_status := StatusExpired\<rparr>) d1)" for v d1
    using that assms(1,2) unfolding returned_def stored_def by blast
  show ?thesis
    unfolding expire_scope_def releaseAllocations_def ex lift_Inr andthen_ret
    by (intro step_release [OF assms(3)] step_res_save step_publish triple_ret)
      (use assms(3) in \<open>auto simp: fail_tx intro!: exI intro: ret enqueued_one\<close>)
qed

lemma step_expire:
  assumes "\<not> intx s" "stored (inv s) r"
    and "\<And>s' r'. settled wire s r s' r' \<Longrightarrow> triple (\<lambda>w. view w = Some s') (f r') Q E"
    and "\<And>e w. view w = Some s \<Longrightarrow> E e w"
  shows "triple (\<lambda>w. view w = Some s) (andthen (expireIfDue P r) f) Q E"
proof (cases "r_status r = StatusActive")
  case False
  then show ?thesis using assms(3) [of s r] by (simp add: expireIfDue_def settled_def)
next
  case True
  have kept: "triple (\<lambda>w. view w = Some s) (f r) Q E" if "\<not> IsExpired r t" for t
    using assms(3) [of s r] that by (auto simp: settled_def)
  have tx: "triple (\<lambda>w. view w = Some (s\<lparr>intx := True\<rparr>)) (expire_scope P r t)
    (\<lambda>c w. \<exists>s'. (\<exists>d' ms. returned StatusExpired r (inv s) d' \<and>
        enqueued wire [ReservationExpired t (r_id r)] (ress d') ms \<and>
        c = Captured_reservation (r\<lparr>r_status := StatusExpired\<rparr>) \<and>
        s' = s\<lparr>intx := True, inv := d', log := log s @ ms\<rparr>) \<and> intx s' \<and> view w = Some s')
    (\<lambda>_ w. \<exists>s'. view w = Some s' \<and> intx s')" for t
    using expire_scope_triple [of "s\<lparr>intx := True\<rparr>" r t] assms(2) True by simp
  show ?thesis
    unfolding expireIfDue_def
  proof (simp add: True andthen_assoc, rule step_now)
    fix t
    show "triple (\<lambda>w. view w = Some s)
        (andthen (if \<not> IsExpired r t then ret r
           else andthen (atomically P (expire_scope P r t))
             (\<lambda>c. case c of Captured_reservation x \<Rightarrow> ret x | _ \<Rightarrow> ret r)) f) Q E"
    proof (cases "IsExpired r t")
      case False
      then show ?thesis using kept by simp
    next
      case due: True
      have "triple (\<lambda>w. view w = Some s)
          (andthen (atomically P (expire_scope P r t))
            (\<lambda>c. andthen (case c of Captured_reservation x \<Rightarrow> ret x | _ \<Rightarrow> ret r) f)) Q E"
        by (rule step_atomically [OF assms(1) tx])
          (use due assms(1) in \<open>auto intro!: assms(3,4) intro: settled_expired\<close>)
      with due show ?thesis by (simp add: andthen_assoc)
    qed
  qed
qed

lemma step_expire_all:
  assumes "\<not> intx s" "schema_ok (inv s)" "\<And>r. r \<in> set rs \<Longrightarrow> stored (inv s) r" "distinct (map r_id rs)"
    and "\<And>s' rs'. settled_all wire s rs s' rs' \<Longrightarrow> triple (\<lambda>w. view w = Some s') (f rs') Q E"
    and "\<And>n s' rs' e w. settled_all wire s (take n rs) s' rs' \<Longrightarrow> view w = Some s' \<Longrightarrow> E e w"
  shows "triple (\<lambda>w. view w = Some s) (andthen (expireAllIfDue P rs) f) Q E"
  using assms
proof (induction rs arbitrary: s f)
  case Nil
  from Nil(5) [OF settled_none] show ?case by simp
next
  case (Cons r rs)
  have none: "E e w" if "view w = Some s" for e w
    using Cons.prems(6) [of 0 s "[]" w e] that by (simp add: settled_none)
  show ?case
    unfolding expireAllIfDue.simps andthen_assoc
  proof (rule step_expire [OF Cons.prems(1) _ _ none])
    show "stored (inv s) r" using Cons.prems(3) by simp
    fix s1 r1 assume r1: "settled wire s r s1 r1"
    have "stored (inv s1) x" if "x \<in> set rs" for x
    proof -
      have "r_id x \<in> r_id ` set rs" using that by (rule imageI)
      then have "r_id x \<noteq> r_id r" using Cons.prems(4) by auto
      then show ?thesis using settled_stored [OF r1 Cons.prems(2)] Cons.prems(3) that by auto
    qed
    then show "triple (\<lambda>w. view w = Some s1)
        (andthen (expireAllIfDue P rs) (\<lambda>x. andthen (ret (r1 # x)) f)) Q E"
    proof (intro Cons.IH)
      fix s2 rs2 assume "settled_all wire s1 rs s2 rs2"
      from Cons.prems(5) [OF settled_one [OF r1 this]]
      show "triple (\<lambda>w. view w = Some s2) (andthen (ret (r1 # rs2)) f) Q E" by simp
    next
      fix n s2 rs2 e w assume a: "settled_all wire s1 (take n rs) s2 rs2" "view w = Some s2"
      then show "E e w"
        using Cons.prems(6) [of "Suc n" s2 "r1 # rs2" w e] settled_one [OF r1 a(1)] by simp
    qed (use Cons.prems settled_intx [OF r1] settled_schema [OF r1] in auto)
  qed
qed

lemma by_demand:
  assumes "\<not> intx s" "schema_ok (inv s)"
  shows "triple (\<lambda>w. view w = Some s) (GetReservationsByDemandRef_Execute P ref)
    (\<lambda>rs' w. \<exists>s'. looked_up wire s ref s' rs' \<and> view w = Some s')
    (\<lambda>_ w. \<exists>s' rs rs'. settled_all wire s rs s' rs' \<and> view w = Some s')"
  unfolding GetReservationsByDemandRef_Execute_def looked_up_def
  apply (rule step_res_find_demand)
  subgoal for xs rows
    by (rule triple_tail, rule step_expire_all [OF assms])
      (use found_demand [OF _ _ assms(2)] in \<open>auto intro!: triple_ret\<close>)
  subgoal for e w
    using settled_none by blast
  done

section \<open>RevokeReservation and ConfirmPick\<close>

lemma found_stored:
  "rel_option (loads d) (find_row rr_id i (ress d)) (Some r) \<Longrightarrow> stored d r \<and> r_id r = i"
  using find_row_key by (fastforce simp: option_rel_Some2 stored_def loads_def)

lemma revoke:
  assumes "\<not> intx s"
  shows "triple (\<lambda>w. view w = Some s) (RevokeReservation_Execute P i)
    (\<lambda>_ w. \<exists>r d' t ms. r_id r = i \<and> returned StatusRevoked r (inv s) d' \<and>
       enqueued wire [ReservationRevoked t i] (ress d') ms \<and>
       view w = Some (s\<lparr>inv := d', log := log s @ ms\<rparr>))
    (\<lambda>e w. view w = Some s \<or> (\<exists>s'. overdue wire s i e s' \<and> view w = Some s'))"
  unfolding RevokeReservation_Execute_def
proof (rule step_res_find)
  fix x assume x: "rel_option (loads (inv s)) (find_row rr_id i (ress (inv s))) x"
  let ?Q = "\<lambda>_ w. \<exists>r d' t ms. r_id r = i \<and> returned StatusRevoked r (inv s) d' \<and>
       enqueued wire [ReservationRevoked t i] (ress d') ms \<and>
       view w = Some (s\<lparr>inv := d', log := log s @ ms\<rparr>)"
  let ?E = "\<lambda>e w. view w = Some s \<or> (\<exists>s'. overdue wire s i e s' \<and> view w = Some s')"
  let ?k = "\<lambda>r1. andthen (lift (Revoke r1)) (\<lambda>r. andthen (atomically P (uncaptured (revoke_scope P r))) (\<lambda>_. revoked_metric P))"
  have go: "triple (\<lambda>w. view w = Some s) (?k r) ?Q ?E"
    if r: "stored (inv s) r" "r_id r = i" "r_status r = StatusActive" for r
  proof -
    let ?r = "r\<lparr>r_status := StatusRevoked\<rparr>"
    let ?R = "\<lambda>_ s'. \<exists>d' t ms. returned StatusRevoked r (inv s) d' \<and>
      enqueued wire [ReservationRevoked t i] (ress d') ms \<and>
      s' = s\<lparr>intx := True, inv := d', log := log s @ ms\<rparr>"
    have ret: "returned StatusRevoked r (inv s) (put_res v ?r d1)"
      if "released (r_allocations r) (inv s) d1" "schema_ok (put_res v ?r d1)" for v d1
      using that r unfolding returned_def stored_def by blast
    have rev: "Revoke r = Inr ?r" using r(3) by (simp add: Revoke_def)
    show ?thesis
      unfolding rev lift_Inr andthen_ret
    proof (rule step_atomically [OF assms, where R = ?R])
      show "triple (\<lambda>w. view w = Some (s\<lparr>intx := True\<rparr>)) (uncaptured (revoke_scope P ?r))
          (\<lambda>a w. \<exists>s'. ?R a s' \<and> intx s' \<and> view w = Some s') (\<lambda>_ w. \<exists>s'. view w = Some s' \<and> intx s')"
        unfolding uncaptured_def revoke_scope_def releaseAllocations_def andthen_assoc
        by (intro step_release step_res_save step_now step_publish triple_ret)
          (use r(2) in \<open>auto simp: fail_tx intro!: exI intro: ret enqueued_one\<close>)
    next
      fix a s' assume "?R a s'"
      then obtain d' t ms where s': "returned StatusRevoked r (inv s) d'"
          "enqueued wire [ReservationRevoked t i] (ress d') ms"
          "s' = s\<lparr>intx := True, inv := d', log := log s @ ms\<rparr>" by blast
      have Q: "?Q u w" if "view w = Some (s\<lparr>inv := d', log := log s @ ms\<rparr>)" for u w
        using s'(1,2) r(2) that by blast
      show "triple (\<lambda>w. view w = Some (s'\<lparr>intx := False\<rparr>)) (revoked_metric P) ?Q ?E"
        by (intro triple_tail [OF step_metric(2)] triple_ret, rule Q) (simp add: s'(3) assms)
    qed simp
  qed
  show "triple (\<lambda>w. view w = Some s)
      (case x of None \<Rightarrow> throw (UsecaseErr ErrReservationNotFound)
       | Some r0 \<Rightarrow> andthen (expireIfDue P r0) ?k) ?Q ?E"
  proof (cases x)
    case None
    then show ?thesis by (auto intro: triple_throw)
  next
    case (Some r)
    then have r: "stored (inv s) r" "r_id r = i" using found_stored x by auto
    show ?thesis
      unfolding Some option.case
    proof (rule step_expire [OF assms r(1)])
      fix s1 r1 assume "settled wire s r s1 r1"
      then show "triple (\<lambda>w. view w = Some s1) (?k r1) ?Q ?E"
      proof (cases rule: settled_cases)
        case 1
        then show ?thesis
          using go [OF r] by (cases "r_status r = StatusActive") (auto simp: Revoke_def intro: triple_throw)
      next
        case 2
        then show ?thesis using r(2) by (auto simp: Revoke_def intro!: triple_throw)
      qed
    qed simp
  qed
qed simp

lemma confirm:
  assumes "\<not> intx s"
  shows "triple (\<lambda>w. view w = Some s) (ConfirmPick_Execute P i)
    (\<lambda>_ w. \<exists>r d' t ms. r_id r = i \<and> \<not> IsExpired r t \<and> taken r (inv s) d' \<and>
       enqueued wire [StockPicked t i (r_sku r) (r_quantity r)] (ress d') ms \<and>
       view w = Some (s\<lparr>inv := d', log := log s @ ms\<rparr>))
    (\<lambda>e w. view w = Some s \<or> (\<exists>s'. overdue wire s i e s' \<and> view w = Some s'))"
  unfolding ConfirmPick_Execute_def
proof (rule step_res_find)
  fix x assume x: "rel_option (loads (inv s)) (find_row rr_id i (ress (inv s))) x"
  let ?Q = "\<lambda>_ w. \<exists>r d' t ms. r_id r = i \<and> \<not> IsExpired r t \<and> taken r (inv s) d' \<and>
       enqueued wire [StockPicked t i (r_sku r) (r_quantity r)] (ress d') ms \<and>
       view w = Some (s\<lparr>inv := d', log := log s @ ms\<rparr>)"
  let ?E = "\<lambda>e w. view w = Some s \<or> (\<exists>s'. overdue wire s i e s' \<and> view w = Some s')"
  let ?k = "\<lambda>r1. andthen (now P) (\<lambda>t. andthen (lift (Confirm r1 t)) (\<lambda>r.
    andthen (atomically P (uncaptured (pick_scope P r t))) (\<lambda>_. ret ())))"
  have go: "triple (\<lambda>w. view w = Some s)
      (andthen (atomically P (uncaptured (pick_scope P (r\<lparr>r_status := StatusConfirmed\<rparr>) t))) (\<lambda>_. ret ())) ?Q ?E"
    if r: "stored (inv s) r" "r_id r = i" "r_status r = StatusActive" "\<not> IsExpired r t" for r t
  proof -
    let ?r = "r\<lparr>r_status := StatusConfirmed\<rparr>"
    let ?R = "\<lambda>_ s'. \<exists>d' ms. taken r (inv s) d' \<and>
      enqueued wire [StockPicked t i (r_sku r) (r_quantity r)] (ress d') ms \<and>
      s' = s\<lparr>intx := True, inv := d', log := log s @ ms\<rparr>"
    have ret: "taken r (inv s) (put_res v ?r d1)"
      if "picked (r_allocations r) (inv s) d1" "schema_ok (put_res v ?r d1)" for v d1
      using that r unfolding taken_def stored_def by blast
    show ?thesis
    proof (rule step_atomically [OF assms, where R = ?R])
      show "triple (\<lambda>w. view w = Some (s\<lparr>intx := True\<rparr>)) (uncaptured (pick_scope P ?r t))
          (\<lambda>a w. \<exists>s'. ?R a s' \<and> intx s' \<and> view w = Some s') (\<lambda>_ w. \<exists>s'. view w = Some s' \<and> intx s')"
        unfolding uncaptured_def pick_scope_def andthen_assoc
        by (intro step_pick step_res_save step_publish triple_ret)
          (use r(2) in \<open>auto simp: fail_tx intro!: exI intro: ret enqueued_one\<close>)
    next
      fix a s' assume "?R a s'"
      then obtain d' ms where s': "taken r (inv s) d'"
          "enqueued wire [StockPicked t i (r_sku r) (r_quantity r)] (ress d') ms"
          "s' = s\<lparr>intx := True, inv := d', log := log s @ ms\<rparr>" by blast
      have Q: "?Q u w" if "view w = Some (s\<lparr>inv := d', log := log s @ ms\<rparr>)" for u w
        using s'(1,2) r(2,4) that by blast
      show "triple (\<lambda>w. view w = Some (s'\<lparr>intx := False\<rparr>)) (ret ()) ?Q ?E"
        by (rule triple_ret, rule Q) (simp add: s'(3) assms)
    qed simp
  qed
  show "triple (\<lambda>w. view w = Some s)
      (case x of None \<Rightarrow> throw (UsecaseErr ErrReservationNotFound)
       | Some r0 \<Rightarrow> andthen (expireIfDue P r0) ?k) ?Q ?E"
  proof (cases x)
    case None
    then show ?thesis by (auto intro: triple_throw)
  next
    case (Some r)
    then have r: "stored (inv s) r" "r_id r = i" using found_stored x by auto
    show ?thesis
      unfolding Some option.case
    proof (rule step_expire [OF assms r(1)])
      fix s1 r1 assume "settled wire s r s1 r1"
      then show "triple (\<lambda>w. view w = Some s1) (?k r1) ?Q ?E"
      proof (cases rule: settled_cases)
        case 1
        show ?thesis
          unfolding 1(1,2)
        proof (rule step_now, rule step_lift)
          fix t x assume "Confirm r t = Inr x"
          then have c: "x = r\<lparr>r_status := StatusConfirmed\<rparr>" "r_status r = StatusActive" "\<not> IsExpired r t"
            by (auto simp: Confirm_def split: if_splits)
          show "triple (\<lambda>w. view w = Some s)
              (andthen (atomically P (uncaptured (pick_scope P x t))) (\<lambda>_. ret ())) ?Q ?E"
            unfolding c(1) by (rule go [OF r c(2,3)])
        qed simp
      next
        case 2
        then show ?thesis
          by (intro step_now step_lift) (use r(2) in \<open>auto simp: Confirm_def\<close>)
      qed
    qed simp
  qed
qed simp

section \<open>RunCycleCount\<close>

lemma count_scope_triple:
  assumes "intx s" "0 \<le> n" "in64 n" "mset us = mset (filter (\<lambda>u. u_bin u = b) (units (inv s)))"
    and "schema_ok (inv s)"
  shows "triple (\<lambda>w. view w = Some s)
    (count_scope P t b n (system_quantity (inv s) b) (filter locatable us))
    (\<lambda>c w. \<exists>s'. (\<exists>d' ms. counted us b n (inv s) d' \<and>
        enqueued wire (count_events t us b n (system_quantity (inv s) b)) (ress (inv s)) ms \<and>
        c = Captured_count \<lparr>cc_bin = b, cc_counted = n, cc_system = system_quantity (inv s) b,
              cc_discrepancy = (n \<noteq> system_quantity (inv s) b)\<rparr> \<and>
        s' = s\<lparr>inv := d', log := log s @ ms\<rparr>) \<and> intx s' \<and> view w = Some s')
    (\<lambda>_ w. \<exists>s'. view w = Some s' \<and> intx s')"
proof -
  let ?sys = "system_quantity (inv s) b"
  let ?Q = "\<lambda>c w. \<exists>s'. (\<exists>d' ms. counted us b n (inv s) d' \<and>
        enqueued wire (count_events t us b n ?sys) (ress (inv s)) ms \<and>
        c = Captured_count \<lparr>cc_bin = b, cc_counted = n, cc_system = ?sys, cc_discrepancy = (n \<noteq> ?sys)\<rparr> \<and>
        s' = s\<lparr>inv := d', log := log s @ ms\<rparr>) \<and> intx s' \<and> view w = Some s'"
  let ?E = "\<lambda>_ w. \<exists>s'. view w = Some s' \<and> intx s'"
  have last: "triple (\<lambda>w. view w = Some (s\<lparr>inv := d', log := log s @ ms\<rparr>)) (complete P t b n ?sys disc) ?Q ?E"
    if "counted us b n (inv s) d'" "ress d' = ress (inv s)" "disc = (n \<noteq> ?sys)"
      "\<And>ns. enqueued wire [CycleCountCompleted t b n ?sys disc] (ress (inv s)) ns \<Longrightarrow>
         enqueued wire (count_events t us b n ?sys) (ress (inv s)) (ms @ ns)" for d' ms disc
  proof -
    have "?Q c w"
      if "wire (CycleCountCompleted t b n ?sys disc) (ress (inv s)) ns"
        "c = Captured_count \<lparr>cc_bin = b, cc_counted = n, cc_system = ?sys, cc_discrepancy = disc\<rparr>"
        "view w = Some (s\<lparr>inv := d', log := log s @ ms @ ns\<rparr>)" for c w ns
      using that \<open>counted us b n (inv s) d'\<close> \<open>disc = (n \<noteq> ?sys)\<close> assms(1)
        \<open>\<And>ns. enqueued wire [CycleCountCompleted t b n ?sys disc] (ress (inv s)) ns \<Longrightarrow>
         enqueued wire (count_events t us b n ?sys) (ress (inv s)) (ms @ ns)\<close> [OF enqueued_one [of wire, OF that(1)]]
      by (intro exI [of _ "s\<lparr>inv := d', log := log s @ ms @ ns\<rparr>"] conjI exI [of _ d'] exI [of _ "ms @ ns"]) auto
    then show ?thesis
      unfolding complete_def
      by (intro step_publish triple_ret) (use assms(1) that(2) in \<open>auto dest: fail_tx\<close>)
  qed
  have q: "0 \<le> u_quantity u" if "u \<in> set (filter locatable us)" for u
    using that mset_eq_setD [OF assms(4)] assms(5) by (auto simp: schema_ok_def)
  have unlost: "counted us b n (inv s) (inv s)" if "\<not> n < ?sys"
    using that assms(4) by (simp add: counted_def)
  show ?thesis
  proof (cases "n = ?sys")
    case True
    have "triple (\<lambda>w. view w = Some s) (complete P t b n ?sys False) ?Q ?E"
      using last [of "inv s" False "[]"] unlost True by (simp add: count_events_def)
    then show ?thesis using True by (simp add: count_scope_def)
  next
    case False
    have part: "triple (\<lambda>w. view w = Some (s\<lparr>log := log s @ ms\<rparr>))
        (if GreaterThan n ?sys then complete P t b n ?sys True
         else andthen (markShortfallUnlocated P b (filter locatable us) (or_zero (q_Sub ?sys n)) t)
                (\<lambda>_. complete P t b n ?sys True)) ?Q ?E"
      if ms: "wire (DiscrepancyDetected t b n ?sys) (ress (inv s)) ms" for ms
    proof (cases "n < ?sys")
      case False
      have "triple (\<lambda>w. view w = Some (s\<lparr>inv := inv s, log := log s @ ms\<rparr>)) (complete P t b n ?sys True) ?Q ?E"
        by (rule last)
          (use unlost False \<open>n \<noteq> ?sys\<close> enqueued_append [OF enqueued_one [of wire, OF ms]] in
            \<open>simp_all add: count_events_def\<close>)
      then show ?thesis using False \<open>n \<noteq> ?sys\<close> by (simp add: GreaterThan_def)
    next
      case True
      have in64: "in64 (?sys - n)"
        using True assms(2) by (auto simp: in64_def system_quantity_def wrap64_def)
      then have short: "or_zero (q_Sub ?sys n) = ?sys - n" using True by (simp add: q_Sub_exact)
      have "triple (\<lambda>w. view w = Some (s\<lparr>inv := d', log := log s @ ms @ ns\<rparr>)) (complete P t b n ?sys True) ?Q ?E"
        if lost: "rewritten (map MarkUnlocated (lost_units (filter locatable us) (?sys - n))) (inv s) d'"
          "enqueued wire (lost_events t b (filter locatable us) (?sys - n)) (ress (inv s)) ns" for d' ns
      proof (rule last)
        show "counted us b n (inv s) d'" using True lost(1) assms(4) by (simp add: counted_def)
        show "ress d' = ress (inv s)" using rewritten_frame [OF lost(1)] by simp
        show "enqueued wire (count_events t us b n ?sys) (ress (inv s)) ((ms @ ns) @ ns')"
          if "enqueued wire [CycleCountCompleted t b n ?sys True] (ress (inv s)) ns'" for ns'
          using enqueued_append [OF enqueued_append [OF enqueued_one [of wire, OF ms] lost(2)] that] True
          by (simp add: count_events_def)
      qed (use True in simp)
      then show ?thesis
        using True unfolding short
        by (simp add: GreaterThan_def) (rule step_mark, use assms(1) True in64 q in auto)
    qed
    show ?thesis
      unfolding count_scope_def if_not_P [OF False]
      by (intro step_publish part) (use assms(1) in \<open>auto dest: fail_tx\<close>)
  qed
qed

lemma cycle_count:
  assumes "\<not> intx s" "0 \<le> n" "in64 n" "schema_ok (inv s)"
  shows "triple (\<lambda>w. view w = Some s) (RunCycleCount_Execute P b n)
    (\<lambda>r w. \<exists>us t d' ms. counted us b n (inv s) d' \<and>
       enqueued wire (count_events t us b n (system_quantity (inv s) b)) (ress (inv s)) ms \<and>
       r = \<lparr>cc_bin = b, cc_counted = n, cc_system = system_quantity (inv s) b,
            cc_discrepancy = (n \<noteq> system_quantity (inv s) b)\<rparr> \<and>
       view w = Some (s\<lparr>inv := d', log := log s @ ms\<rparr>))
    (\<lambda>_ w. view w = Some s)"
  unfolding RunCycleCount_Execute_def locatableUnits_eq Let_def prod.case
proof (rule step_stock_find_bin, rule step_now)
  fix us t
  assume us: "mset us = mset (filter (\<lambda>u. u_bin u = b) (units (inv s)))"
  let ?sys = "system_quantity (inv s) b"
  show "triple (\<lambda>w. view w = Some s)
      (andthen (atomically P (count_scope P t b n (wrap64 (total u_quantity (filter locatable us))) (filter locatable us)))
        (\<lambda>c. case c of Captured_count r \<Rightarrow> ret r
         | _ \<Rightarrow> ret \<lparr>cc_bin = '''', cc_counted = 0, cc_system = 0, cc_discrepancy = False\<rparr>))
      (\<lambda>r w. \<exists>us t d' ms. counted us b n (inv s) d' \<and>
         enqueued wire (count_events t us b n ?sys) (ress (inv s)) ms \<and>
         r = \<lparr>cc_bin = b, cc_counted = n, cc_system = ?sys, cc_discrepancy = (n \<noteq> ?sys)\<rparr> \<and>
         view w = Some (s\<lparr>inv := d', log := log s @ ms\<rparr>))
      (\<lambda>_ w. view w = Some s)"
    unfolding system_quantity_found [OF us]
  proof (rule step_atomically [OF assms(1)])
    show "triple (\<lambda>w. view w = Some (s\<lparr>intx := True\<rparr>)) (count_scope P t b n ?sys (filter locatable us))
      (\<lambda>c w. \<exists>s'. (\<exists>d' ms. counted us b n (inv s) d' \<and>
        enqueued wire (count_events t us b n ?sys) (ress (inv s)) ms \<and>
        c = Captured_count \<lparr>cc_bin = b, cc_counted = n, cc_system = ?sys, cc_discrepancy = (n \<noteq> ?sys)\<rparr> \<and>
        s' = s\<lparr>intx := True, inv := d', log := log s @ ms\<rparr>) \<and> intx s' \<and> view w = Some s')
      (\<lambda>_ w. \<exists>s'. view w = Some s' \<and> intx s')"
      using count_scope_triple [of "s\<lparr>intx := True\<rparr>" n us b t] assms us by simp
  next
    fix c s' assume "\<exists>d' ms. counted us b n (inv s) d' \<and>
        enqueued wire (count_events t us b n ?sys) (ress (inv s)) ms \<and>
        c = Captured_count \<lparr>cc_bin = b, cc_counted = n, cc_system = ?sys, cc_discrepancy = (n \<noteq> ?sys)\<rparr> \<and>
        s' = s\<lparr>intx := True, inv := d', log := log s @ ms\<rparr>"
    then obtain d' ms where s': "counted us b n (inv s) d'"
        "enqueued wire (count_events t us b n ?sys) (ress (inv s)) ms"
        "c = Captured_count \<lparr>cc_bin = b, cc_counted = n, cc_system = ?sys, cc_discrepancy = (n \<noteq> ?sys)\<rparr>"
        "s' = s\<lparr>intx := True, inv := d', log := log s @ ms\<rparr>" by blast
    have Q: "\<exists>us t d' ms. counted us b n (inv s) d' \<and>
         enqueued wire (count_events t us b n ?sys) (ress (inv s)) ms \<and>
         \<lparr>cc_bin = b, cc_counted = n, cc_system = ?sys, cc_discrepancy = (n \<noteq> ?sys)\<rparr> =
           \<lparr>cc_bin = b, cc_counted = n, cc_system = ?sys, cc_discrepancy = (n \<noteq> ?sys)\<rparr> \<and>
         view w = Some (s\<lparr>inv := d', log := log s @ ms\<rparr>)"
      if "view w = Some (s\<lparr>inv := d', log := log s @ ms\<rparr>)" for w
      using that s'(1,2) by blast
    show "triple (\<lambda>w. view w = Some (s'\<lparr>intx := False\<rparr>))
        (case c of Captured_count r \<Rightarrow> ret r
         | _ \<Rightarrow> ret \<lparr>cc_bin = '''', cc_counted = 0, cc_system = 0, cc_discrepancy = False\<rparr>)
        (\<lambda>r w. \<exists>us t d' ms. counted us b n (inv s) d' \<and>
         enqueued wire (count_events t us b n ?sys) (ress (inv s)) ms \<and>
         r = \<lparr>cc_bin = b, cc_counted = n, cc_system = ?sys, cc_discrepancy = (n \<noteq> ?sys)\<rparr> \<and>
         view w = Some (s\<lparr>inv := d', log := log s @ ms\<rparr>)) (\<lambda>_ w. view w = Some s)"
      unfolding s'(3) captured.case
      by (rule triple_ret, rule Q) (simp add: s'(4) assms(1))
  qed simp
qed simp

section \<open>RegisterBin, ClassifyProduct and the reads\<close>

lemma register:
  assumes "\<not> intx s" "schema_ok (inv s)"
  shows "triple (\<lambda>w. view w = Some s) (RegisterBin_Execute P i cap)
    (\<lambda>r w. \<exists>b out d'. r = Some (b, out) \<and> i \<noteq> '''' \<and> registered i cap (inv s) b out d' \<and>
       view w = Some (s\<lparr>inv := d'\<rparr>))
    (\<lambda>_ w. view w = Some s)"
proof -
  let ?R = "\<lambda>c s'. \<exists>b out d'. c = Captured_bin b out \<and> registered i cap (inv s) b out d' \<and>
    s' = s\<lparr>intx := True, inv := d'\<rparr>"
  have scope: "triple (\<lambda>w. view w = Some (s\<lparr>intx := True\<rparr>)) (register_scope P i cap)
      (\<lambda>a w. \<exists>s'. ?R a s' \<and> intx s' \<and> view w = Some s') (\<lambda>_ w. \<exists>s'. view w = Some s' \<and> intx s')"
    unfolding register_scope_def
  proof (rule step_loc_find, goal_cases)
    case 1
    show ?case
    proof (cases "find_row b_id i (bins (inv s))")
      case None
      then show ?thesis
        by (simp del: put_bin_sel, intro step_lift step_loc_save triple_ret)
          (auto simp: registered_def fail_tx)
    next
      case (Some b)
      then show ?thesis
        by (simp del: put_bin_sel, intro conjI impI step_lift step_loc_save triple_ret)
          (use assms(2) in \<open>auto simp: registered_def fail_tx\<close>)
    qed
  qed auto
  show ?thesis
    unfolding RegisterBin_Execute_def
    by (intro triple_if triple_throw step_atomically [OF assms(1) scope])
      (use assms(1) in \<open>auto intro!: triple_ret\<close>)
qed

lemma classify:
  assumes "\<not> intx s" "p_classifications P = Some cr"
  shows "triple (\<lambda>w. view w = Some s) (ClassifyProduct_Execute cr P sk tags tc dot)
    (\<lambda>c w. \<exists>t ms. NewClassification sk tags tc dot = Inr c \<and> schema_ok (put_class c (inv s)) \<and>
       enqueued wire [NewProductClassified c t] (ress (inv s)) ms \<and>
       view w = Some (s\<lparr>inv := put_class c (inv s), log := log s @ ms\<rparr>))
    (\<lambda>_ w. view w = Some s)"
  unfolding ClassifyProduct_Execute_def
proof (rule step_lift, rule step_now)
  fix c t assume c: "NewClassification sk tags tc dot = Inr c"
  let ?R = "\<lambda>_ s'. \<exists>ms. schema_ok (put_class c (inv s)) \<and>
    enqueued wire [NewProductClassified c t] (ress (inv s)) ms \<and>
    s' = s\<lparr>intx := True, inv := put_class c (inv s), log := log s @ ms\<rparr>"
  show "triple (\<lambda>w. view w = Some s)
      (andthen (atomically P (uncaptured (andthen (cr_save cr c) (\<lambda>_. p_publish P (NewProductClassified c t)))))
        (\<lambda>_. ret c))
      (\<lambda>c w. \<exists>t ms. NewClassification sk tags tc dot = Inr c \<and> schema_ok (put_class c (inv s)) \<and>
         enqueued wire [NewProductClassified c t] (ress (inv s)) ms \<and>
         view w = Some (s\<lparr>inv := put_class c (inv s), log := log s @ ms\<rparr>))
      (\<lambda>_ w. view w = Some s)"
  proof (rule step_atomically [OF assms(1), where R = ?R])
    show "triple (\<lambda>w. view w = Some (s\<lparr>intx := True\<rparr>))
        (uncaptured (andthen (cr_save cr c) (\<lambda>_. p_publish P (NewProductClassified c t))))
        (\<lambda>a w. \<exists>s'. ?R a s' \<and> intx s' \<and> view w = Some s') (\<lambda>_ w. \<exists>s'. view w = Some s' \<and> intx s')"
      unfolding uncaptured_def andthen_assoc
      by (rule step_class_save [OF assms(2) NewClassification_ok(2) [OF c]], rule step_publish, rule triple_ret)
        (use view_schema in \<open>fastforce intro: enqueued_one dest: fail_tx\<close>)+
  qed (use c assms(1) in \<open>auto intro!: triple_ret\<close>)
qed simp

lemma get_bin:
  "triple (\<lambda>w. view w = Some s) (GetBin_Execute P i)
    (\<lambda>b w. view w = Some s \<and> find_row b_id i (bins (inv s)) = Some b)
    (\<lambda>_ w. view w = Some s)"
  unfolding GetBin_Execute_def
  by (intro triple_if triple_throw step_loc_find triple_option triple_ret) auto

lemma get_usable:
  "triple (\<lambda>w. view w = Some s) (GetUsable_Execute P sk)
    (\<lambda>r w. view w = Some s \<and> r = \<lparr>ui_sku = sk,
       ui_usable = wrap64 (total (\<lambda>u. if u_sku u = sk then Usable u else 0) (units (inv s)))\<rparr>)
    (\<lambda>_ w. view w = Some s)"
  unfolding GetUsable_Execute_def
proof (rule step_stock_find_sku, rule triple_ret)
  fix us w assume us: "mset us = mset (filter (\<lambda>u. u_sku u = sk) (units (inv s)))" and w: "view w = Some s"
  have "total Usable us = total (\<lambda>u. if u_sku u = sk then Usable u else 0) (units (inv s))"
    using total_mset [OF us, of Usable] by (simp add: total_filter)
  then show "view w = Some s \<and> \<lparr>ui_sku = sk, ui_usable = foldl (\<lambda>t u. q_Add t (Usable u)) 0 us\<rparr> =
      \<lparr>ui_sku = sk, ui_usable = wrap64 (total (\<lambda>u. if u_sku u = sk then Usable u else 0) (units (inv s)))\<rparr>"
    using usable_sum_wrap [of us] w by (simp add: usable_sum_def)
qed simp



section \<open>ReserveStock\<close>

text \<open>The lookup for a replay, with both of its results.\<close>

lemma step_active:
  assumes "\<not> intx s" "schema_ok (inv s)"
    and replay: "\<And>s' r. expires\<^sup>*\<^sup>* (inv s) (inv s') \<Longrightarrow> \<not> intx s' \<Longrightarrow> same_terms (inv s) (inv s') \<Longrightarrow>
      schema_ok (inv s') \<Longrightarrow> stored (inv s') r \<Longrightarrow> r_demandRef r = ref \<Longrightarrow> isReplayOf r sk q \<Longrightarrow>
      r_status r = StatusActive \<Longrightarrow> \<exists>t. \<not> IsExpired r t \<Longrightarrow> triple (\<lambda>w. view w = Some s') (f (Some r)) Q E"
    and fresh: "\<And>s'. expires\<^sup>*\<^sup>* (inv s) (inv s') \<Longrightarrow> \<not> intx s' \<Longrightarrow> same_terms (inv s) (inv s') \<Longrightarrow>
      schema_ok (inv s') \<Longrightarrow> unclaimed ref sk q (inv s') \<Longrightarrow> triple (\<lambda>w. view w = Some s') (f None) Q E"
    and err: "\<And>s' e w. expires\<^sup>*\<^sup>* (inv s) (inv s') \<Longrightarrow> \<not> intx s' \<Longrightarrow> same_terms (inv s) (inv s') \<Longrightarrow>
      view w = Some s' \<Longrightarrow> E e w"
  shows "triple (\<lambda>w. view w = Some s) (andthen (activeReservationFor P ref sk q) f) Q E"
  unfolding activeReservationFor_def andthen_assoc
proof (rule step_res_find_demand)
  fix xs rows
  assume found: "mset rows = mset (filter (\<lambda>r. rr_demandRef r = ref) (ress (inv s)))"
    "list_all2 (loads (inv s)) rows xs"
  note f = found_demand [OF found assms(2)]
  have reached: "expires\<^sup>*\<^sup>* (inv s) (inv s') \<and> \<not> intx s' \<and> same_terms (inv s) (inv s')"
    if "settled_all wire s rs s' rs'" for rs s' rs'
    using settled_all_expires [OF that] settled_all_intx [OF that] settled_all_same_terms [OF that] assms(1) by simp
  have schema: "schema_ok (inv s')" if "settled_all wire s rs s' rs'" for rs s' rs'
    using that assms(2) by (induction rule: settled_all.induct) (auto dest: settled_schema)
  show "triple (\<lambda>w. view w = Some s)
      (andthen (expireAllIfDue P xs) (\<lambda>x. andthen (ret (List.find
        (\<lambda>res. r_status res = StatusActive \<and> isReplayOf res sk q) x)) f)) Q E"
  proof (rule step_expire_all [OF assms(1,2) f(1,2)], assumption)
    fix s' rs' assume all: "settled_all wire s xs s' rs'"
    then have up: "looked_up wire s ref s' rs'" using found by (auto simp: looked_up_def)
    note r = reached [OF all] and sch = schema [OF all]
    show "triple (\<lambda>w. view w = Some s')
        (andthen (ret (List.find (\<lambda>res. r_status res = StatusActive \<and> isReplayOf res sk q) rs')) f) Q E"
    proof (cases "List.find (\<lambda>res. r_status res = StatusActive \<and> isReplayOf res sk q) rs'")
      case None
      then have "unclaimed ref sk q (inv s')"
        using looked_up_none [OF up assms(2)] by (auto simp: find_None_iff)
      then show ?thesis using fresh r sch None by simp
    next
      case (Some x)
      then have x: "x \<in> set rs'" "r_status x = StatusActive" "isReplayOf x sk q"
        by (auto simp: find_Some_iff)
      then show ?thesis
        using replay [of s' x] r sch looked_up_active [OF up assms(2) x(1,2)] Some by simp
    qed
  next
    fix n s' rs' e w assume "settled_all wire s (take n xs) s' rs'" "view w = Some s'"
    then show "E e w" using err reached by blast
  qed
next
  fix e w assume "view w = Some s"
  then show "E e w" using err [of s] assms(1) same_terms_refl by blast
qed

text \<open>What a call of ReserveStock may leave behind when it returns an error.\<close>

lemma reserve:
  assumes "\<not> intx s" "schema_ok (inv s)"
  shows "triple (\<lambda>w. view w = Some s) (ReserveStock_Execute P sk q ref)
    (\<lambda>r w. 0 < q \<and> (\<exists>s'. expires\<^sup>*\<^sup>* (inv s) (inv s') \<and> \<not> intx s' \<and> same_terms (inv s) (inv s') \<and>
       (view w = Some s' \<and> stored (inv s') r \<and> r_status r = StatusActive \<and> r_demandRef r = ref \<and>
          isReplayOf r sk q \<and> (\<exists>t. \<not> IsExpired r t) \<or>
        (\<exists>d' t ms. unclaimed ref sk q (inv s') \<and> reserved_new sk q ref (inv s') r d' \<and>
          r_createdAt r = t \<and>
          r_expiresAt r = t + (if p_timeout P \<le> 0 then DefaultReservationTimeout else p_timeout P) \<and>
          enqueued wire [StockReserved t (r_id r) sk q ref] (ress d') ms \<and>
          view w = Some (s'\<lparr>inv := d', log := log s' @ ms\<rparr>)))))
    (\<lambda>_ w. \<exists>s'. expires\<^sup>*\<^sup>* (inv s) (inv s') \<and> same_terms (inv s) (inv s') \<and>
       (view w = Some s' \<and> \<not> intx s' \<or>
        (\<exists>s''. 0 < q \<and> view w = Some s'' \<and> \<not> intx s'' \<and> stranded sk q (inv s') (inv s''))))"
    (is "triple _ _ ?Q ?E")
  unfolding ReserveStock_Execute_def
proof (rule triple_if)
  assume "q \<le> 0"
  then show "triple (\<lambda>w. view w = Some s) (throw (SharedErr ErrZeroQuantity)) ?Q ?E"
    using assms(1) same_terms_refl by (intro triple_throw) blast
next
  assume "\<not> q \<le> 0"
  then have q: "0 < q" by simp
  let ?timeout = "if p_timeout P \<le> 0 then DefaultReservationTimeout else p_timeout P"
  have draws: "triple (\<lambda>w. view w = Some s')
      (andthen (sr_find_sku (p_stock P) sk) (\<lambda>us.
       andthen (lift (allocate us q)) (\<lambda>(allocations, touched).
       andthen (each (sr_save (p_stock P)) touched) (\<lambda>_.
       andthen (rr_next (p_reservations P)) (\<lambda>ident.
       andthen (now P) (\<lambda>t.
       andthen (lift (NewReservation ident sk q ref allocations t ?timeout)) (\<lambda>res.
       andthen (atomically P (uncaptured (reserve_scope P res t))) (\<lambda>_.
       andthen (created_metric P) (\<lambda>_. ret res))))))))) ?Q ?E"
    if s': "expires\<^sup>*\<^sup>* (inv s) (inv s')" "\<not> intx s'" "same_terms (inv s) (inv s')" "unclaimed ref sk q (inv s')" for s'
  proof (rule step_stock_find_sku, rule step_lift)
    fix us al
    assume us: "mset us = mset (filter (\<lambda>u. u_sku u = sk) (units (inv s')))" and al: "allocate us q = Inr al"
    obtain as ts where ats: "al = (as, ts)" by force
    have strand: "?E e w" if "view w = Some s''" "\<not> intx s''" "rewritten (take n ts) (inv s') (inv s'')" for e w s'' n
      using that s' us al ats q unfolding stranded_def by blast
    have failed: "?E e w" if f: "failed s'' w" "\<not> intx s''" "rewritten (take n ts) (inv s') (inv s'')" for e w s'' n
      using fail_out [OF f(1,2)] strand f(3) by (metis (no_types, lifting))
    show "triple (\<lambda>w. view w = Some s')
        (case al of (allocations, touched) \<Rightarrow>
          andthen (each (sr_save (p_stock P)) touched) (\<lambda>_.
          andthen (rr_next (p_reservations P)) (\<lambda>ident.
          andthen (now P) (\<lambda>t.
          andthen (lift (NewReservation ident sk q ref allocations t ?timeout)) (\<lambda>res.
          andthen (atomically P (uncaptured (reserve_scope P res t))) (\<lambda>_.
          andthen (created_metric P) (\<lambda>_. ret res))))))) ?Q ?E"
      unfolding ats prod.case
    proof (rule step_saves)
      fix d1 assume d1: "rewritten ts (inv s') d1"
      let ?s1 = "s'\<lparr>inv := d1\<rparr>"
      have all: "rewritten (take (length ts) ts) (inv s') (inv ?s1)" using d1 by simp
      have err: "?E e w" if "view w = Some ?s1" for e w
        using strand [OF that _ all] s'(2) by simp
      show "triple (\<lambda>w. view w = Some ?s1)
          (andthen (rr_next (p_reservations P)) (\<lambda>ident.
           andthen (now P) (\<lambda>t.
           andthen (lift (NewReservation ident sk q ref as t ?timeout)) (\<lambda>res.
           andthen (atomically P (uncaptured (reserve_scope P res t))) (\<lambda>_.
           andthen (created_metric P) (\<lambda>_. ret res)))))) ?Q ?E"
      proof (rule step_res_next, rule step_now, rule step_lift)
        fix i t r
        assume i: "i \<notin> rr_id ` set (ress (inv ?s1))" and r: "NewReservation i sk q ref as t ?timeout = Inr r"
        have fields: "r_id r = i" "r_sku r = sk" "r_quantity r = q" "r_demandRef r = ref" "r_allocations r = as"
          "r_status r = StatusActive" "r_version r = 1" "r_createdAt r = t" "r_expiresAt r = t + ?timeout"
          using r by (auto simp: NewReservation_def split: if_splits)
        let ?R = "\<lambda>_ x. \<exists>v ms. schema_ok (put_res v r d1) \<and>
          enqueued wire [StockReserved t i sk q ref] (ress (put_res v r d1)) ms \<and>
          x = s'\<lparr>inv := put_res v r d1, log := log s' @ ms, intx := True\<rparr>"
        have new: "reserved_new sk q ref (inv s') r (put_res v r d1)" if "schema_ok (put_res v r d1)" for v
          using that us al ats d1 i rewritten_frame [OF d1] fields unfolding reserved_new_def by auto
        show "triple (\<lambda>w. view w = Some ?s1)
            (andthen (atomically P (uncaptured (reserve_scope P r t))) (\<lambda>_.
             andthen (created_metric P) (\<lambda>_. ret r))) ?Q ?E"
        proof (rule step_atomically [where R = ?R])
          show "triple (\<lambda>w. view w = Some (?s1\<lparr>intx := True\<rparr>)) (uncaptured (reserve_scope P r t))
              (\<lambda>a w. \<exists>s'. ?R a s' \<and> intx s' \<and> view w = Some s') (\<lambda>_ w. \<exists>s'. view w = Some s' \<and> intx s')"
            unfolding uncaptured_def reserve_scope_def andthen_assoc
            apply (intro step_res_save step_publish triple_ret)
            using fields by (auto simp: fail_tx intro!: exI intro: enqueued_one)
        next
          fix a x assume "?R a x"
          then obtain v ms where x: "schema_ok (put_res v r d1)"
              "enqueued wire [StockReserved t i sk q ref] (ress (put_res v r d1)) ms"
              "x = s'\<lparr>inv := put_res v r d1, log := log s' @ ms, intx := True\<rparr>" by blast
          have Q: "?Q r w" if "view w = Some (s'\<lparr>inv := put_res v r d1, log := log s' @ ms\<rparr>)" for w
            using q s' new [OF x(1)] x(2) fields that by blast
          show "triple (\<lambda>w. view w = Some (x\<lparr>intx := False\<rparr>)) (andthen (created_metric P) (\<lambda>_. ret r)) ?Q ?E"
            by (intro step_metric(1) triple_ret, rule Q) (simp add: x(3) s'(2))
        qed (use s'(2) err in auto)
      qed (use err in auto)
    next
      fix n d' e w assume "rewritten (take n ts) (inv s') d'" "failed (s'\<lparr>inv := d'\<rparr>) w"
      then show "?E e w" using failed [of "s'\<lparr>inv := d'\<rparr>" w n] s'(2) by simp
    qed
  qed (use s' in blast)+
  show "triple (\<lambda>w. view w = Some s)
      (andthen (activeReservationFor P ref sk q) (\<lambda>replay. case replay of
         Some res \<Rightarrow> ret res
       | None \<Rightarrow>
           andthen (sr_find_sku (p_stock P) sk) (\<lambda>us.
           andthen (lift (allocate us q)) (\<lambda>(allocations, touched).
           andthen (each (sr_save (p_stock P)) touched) (\<lambda>_.
           andthen (rr_next (p_reservations P)) (\<lambda>ident.
           andthen (now P) (\<lambda>t.
           andthen (lift (NewReservation ident sk q ref allocations t ?timeout)) (\<lambda>res.
           andthen (atomically P (uncaptured (reserve_scope P res t))) (\<lambda>_.
           andthen (created_metric P) (\<lambda>_. ret res)))))))))) ?Q ?E"
  proof (rule step_active [OF assms], goal_cases)
    case (1 s' r)
    then show ?case using q by (simp only: option.case) (rule triple_ret, blast)
  next
    case (2 s')
    then show ?case by (simp only: option.case) (rule draws)
  next
    case (3 s' e w)
    then show ?case by blast
  qed
qed

end

end
