(* ===== verification/Service.thy ===== *)
theory Service
  imports UseCaseProofs
begin

text \<open>
  The use cases as the commands of one service, and the invariant of the inventory over every sequence
  of them, whichever of their calls fail.
\<close>

datatype command =
  Receive sku quantity | Stow sku quantity bin_id | Reserve_stock sku quantity string
| Revoke_reservation string | Confirm_pick string | Run_cycle_count bin_id quantity
| Register_bin bin_id quantity | Classify sku "handling_tag list" temperature_class dot_class
| Get_bin bin_id | Get_usable sku | Get_by_demand string

text \<open>The result of a use case does not matter to the commands that follow.\<close>

definition discard :: "('w, err, 'a) prog \<Rightarrow> ('w, err, unit) prog" where
  "discard m = andthen m (\<lambda>_. ret ())"

fun run_command :: "'w ports \<Rightarrow> command \<Rightarrow> ('w, err, unit) prog" where
  "run_command P (Receive sk q) = discard (ReceiveStock_Execute P sk q)"
| "run_command P (Stow sk q b) = discard (StowStock_Execute P sk q b)"
| "run_command P (Reserve_stock sk q ref) = discard (ReserveStock_Execute P sk q ref)"
| "run_command P (Revoke_reservation i) = RevokeReservation_Execute P i"
| "run_command P (Confirm_pick i) = ConfirmPick_Execute P i"
| "run_command P (Run_cycle_count b n) = discard (RunCycleCount_Execute P b n)"
| "run_command P (Register_bin i cap) = discard (RegisterBin_Execute P i cap)"
| "run_command P (Classify sk tags tc dot) =
     (case p_classifications P of
        None \<Rightarrow> ret ()
      | Some cr \<Rightarrow> discard (ClassifyProduct_Execute cr P sk tags tc dot))"
| "run_command P (Get_bin i) = discard (GetBin_Execute P i)"
| "run_command P (Get_usable sk) = discard (GetUsable_Execute P sk)"
| "run_command P (Get_by_demand ref) = discard (GetReservationsByDemandRef_Execute P ref)"

text \<open>The quantities of a command are Go integers, and the count is a Quantity, so not negative.\<close>

fun command_ok :: "command \<Rightarrow> bool" where
  "command_ok (Reserve_stock sk q ref) = in64 q"
| "command_ok (Run_cycle_count b n) = (0 \<le> n \<and> in64 n)"
| "command_ok _ = True"

lemma triple_discard: "triple P m (\<lambda>_. Q) E \<Longrightarrow> triple P (discard m) (\<lambda>_. Q) E"
  unfolding discard_def by (rule triple_andthen) (auto intro: triple_ret)

inductive reach :: "'w ports \<Rightarrow> 'w \<Rightarrow> 'w \<Rightarrow> bool" for P where
  reach_init: "reach P w w"
| reach_step: "reach P w w' \<Longrightarrow> command_ok c \<Longrightarrow> reach P w (snd (run_command P c w'))"

context inventory_ports
begin

definition sound :: "'w \<Rightarrow> bool" where
  "sound w \<longleftrightarrow> (\<exists>s. view w = Some s \<and> \<not> intx s \<and> books_ok (inv s))"

lemma soundI: "view w = Some s \<Longrightarrow> \<not> intx s \<Longrightarrow> books_ok (inv s) \<Longrightarrow> sound w"
  by (auto simp: sound_def)

lemma sound_triple:
  assumes "\<And>s. \<not> intx s \<Longrightarrow> books_ok (inv s) \<Longrightarrow> triple (\<lambda>w. view w = Some s) m (\<lambda>_. sound) (\<lambda>_. sound)"
  shows "triple sound m (\<lambda>_. sound) (\<lambda>_. sound)"
  unfolding sound_def [abs_def, of] using assms
  by (intro tripleI) (auto simp: sound_def [abs_def] dest: tripleR tripleL)

lemma settled_all_books:
  "settled_all wire s rs s' rs' \<Longrightarrow> books_ok (inv s) \<Longrightarrow> books_ok (inv s')"
  using settled_all_expires settled_all_same_terms books_ok_expires by blast

lemma command_keeps:
  assumes "command_ok c"
  shows "triple sound (run_command P c) (\<lambda>_. sound) (\<lambda>_. sound)"
proof (rule sound_triple)
  fix s :: "'m snapshot" assume s: "\<not> intx s" "books_ok (inv s)"
  have same: "sound w" if "view w = Some s" for w by (rule soundI [OF that s])
  have moved: "sound w" if "view w = Some (s\<lparr>inv := d', log := l\<rparr>)" "books_ok d'" for w d' l
    by (rule soundI [OF that(1)]) (use s that(2) in simp_all)
  have over: "sound w" if "overdue wire s i e s'" "view w = Some s'" for i e s' w
    using that moved books_ok_returned [OF _ _ s(2), of StatusExpired] by (fastforce simp: overdue_def)
  note schema = books_ok_schema [OF s(2)]
  show "triple (\<lambda>w. view w = Some s) (run_command P c) (\<lambda>_. sound) (\<lambda>_. sound)"
  proof (cases c)
    case (Receive sk q)
    show ?thesis unfolding Receive run_command.simps
      by (rule triple_discard, rule triple_weaken [OF receive [OF s(1)]])
        (use s same in \<open>auto intro: soundI\<close>)
  next
    case (Stow sk q b)
    show ?thesis unfolding Stow run_command.simps
      by (rule triple_discard, rule triple_weaken [OF stow [OF s(1)]])
        (use same moved books_ok_stowed s(2) in auto)
  next
    case (Reserve_stock sk q ref)
    have q: "in64 q" using assms by (simp add: Reserve_stock)
    show ?thesis unfolding Reserve_stock run_command.simps
    proof (rule triple_discard, rule triple_weaken [OF reserve [OF s(1) schema]], goal_cases)
      case (2 r w)
      then obtain s' where s': "expires\<^sup>*\<^sup>* (inv s) (inv s')" "\<not> intx s'" "same_terms (inv s) (inv s')" "0 < q"
          "view w = Some s' \<or> (\<exists>d' ms. unclaimed ref sk q (inv s') \<and> reserved_new sk q ref (inv s') r d' \<and>
             view w = Some (s'\<lparr>inv := d', log := log s' @ ms\<rparr>))" by blast
      note b = books_ok_expires [OF s'(1,3) s(2)]
      from s'(5) show ?case
      proof
        assume "view w = Some s'"
        then show ?thesis using s'(2) b by (rule soundI)
      next
        assume "\<exists>d' ms. unclaimed ref sk q (inv s') \<and> reserved_new sk q ref (inv s') r d' \<and>
             view w = Some (s'\<lparr>inv := d', log := log s' @ ms\<rparr>)"
        then show ?thesis using s'(2) books_ok_reserved [OF _ _ s'(4) q b] by (auto intro: soundI)
      qed
    next
      case (3 e w)
      then obtain s' where s': "expires\<^sup>*\<^sup>* (inv s) (inv s')" "same_terms (inv s) (inv s')"
          "view w = Some s' \<and> \<not> intx s' \<or> (\<exists>s''. 0 < q \<and> view w = Some s'' \<and> \<not> intx s'' \<and>
             stranded sk q (inv s') (inv s''))" by blast
      note b = books_ok_expires [OF s'(1,2) s(2)]
      from s'(3) show ?case using b books_ok_stranded [OF _ _ q b] by (auto intro: soundI)
    qed
  next
    case (Revoke_reservation i)
    show ?thesis unfolding Revoke_reservation run_command.simps
      by (rule triple_weaken [OF revoke [OF s(1)]])
        (use same moved over books_ok_returned s(2) in auto)
  next
    case (Confirm_pick i)
    show ?thesis unfolding Confirm_pick run_command.simps
      by (rule triple_weaken [OF confirm [OF s(1)]])
        (use same moved over books_ok_taken s(2) in auto)
  next
    case (Run_cycle_count b n)
    then have n: "0 \<le> n" "in64 n" using assms by simp_all
    show ?thesis unfolding Run_cycle_count run_command.simps
      by (rule triple_discard, rule triple_weaken [OF cycle_count [OF s(1) n schema]])
        (use same moved books_ok_counted s(2) in auto)
  next
    case (Register_bin i cap)
    have "sound w" if "view w = Some (s\<lparr>inv := d'\<rparr>)" "books_ok d'" for w d'
      by (rule soundI [OF that(1)]) (use s that(2) in simp_all)
    then show ?thesis unfolding Register_bin run_command.simps
      by (intro triple_discard, intro triple_weaken [OF register [OF s(1) schema]])
        (use same books_ok_registered s(2) in auto)
  next
    case (Classify sk tags tc dot)
    show ?thesis
    proof (cases "p_classifications P")
      case None
      then show ?thesis unfolding Classify by (auto intro: triple_ret same)
    next
      case (Some cr)
      show ?thesis unfolding Classify run_command.simps Some option.case
        by (rule triple_discard, rule triple_weaken [OF classify [OF s(1) Some]])
          (use same moved books_ok_classified s(2) in auto)
    qed
  next
    case (Get_bin i)
    show ?thesis unfolding Get_bin run_command.simps
      by (rule triple_discard, rule triple_weaken [OF get_bin]) (use same in auto)
  next
    case (Get_usable sk)
    show ?thesis unfolding Get_usable run_command.simps
      by (rule triple_discard, rule triple_weaken [OF get_usable]) (use same in auto)
  next
    case (Get_by_demand ref)
    have "sound w" if "settled_all wire s rs s' rs'" "view w = Some s'" for rs s' rs' w
      by (rule soundI [OF that(2)]) (use settled_all_intx [OF that(1)] settled_all_books [OF that(1)] s in auto)
    then show ?thesis unfolding Get_by_demand run_command.simps
      by (intro triple_discard, intro triple_weaken [OF by_demand [OF s(1) schema]])
        (auto simp: looked_up_def)
  qed
qed

lemma reach_sound: "reach P w w' \<Longrightarrow> sound w \<Longrightarrow> sound w'"
proof (induction rule: reach.induct)
  case (reach_step w w' c)
  then have "sound w'" by blast
  with command_keeps [OF reach_step.hyps(2)] show ?case
    by (cases "run_command P c w'"; cases "fst (run_command P c w')") (auto dest: tripleR tripleL)
qed

end

end
