(* ===== verification/CloudEvents.thy ===== *)
theory CloudEvents
  imports UseCaseRules
begin

text \<open>
  internal/adapters/kafka/cloudevents and internal/adapters/outbound/kafka: the CloudEvents envelope
  and the two encoders that turn a domain event into the messages of its topic. The CloudEvents SDK
  and encoding/json are not part of the repository: \<open>sdk\<close> holds what the code calls of them.
\<close>

section \<open>The envelope\<close>

datatype json = JString string | JInt int | JBool bool

record cloud_event =
  ce_specversion :: string
  ce_id :: string
  ce_source :: string
  ce_type :: string
  ce_subject :: string
  ce_time :: time
  ce_dataschema :: string
  ce_data :: "(string \<times> json) list"

record sdk =
  sdk_marshal :: "cloud_event \<Rightarrow> string result"
  sdk_unmarshal :: "string \<Rightarrow> cloud_event option"
  sdk_valid :: "cloud_event \<Rightarrow> bool"

text \<open>Decimal notation, for \<open>%d\<close>.\<close>

fun digits :: "nat \<Rightarrow> string" where
  "digits n = (if n < 10 then [char_of (48 + n)] else digits (n div 10) @ [char_of (48 + n mod 10)])"

declare digits.simps [simp del]

definition itoa :: "int \<Rightarrow> string" where
  "itoa i = (if i < 0 then ''-'' @ digits (nat (- i)) else digits (nat i))"

definition Repo :: string where "Repo = ''inventory-storage''"
definition Subdomain :: string where "Subdomain = ''wms''"
definition Context :: string where "Context = ''inventory-storage''"
definition Source :: string where "Source = ''/warehouse/'' @ Repo"
definition SpecVersion :: string where "SpecVersion = ''1.0''"
definition MediaType :: string where "MediaType = ''application/cloudevents+json; charset=UTF-8''"
definition StreamEvents :: string where "StreamEvents = ''events''"
definition StreamAnalytics :: string where "StreamAnalytics = ''analytics''"

definition ce_Type :: "string \<Rightarrow> string \<Rightarrow> string" where
  "ce_Type entity eventName =
     ''com.warehouse.'' @ Subdomain @ ''.'' @ Context @ ''.'' @ entity @ ''.'' @ eventName"

definition DataSchema :: "string \<Rightarrow> string \<Rightarrow> int \<Rightarrow> string" where
  "DataSchema stream eventName version =
     ''urn:warehouse:'' @ Repo @ '':'' @ stream @ '':'' @ eventName @ '':v'' @ itoa version"

record spec =
  sp_id :: string
  sp_entity :: string
  sp_eventName :: string
  sp_subject :: string
  sp_time :: time
  sp_stream :: string
  sp_version :: int
  sp_data :: "(string \<times> json) list"

definition spec_event :: "spec \<Rightarrow> cloud_event" where
  "spec_event s =
     (let version = (if sp_version s < 1 then 1 else sp_version s)
      in \<lparr>ce_specversion = SpecVersion, ce_id = sp_id s, ce_source = Source,
          ce_type = ce_Type (sp_entity s) (sp_eventName s), ce_subject = sp_subject s,
          ce_time = sp_time s, ce_dataschema = DataSchema (sp_stream s) (sp_eventName s) version,
          ce_data = sp_data s\<rparr>)"

definition ce_New :: "sdk \<Rightarrow> spec \<Rightarrow> string result" where
  "ce_New K s =
     (if sp_subject s = '''' then Inl (InfraErr ''cloudevents: empty subject'')
      else if \<not> sdk_valid K (spec_event s) then Inl (InfraErr ''cloudevents: invalid event'')
      else sdk_marshal K (spec_event s))"

definition ContentTypeHeader :: "string \<times> string" where
  "ContentTypeHeader = (''content-type'', MediaType)"

definition ce_Decode :: "sdk \<Rightarrow> string \<Rightarrow> cloud_event result" where
  "ce_Decode K value =
     (case sdk_unmarshal K value of
        None \<Rightarrow> Inl NotCloudEvent
      | Some e \<Rightarrow>
          if ce_specversion e \<noteq> SpecVersion then Inl NotCloudEvent
          else if \<not> sdk_valid K e then Inl NotCloudEvent
          else Inr e)"

text \<open>The SDK reads back what it wrote.\<close>

definition sdk_ok :: "sdk \<Rightarrow> bool" where
  "sdk_ok K \<longleftrightarrow> (\<forall>e v. sdk_marshal K e = Inr v \<longrightarrow> sdk_unmarshal K v = Some e)"

lemma Decode_New: "sdk_ok K \<Longrightarrow> ce_New K s = Inr v \<Longrightarrow> ce_Decode K v = Inr (spec_event s)"
  by (auto simp: ce_New_def ce_Decode_def sdk_ok_def spec_event_def Let_def split: if_splits)

lemma ce_New_subject: "ce_New K s = Inr v \<Longrightarrow> sp_subject s \<noteq> ''''"
  by (auto simp: ce_New_def)

section \<open>Encoded messages\<close>

record encoded =
  e_topic :: string
  e_eventType :: string
  e_key :: string
  e_value :: string
  e_headers :: "(string \<times> string) list"

text \<open>\<open>EventType\<close> is the \<open>type\<close> of the event in the value; a consumer partitions by the key.\<close>

definition message_of :: "sdk \<Rightarrow> string \<Rightarrow> encoded \<Rightarrow> cloud_event \<Rightarrow> bool" where
  "message_of K topic m e \<longleftrightarrow> sdk_marshal K e = Inr (e_value m) \<and> sdk_valid K e \<and> e_topic m = topic \<and>
     e_eventType m = ce_type e \<and> ce_subject e \<noteq> '''' \<and> (\<exists>hs. e_headers m = ContentTypeHeader # hs)"

text \<open>
  What an encoder needs of the outside: identifiers (\<open>NewID\<close> or \<open>uuid.NewString\<close>), the headers that
  OpenTelemetry injects, and the lookup of a reservation.
\<close>

record 'w publisher_deps =
  pd_newID :: "'w \<Rightarrow> string \<times> 'w"
  pd_inject :: "'w \<Rightarrow> (string \<times> string) list"
  pd_find :: "string \<Rightarrow> ('w, err, reservation option) prog"

definition new_id :: "'w publisher_deps \<Rightarrow> ('w, err, string) prog" where
  "new_id D = (\<lambda>w. let (i, w') = pd_newID D w in (Inr i, w'))"

definition trace_headers :: "'w publisher_deps \<Rightarrow> ('w, err, (string \<times> string) list) prog" where
  "trace_headers D = (\<lambda>w. (Inr (pd_inject D w), w))"

section \<open>The integration publisher\<close>

definition IntegrationTopic :: string where "IntegrationTopic = ''warehouse.inventory.events''"
definition reservationEntity :: string where "reservationEntity = ''reservation''"

definition reservationData :: "sku \<Rightarrow> quantity \<Rightarrow> string \<Rightarrow> (string \<times> json) list" where
  "reservationData sk qty ref =
     [(''sku'', JString sk), (''quantity'', JInt qty), (''demand_ref'', JString ref)]"

fun isIntegrationEvent :: "domain_event \<Rightarrow> bool" where
  "isIntegrationEvent (StockReserved _ _ _ _ _) = True"
| "isIntegrationEvent (ReservationRevoked _ _) = True"
| "isIntegrationEvent _ = False"

text \<open>The switch of \<open>Publisher.Encode\<close>: the payload and the key, or nothing.\<close>

fun integration_payload ::
  "'w publisher_deps \<Rightarrow> domain_event \<Rightarrow> ('w, err, ((string \<times> json) list \<times> string) option) prog" where
  "integration_payload D (StockReserved t rid sk qty ref) = ret (Some (reservationData sk qty ref, rid))"
| "integration_payload D (ReservationRevoked t rid) =
     andthen (pd_find D rid) (\<lambda>found.
     case found of
       None \<Rightarrow> throw PublisherReservationNotFound
     | Some res \<Rightarrow> ret (Some (reservationData (r_sku res) (r_quantity res) (r_demandRef res), rid)))"
| "integration_payload D _ = ret None"

definition integration_spec :: "(string \<times> json) list \<Rightarrow> string \<Rightarrow> domain_event \<Rightarrow> string \<Rightarrow> spec" where
  "integration_spec dat key event ident =
     \<lparr>sp_id = ident, sp_entity = reservationEntity, sp_eventName = EventName event,
      sp_subject = key, sp_time = OccurredAt event, sp_stream = StreamEvents, sp_version = 1, sp_data = dat\<rparr>"

definition Publisher_Encode :: "sdk \<Rightarrow> 'w publisher_deps \<Rightarrow> domain_event \<Rightarrow> ('w, err, encoded list) prog" where
  "Publisher_Encode K D event =
     andthen (integration_payload D event) (\<lambda>payload.
     case payload of
       None \<Rightarrow> ret []
     | Some (dat, key) \<Rightarrow>
         andthen (new_id D) (\<lambda>ident.
         andthen (lift (ce_New K (integration_spec dat key event ident))) (\<lambda>msg.
         andthen (trace_headers D) (\<lambda>hs.
         ret [\<lparr>e_topic = IntegrationTopic, e_eventType = ce_Type reservationEntity (EventName event),
               e_key = key, e_value = msg, e_headers = ContentTypeHeader # hs\<rparr>]))))"

section \<open>The analytics publisher\<close>

definition AnalyticsTopic :: string where "AnalyticsTopic = ''warehouse.inventory.analytics''"
definition analyticsSchemaVersion :: int where "analyticsSchemaVersion = 1"

record analytics_event =
  ae_entity :: string
  ae_subject :: string
  ae_key :: string
  ae_data :: "(string \<times> json) list"

text \<open>A lookup that fails leaves the SKU empty.\<close>

definition reservationSKU :: "'w publisher_deps option \<Rightarrow> string \<Rightarrow> 'w \<Rightarrow> string \<times> 'w" where
  "reservationSKU R rid w =
     (case R of
        None \<Rightarrow> ('''', w)
      | Some D \<Rightarrow>
          (case pd_find D rid w of
             (Inr (Some res), w') \<Rightarrow> (r_sku res, w')
           | (_, w') \<Rightarrow> ('''', w')))"

definition reservation_sku :: "'w publisher_deps option \<Rightarrow> string \<Rightarrow> ('w, err, string) prog" where
  "reservation_sku R rid = (\<lambda>w. let (sk, w') = reservationSKU R rid w in (Inr sk, w'))"

fun binOrUnlocatedEvent :: "domain_event \<Rightarrow> analytics_event option" where
  "binOrUnlocatedEvent (CycleCountCompleted t b counted system discrepancy) =
     Some \<lparr>ae_entity = ''bin'', ae_subject = b, ae_key = b,
           ae_data = [(''bin_id'', JString b), (''counted'', JInt counted), (''system'', JInt system),
                      (''discrepancy'', JBool discrepancy)]\<rparr>"
| "binOrUnlocatedEvent (DiscrepancyDetected t b counted system) =
     Some \<lparr>ae_entity = ''bin'', ae_subject = b, ae_key = b,
           ae_data = [(''bin_id'', JString b), (''counted'', JInt counted), (''system'', JInt system)]\<rparr>"
| "binOrUnlocatedEvent (ItemUnlocated t uid sk b qty) =
     Some \<lparr>ae_entity = ''stock'', ae_subject = uid, ae_key = sk,
           ae_data = [(''sku'', JString sk), (''bin_id'', JString b), (''stock_unit_id'', JString uid),
                      (''quantity'', JInt qty)]\<rparr>"
| "binOrUnlocatedEvent _ = None"

fun analyticsEventFor ::
  "'w publisher_deps option \<Rightarrow> domain_event \<Rightarrow> ('w, err, analytics_event option) prog" where
  "analyticsEventFor R (StockReceived t sk qty) =
     ret (Some \<lparr>ae_entity = ''stock'', ae_subject = sk, ae_key = sk,
                ae_data = [(''sku'', JString sk), (''quantity'', JInt qty)]\<rparr>)"
| "analyticsEventFor R (ItemStowed t sk b qty) =
     ret (Some \<lparr>ae_entity = ''stock'', ae_subject = sk, ae_key = sk,
                ae_data = [(''sku'', JString sk), (''bin_id'', JString b), (''quantity'', JInt qty)]\<rparr>)"
| "analyticsEventFor R (StockPicked t rid sk qty) =
     ret (Some \<lparr>ae_entity = ''reservation'', ae_subject = rid, ae_key = sk,
                ae_data = [(''sku'', JString sk), (''reservation_id'', JString rid), (''quantity'', JInt qty)]\<rparr>)"
| "analyticsEventFor R (StockReserved t rid sk qty ref) =
     ret (Some \<lparr>ae_entity = ''reservation'', ae_subject = rid, ae_key = sk,
                ae_data = [(''sku'', JString sk), (''reservation_id'', JString rid), (''quantity'', JInt qty)]\<rparr>)"
| "analyticsEventFor R (ReservationExpired t rid) =
     andthen (reservation_sku R rid) (\<lambda>sk.
     ret (Some \<lparr>ae_entity = ''reservation'', ae_subject = rid, ae_key = rid,
                ae_data = [(''reservation_id'', JString rid), (''sku'', JString sk)]\<rparr>))"
| "analyticsEventFor R (ReservationRevoked t rid) =
     andthen (reservation_sku R rid) (\<lambda>sk.
     ret (Some \<lparr>ae_entity = ''reservation'', ae_subject = rid, ae_key = rid,
                ae_data = [(''reservation_id'', JString rid), (''sku'', JString sk)]\<rparr>))"
| "analyticsEventFor R e = ret (binOrUnlocatedEvent e)"

definition analytics_spec :: "analytics_event \<Rightarrow> domain_event \<Rightarrow> string \<Rightarrow> spec" where
  "analytics_spec ae event ident =
     \<lparr>sp_id = ident, sp_entity = ae_entity ae, sp_eventName = EventName event,
      sp_subject = (if ae_subject ae = '''' then ae_key ae else ae_subject ae),
      sp_time = OccurredAt event, sp_stream = StreamAnalytics, sp_version = analyticsSchemaVersion,
      sp_data = ae_data ae\<rparr>"

definition Analytics_Encode ::
  "sdk \<Rightarrow> 'w publisher_deps \<Rightarrow> 'w publisher_deps option \<Rightarrow> domain_event \<Rightarrow> ('w, err, encoded list) prog" where
  "Analytics_Encode K D R event =
     andthen (analyticsEventFor R event) (\<lambda>found.
     case found of
       None \<Rightarrow> ret []
     | Some ae \<Rightarrow>
         andthen (new_id D) (\<lambda>ident.
         andthen (maperr (Wrapped ''kafka: encode analytics cloudevent'')
           (lift (ce_New K (analytics_spec ae event ident)))) (\<lambda>payload.
         andthen (trace_headers D) (\<lambda>hs.
         ret [\<lparr>e_topic = AnalyticsTopic, e_eventType = ce_Type (ae_entity ae) (EventName event),
               e_key = ae_key ae, e_value = payload, e_headers = ContentTypeHeader # hs\<rparr>]))))"

section \<open>What an encoder promises\<close>

text \<open>
  The outbox publisher relies on an encoder to leave the inventory alone and to return messages that
  are right for the event, whatever identifiers and trace headers they were given.
\<close>

locale encoder =
  fixes view :: "'w \<Rightarrow> encoded snapshot option"
    and encode :: "domain_event \<Rightarrow> ('w, err, encoded list) prog"
    and wire :: "domain_event \<Rightarrow> res_row list \<Rightarrow> encoded list \<Rightarrow> bool"
  assumes encodes: "triple (\<lambda>w. view w = Some s) (encode e)
      (\<lambda>ms w. view w = Some s \<and> wire e (ress (inv s)) ms) (\<lambda>_ w. view w = Some s)"

locale outbox_encoder = encoder view encode wire
  for view :: "'w \<Rightarrow> encoded snapshot option" and encode and wire +
  fixes insert_row :: "encoded \<Rightarrow> ('w, err, unit) prog"
  assumes inserts: "triple (\<lambda>w. view w = Some s) (insert_row m)
      (\<lambda>_ w. view w = Some (s\<lparr>log := log s @ [m]\<rparr>)) (\<lambda>_ w. view w = Some s)"
begin

lemma inserts_all:
  "triple (\<lambda>w. view w = Some s) (each (\<lambda>m. maperr g (insert_row m)) ms)
     (\<lambda>_ w. view w = Some (s\<lparr>log := log s @ ms\<rparr>))
     (\<lambda>_ w. \<exists>l. view w = Some (s\<lparr>log := l\<rparr>))"
proof (induction ms arbitrary: s)
  case Nil
  show ?case by (auto intro: triple_ret)
next
  case (Cons m ms)
  have here: "\<exists>l. s = s\<lparr>log := l\<rparr>" by (rule exI [of _ "log s"]) simp
  have "triple (\<lambda>w. view w = Some s) (maperr g (insert_row m))
      (\<lambda>_ w. view w = Some (s\<lparr>log := log s @ [m]\<rparr>)) (\<lambda>_ w. \<exists>l. view w = Some (s\<lparr>log := l\<rparr>))"
    by (rule triple_maperr, rule triple_weaken [OF inserts]) (use here in auto)
  moreover have "triple (\<lambda>w. view w = Some (s\<lparr>log := log s @ [m]\<rparr>)) (each (\<lambda>m. maperr g (insert_row m)) ms)
      (\<lambda>_ w. view w = Some (s\<lparr>log := log s @ m # ms\<rparr>)) (\<lambda>_ w. \<exists>l. view w = Some (s\<lparr>log := l\<rparr>))"
    using Cons [of "s\<lparr>log := log s @ [m]\<rparr>"] by simp
  ultimately show ?case by (simp add: triple_andthen)
qed

lemma publishes:
  "triple (\<lambda>w. view w = Some s) (andthen (maperr f (encode e)) (each (\<lambda>m. maperr g (insert_row m))))
     (\<lambda>_ w. \<exists>ms. wire e (ress (inv s)) ms \<and> view w = Some (s\<lparr>log := log s @ ms\<rparr>))
     (\<lambda>_ w. \<exists>l. view w = Some (s\<lparr>log := l\<rparr>))"
proof -
  have here: "\<exists>l. s = s\<lparr>log := l\<rparr>" by (rule exI [of _ "log s"]) simp
  have "triple (\<lambda>w. view w = Some s) (maperr f (encode e))
      (\<lambda>ms w. view w = Some s \<and> wire e (ress (inv s)) ms) (\<lambda>_ w. \<exists>l. view w = Some (s\<lparr>log := l\<rparr>))"
    by (rule triple_maperr, rule triple_weaken [OF encodes]) (use here in auto)
  moreover have "triple (\<lambda>w. view w = Some s \<and> wire e (ress (inv s)) ms) (each (\<lambda>m. maperr g (insert_row m)) ms)
     (\<lambda>_ w. \<exists>ms. wire e (ress (inv s)) ms \<and> view w = Some (s\<lparr>log := log s @ ms\<rparr>))
     (\<lambda>_ w. \<exists>l. view w = Some (s\<lparr>log := l\<rparr>))" for ms
    by (rule tripleI) (auto dest: tripleR [OF inserts_all] tripleL [OF inserts_all])
  ultimately show ?thesis by (rule triple_andthen)
qed

end

section \<open>What the encoders put on the wire\<close>

text \<open>One message of a topic, under some identifier and some trace headers.\<close>

definition sent :: "sdk \<Rightarrow> string \<Rightarrow> string \<Rightarrow> (string \<Rightarrow> spec) \<Rightarrow> encoded list \<Rightarrow> bool" where
  "sent K topic key sp ms \<longleftrightarrow> (\<exists>ident v hs. ce_New K (sp ident) = Inr v \<and>
     ms = [\<lparr>e_topic = topic, e_eventType = ce_Type (sp_entity (sp ident)) (sp_eventName (sp ident)),
            e_key = key, e_value = v, e_headers = ContentTypeHeader # hs\<rparr>])"


fun integration_wire :: "sdk \<Rightarrow> domain_event \<Rightarrow> res_row list \<Rightarrow> encoded list \<Rightarrow> bool" where
  "integration_wire K (StockReserved t rid sk qty ref) rs ms =
     sent K IntegrationTopic rid (integration_spec (reservationData sk qty ref) rid (StockReserved t rid sk qty ref)) ms"
| "integration_wire K (ReservationRevoked t rid) rs ms =
     (\<exists>row. find_row rr_id rid rs = Some row \<and>
        sent K IntegrationTopic rid (integration_spec
          (reservationData (rr_sku row) (rr_quantity row) (rr_demandRef row)) rid (ReservationRevoked t rid)) ms)"
| "integration_wire K _ rs ms = (ms = [])"

text \<open>The analytics payload, given the SKU a lookup of the reservation came up with.\<close>

fun analytics_payload :: "sku \<Rightarrow> domain_event \<Rightarrow> analytics_event option" where
  "analytics_payload found (StockReceived t sk qty) =
     Some \<lparr>ae_entity = ''stock'', ae_subject = sk, ae_key = sk,
           ae_data = [(''sku'', JString sk), (''quantity'', JInt qty)]\<rparr>"
| "analytics_payload found (ItemStowed t sk b qty) =
     Some \<lparr>ae_entity = ''stock'', ae_subject = sk, ae_key = sk,
           ae_data = [(''sku'', JString sk), (''bin_id'', JString b), (''quantity'', JInt qty)]\<rparr>"
| "analytics_payload found (StockPicked t rid sk qty) =
     Some \<lparr>ae_entity = ''reservation'', ae_subject = rid, ae_key = sk,
           ae_data = [(''sku'', JString sk), (''reservation_id'', JString rid), (''quantity'', JInt qty)]\<rparr>"
| "analytics_payload found (StockReserved t rid sk qty ref) =
     Some \<lparr>ae_entity = ''reservation'', ae_subject = rid, ae_key = sk,
           ae_data = [(''sku'', JString sk), (''reservation_id'', JString rid), (''quantity'', JInt qty)]\<rparr>"
| "analytics_payload found (ReservationExpired t rid) =
     Some \<lparr>ae_entity = ''reservation'', ae_subject = rid, ae_key = rid,
           ae_data = [(''reservation_id'', JString rid), (''sku'', JString found)]\<rparr>"
| "analytics_payload found (ReservationRevoked t rid) =
     Some \<lparr>ae_entity = ''reservation'', ae_subject = rid, ae_key = rid,
           ae_data = [(''reservation_id'', JString rid), (''sku'', JString found)]\<rparr>"
| "analytics_payload found e = binOrUnlocatedEvent e"

definition analytics_wire :: "sdk \<Rightarrow> domain_event \<Rightarrow> res_row list \<Rightarrow> encoded list \<Rightarrow> bool" where
  "analytics_wire K e rs ms \<longleftrightarrow> (\<exists>found. (found = '''' \<or> found \<in> rr_sku ` set rs) \<and>
     (case analytics_payload found e of
        None \<Rightarrow> ms = []
      | Some ae \<Rightarrow> sent K AnalyticsTopic (ae_key ae) (analytics_spec ae e) ms))"

text \<open>Every event of the inventory but two reaches the analytics topic; two reach the integration topic.\<close>

lemma analytics_wire_silent:
  "analytics_wire K e rs ms \<Longrightarrow>
     ms = [] \<longleftrightarrow> (\<exists>t u b. e = LocationRecorded t u b) \<or> (\<exists>t sk tags tc dot. e = ProductClassified t sk tags tc dot)"
  by (cases e) (auto simp: analytics_wire_def sent_def)

lemma integration_wire_silent: "integration_wire K e rs ms \<Longrightarrow> ms = [] \<longleftrightarrow> \<not> isIntegrationEvent e"
  by (cases e) (auto simp: sent_def)

lemma sent_decodes:
  assumes "sent K topic key sp ms" "sdk_ok K" "m \<in> set ms"
  shows "\<exists>ident. ce_Decode K (e_value m) = Inr (spec_event (sp ident)) \<and> e_eventType m = ce_type (spec_event (sp ident)) \<and>
    e_key m = key \<and> e_topic m = topic"
  using assms Decode_New [OF assms(2)] by (fastforce simp: sent_def spec_event_def Let_def)

section \<open>The encoders keep the promise\<close>

lemma maperr_same: "maperr (\<lambda>x. x) m = m"
  by (auto simp: fun_eq_iff maperr_def split: prod.split sum.split)

locale reservation_source =
  fixes view :: "'w \<Rightarrow> encoded snapshot option" and D :: "'w publisher_deps"
  assumes draws_id: "view (snd (pd_newID D w)) = view w"
    and finds: "triple (\<lambda>w. view w = Some s) (pd_find D i)
      (\<lambda>x w. view w = Some s \<and> rel_option (loads (inv s)) (find_row rr_id i (ress (inv s))) x)
      (\<lambda>_ w. view w = Some s)"
begin

lemma new_id_frame: "triple (\<lambda>w. view w = Some s) (new_id D) (\<lambda>_ w. view w = Some s) E"
proof (rule tripleI)
  fix w x w' assume "view w = Some s" "new_id D w = (Inr x, w')"
  moreover from this have "w' = snd (pd_newID D w)" by (auto simp: new_id_def split: prod.splits)
  ultimately show "view w' = Some s" using draws_id by simp
qed (simp add: new_id_def split: prod.splits)

lemma headers_frame: "triple (\<lambda>w. view w = Some s) (trace_headers D) (\<lambda>_ w. view w = Some s) E"
  by (simp add: triple_def trace_headers_def)

lemma sku_found:
  "triple (\<lambda>w. view w = Some s) (reservation_sku (Some D) rid)
     (\<lambda>sk w. view w = Some s \<and> (sk = '''' \<or> sk \<in> rr_sku ` set (ress (inv s)))) E"
proof (rule tripleI)
  fix w sk w' assume w: "view w = Some s" and r: "reservation_sku (Some D) rid w = (Inr sk, w')"
  obtain x w1 where f: "pd_find D rid w = (x, w1)" by force
  show "view w' = Some s \<and> (sk = '''' \<or> sk \<in> rr_sku ` set (ress (inv s)))"
  proof (cases x)
    case (Inl e)
    then show ?thesis using r f tripleL [OF finds w] by (auto simp: reservation_sku_def reservationSKU_def)
  next
    case (Inr y)
    then have y: "view w1 = Some s" "rel_option (loads (inv s)) (find_row rr_id rid (ress (inv s))) y"
      using tripleR [OF finds w] f by auto
    show ?thesis
      using r f Inr y by (cases y)
        (auto simp: reservation_sku_def reservationSKU_def option_rel_Some2 loads_def dest!: find_row_set)
  qed
next
  fix w e w' assume "reservation_sku (Some D) rid w = (Inl e, w')"
  then show "E e w'" by (auto simp: reservation_sku_def split: prod.splits)
qed

lemma payload_found:
  "triple (\<lambda>w. view w = Some s) (analyticsEventFor (Some D) e)
     (\<lambda>ae w. view w = Some s \<and> (\<exists>found. (found = '''' \<or> found \<in> rr_sku ` set (ress (inv s))) \<and>
        ae = analytics_payload found e)) E"
  by (cases e) (auto intro!: triple_ret triple_andthen [OF sku_found])

lemma message_sent:
  assumes "\<And>ident. sp_entity (sp ident) = entity" "\<And>ident. sp_eventName (sp ident) = name"
  shows "triple (\<lambda>w. view w = Some s)
    (andthen (new_id D) (\<lambda>ident. andthen (maperr g (lift (ce_New K (sp ident)))) (\<lambda>v.
     andthen (trace_headers D) (\<lambda>hs.
     ret [\<lparr>e_topic = topic, e_eventType = ce_Type entity name, e_key = key, e_value = v,
           e_headers = ContentTypeHeader # hs\<rparr>]))))
    (\<lambda>ms w. view w = Some s \<and> sent K topic key sp ms) (\<lambda>_ w. view w = Some s)"
proof (rule triple_andthen [OF new_id_frame], rule triple_andthen)
  fix ident
  show "triple (\<lambda>w. view w = Some s) (maperr g (lift (ce_New K (sp ident))))
      (\<lambda>v w. view w = Some s \<and> ce_New K (sp ident) = Inr v) (\<lambda>_ w. view w = Some s)"
    by (rule triple_maperr, rule triple_lift) auto
  show "triple (\<lambda>w. view w = Some s \<and> ce_New K (sp ident) = Inr v)
      (andthen (trace_headers D) (\<lambda>hs. ret [\<lparr>e_topic = topic, e_eventType = ce_Type entity name, e_key = key,
         e_value = v, e_headers = ContentTypeHeader # hs\<rparr>]))
      (\<lambda>ms w. view w = Some s \<and> sent K topic key sp ms) (\<lambda>_ w. view w = Some s)" for v
    using assms by (auto simp: triple_def trace_headers_def run sent_def)
qed

lemma analytics_encodes:
  "triple (\<lambda>w. view w = Some s) (Analytics_Encode K D (Some D) e)
     (\<lambda>ms w. view w = Some s \<and> analytics_wire K e (ress (inv s)) ms) (\<lambda>_ w. view w = Some s)"
  unfolding Analytics_Encode_def
proof (rule triple_andthen [OF payload_found])
  fix found_ae
  show "triple (\<lambda>w. view w = Some s \<and> (\<exists>found. (found = '''' \<or> found \<in> rr_sku ` set (ress (inv s))) \<and>
        found_ae = analytics_payload found e))
      (case found_ae of
         None \<Rightarrow> ret []
       | Some ae \<Rightarrow>
           andthen (new_id D) (\<lambda>ident.
           andthen (maperr (Wrapped ''kafka: encode analytics cloudevent'')
             (lift (ce_New K (analytics_spec ae e ident)))) (\<lambda>payload.
           andthen (trace_headers D) (\<lambda>hs.
           ret [\<lparr>e_topic = AnalyticsTopic, e_eventType = ce_Type (ae_entity ae) (EventName e),
                 e_key = ae_key ae, e_value = payload, e_headers = ContentTypeHeader # hs\<rparr>]))))
      (\<lambda>ms w. view w = Some s \<and> analytics_wire K e (ress (inv s)) ms) (\<lambda>_ w. view w = Some s)"
  proof (cases found_ae)
    case None
    then show ?thesis by (auto simp: analytics_wire_def intro!: triple_ret)
  next
    case (Some ae)
    show ?thesis
      unfolding Some option.case
    proof (rule triple_conjR)
      assume found: "\<exists>found. (found = '''' \<or> found \<in> rr_sku ` set (ress (inv s))) \<and> Some ae = analytics_payload found e"
      then obtain f where f: "f = '''' \<or> f \<in> rr_sku ` set (ress (inv s))" "Some ae = analytics_payload f e"
        by blast
      have "analytics_wire K e (ress (inv s)) ms"
        if "sent K AnalyticsTopic (ae_key ae) (analytics_spec ae e) ms" for ms
        unfolding analytics_wire_def by (rule exI [of _ f]) (use f(1) f(2) [symmetric] that in simp)
      then show "triple (\<lambda>w. view w = Some s)
          (andthen (new_id D) (\<lambda>ident.
           andthen (maperr (Wrapped ''kafka: encode analytics cloudevent'')
             (lift (ce_New K (analytics_spec ae e ident)))) (\<lambda>payload.
           andthen (trace_headers D) (\<lambda>hs.
           ret [\<lparr>e_topic = AnalyticsTopic, e_eventType = ce_Type (ae_entity ae) (EventName e),
                 e_key = ae_key ae, e_value = payload, e_headers = ContentTypeHeader # hs\<rparr>]))))
          (\<lambda>ms w. view w = Some s \<and> analytics_wire K e (ress (inv s)) ms) (\<lambda>_ w. view w = Some s)"
        by (intro triple_weaken [OF message_sent [where sp = "analytics_spec ae e"]])
          (auto simp: analytics_spec_def)
    qed
  qed
qed

lemma integration_encodes:
  "triple (\<lambda>w. view w = Some s) (Publisher_Encode K D e)
     (\<lambda>ms w. view w = Some s \<and> integration_wire K e (ress (inv s)) ms) (\<lambda>_ w. view w = Some s)"
proof -
  have msg: "triple (\<lambda>w. view w = Some s)
    (andthen (new_id D) (\<lambda>ident. andthen (lift (ce_New K (integration_spec dat key e ident))) (\<lambda>v.
     andthen (trace_headers D) (\<lambda>hs.
     ret [\<lparr>e_topic = IntegrationTopic, e_eventType = ce_Type reservationEntity (EventName e), e_key = key, e_value = v,
           e_headers = ContentTypeHeader # hs\<rparr>]))))
    (\<lambda>ms w. view w = Some s \<and> sent K IntegrationTopic key (integration_spec dat key e) ms)
    (\<lambda>_ w. view w = Some s)" for dat key
    by (rule message_sent [where g = "\<lambda>x. x", unfolded maperr_same]) (simp_all add: integration_spec_def)
  show ?thesis
  proof (cases e)
    case (StockReserved t rid sk q ref)
    then show ?thesis using msg [of "reservationData sk q ref" rid] by (simp add: Publisher_Encode_def)
  next
    case (ReservationRevoked t rid)
    have "triple (\<lambda>w. view w = Some s \<and> rel_option (loads (inv s)) (find_row rr_id rid (ress (inv s))) x)
       (andthen (case x of None \<Rightarrow> throw PublisherReservationNotFound
          | Some res \<Rightarrow> ret (Some (reservationData (r_sku res) (r_quantity res) (r_demandRef res), rid)))
        (\<lambda>payload. case payload of None \<Rightarrow> ret []
          | Some (dat, key) \<Rightarrow>
             andthen (new_id D) (\<lambda>ident. andthen (lift (ce_New K (integration_spec dat key e ident))) (\<lambda>v.
             andthen (trace_headers D) (\<lambda>hs.
             ret [\<lparr>e_topic = IntegrationTopic, e_eventType = ce_Type reservationEntity (EventName e), e_key = key,
                   e_value = v, e_headers = ContentTypeHeader # hs\<rparr>])))))
       (\<lambda>ms w. view w = Some s \<and> integration_wire K e (ress (inv s)) ms) (\<lambda>_ w. view w = Some s)" for x
    proof (cases x)
      case None
      then show ?thesis by (auto intro: triple_throw)
    next
      case (Some res)
      show ?thesis
        unfolding Some option.case andthen_ret prod.case
        by (rule triple_conjR, rule triple_weaken [OF msg])
          (auto simp: ReservationRevoked option_rel_Some2 loads_def)
    qed
    then show ?thesis
      unfolding Publisher_Encode_def ReservationRevoked integration_payload.simps andthen_assoc
      by (intro triple_andthen [OF finds])
  qed (auto simp: Publisher_Encode_def intro!: triple_ret)
qed

end

end
