(* ===== verification/Postgres.thy ===== *)
theory Postgres
  imports Service CloudEvents "HOL-Library.List_Lexorder" "HOL-Library.Char_ord"
begin

text \<open>
  internal/adapters/outbound/postgres: the repositories, the unit of work and the outbox publisher over
  a world that is the database as one session sees it. Everything the code cannot know of the outside is
  in \<open>env\<close>, indexed by the number of the interaction: whether it fails, the time, the identifiers that
  \<open>uuid.NewString\<close> draws, the order in which rows come back.
\<close>

section \<open>The world\<close>

record outbox_row =
  o_id :: int
  o_encoded :: encoded
  o_published :: bool
  o_attempts :: nat
  o_lastError :: "err option"

record idem_row =
  ik_key :: string
  ik_method :: string
  ik_path :: string
  ik_hash :: string
  ik_outcome :: "(int \<times> string \<times> (string \<times> string) list) option"

record pg_env =
  fails :: "nat \<Rightarrow> bool"
  wall_clock :: "nat \<Rightarrow> time"
  uuid :: "nat \<Rightarrow> string list \<Rightarrow> string"
  scan_units :: "nat \<Rightarrow> stock_unit list \<Rightarrow> stock_unit list"
  scan_ress :: "nat \<Rightarrow> res_row list \<Rightarrow> res_row list"
  slots :: "nat \<Rightarrow> bin_id \<Rightarrow> slot_attributes result"
  spans :: "nat \<Rightarrow> (string \<times> string) list"
  events_sdk :: sdk

record pg_world =
  tables :: inventory
  outbox :: "outbox_row list"
  idem :: "idem_row list"
  seq :: int
  tick :: nat
  in_tx :: bool
  aborted :: bool
  created_total :: nat
  revoked_total :: nat

text \<open>
  What is relied on: a version 4 UUID is not one in use, and a query returns the rows it selects, in
  whatever order.
\<close>

definition env_ok :: "pg_env \<Rightarrow> bool" where
  "env_ok E \<longleftrightarrow> (\<forall>n used. uuid E n used \<notin> set used) \<and>
     (\<forall>n us. mset (scan_units E n us) = mset us) \<and> (\<forall>n rs. mset (scan_ress E n rs) = mset rs)"

definition next_tick :: "pg_world \<Rightarrow> pg_world" where
  "next_tick w = w\<lparr>tick := Suc (tick w)\<rparr>"

text \<open>
  One statement sent to the database. A failure inside a transaction aborts it, and an aborted
  transaction refuses every statement that follows.
\<close>

definition sql :: "pg_env \<Rightarrow> (pg_world, err, 'a) prog \<Rightarrow> (pg_world, err, 'a) prog" where
  "sql E m w =
     (if in_tx w \<and> aborted w then (Inl (InfraErr ''current transaction is aborted''), next_tick w)
      else if fails E (tick w) then (Inl (InfraErr ''connection''), (next_tick w)\<lparr>aborted := in_tx w\<rparr>)
      else m (next_tick w))"

text \<open>A constraint of the schema refuses the row.\<close>

definition reject :: "string \<Rightarrow> (pg_world, err, 'a) prog" where
  "reject constraint w = (Inl (InfraErr constraint), w\<lparr>aborted := in_tx w\<rparr>)"

definition int4 :: "int \<Rightarrow> bool" where
  "int4 x \<longleftrightarrow> - max_int4 - 1 \<le> x \<and> x \<le> max_int4"

section \<open>The unit of work\<close>

text \<open>What a rollback takes back, and what it does not: the sequence, the clock, the metrics.\<close>

definition rolled_back :: "pg_world \<Rightarrow> pg_world \<Rightarrow> pg_world" where
  "rolled_back w w' =
     w'\<lparr>tables := tables w, outbox := outbox w, idem := idem w, in_tx := False, aborted := False\<rparr>"

definition begin_tx :: "pg_env \<Rightarrow> (pg_world, err, unit) prog" where
  "begin_tx E w =
     (if fails E (tick w) then (Inl (InfraErr ''begin''), next_tick w)
      else (Inr (), (next_tick w)\<lparr>in_tx := True, aborted := False\<rparr>))"

text \<open>Committing an aborted transaction rolls it back and returns an error.\<close>

definition commit_tx :: "pg_env \<Rightarrow> pg_world \<Rightarrow> (pg_world, err, unit) prog" where
  "commit_tx E w0 w =
     (if aborted w \<or> fails E (tick w) then (Inl (InfraErr ''commit''), rolled_back w0 (next_tick w))
      else (Inr (), (next_tick w)\<lparr>in_tx := False, aborted := False\<rparr>))"

definition UnitOfWork_Execute :: "pg_env \<Rightarrow> (pg_world, err, 'a) prog \<Rightarrow> (pg_world, err, 'a) prog" where
  "UnitOfWork_Execute E f w =
     (if in_tx w then f w
      else case begin_tx E w of
        (Inl e, w1) \<Rightarrow> (Inl (Wrapped ''postgres: begin unit of work'' e), w1)
      | (Inr _, w1) \<Rightarrow>
          (case f w1 of
             (Inl e, w2) \<Rightarrow>
               (Inl (if fails E (tick w2)
                     then Joined e (Wrapped ''postgres: rollback unit of work'' (InfraErr ''rollback'')) else e),
                rolled_back w (next_tick w2))
           | (Inr a, w2) \<Rightarrow>
               (case commit_tx E w w2 of
                  (Inl e, w3) \<Rightarrow> (Inl (Wrapped ''postgres: commit unit of work'' e), w3)
                | (Inr _, w3) \<Rightarrow> (Inr a, w3))))"

text \<open>
  \<open>beginOrJoin\<close>, with the way its only caller uses it: the errors are not wrapped, and the deferred
  rollback after a commit has no effect.
\<close>

definition beginOrJoin :: "pg_env \<Rightarrow> (pg_world, err, unit) prog \<Rightarrow> (pg_world, err, unit) prog" where
  "beginOrJoin E f w =
     (if in_tx w then f w
      else case begin_tx E w of
        (Inl e, w1) \<Rightarrow> (Inl e, w1)
      | (Inr _, w1) \<Rightarrow>
          (case f w1 of
             (Inl e, w2) \<Rightarrow> (Inl e, rolled_back w (next_tick w2))
           | (Inr _, w2) \<Rightarrow> commit_tx E w w2))"

section \<open>StockRepo\<close>

definition StockRepo_Save :: "pg_env \<Rightarrow> stock_unit \<Rightarrow> (pg_world, err, unit) prog" where
  "StockRepo_Save E u = sql E (\<lambda>w.
     if \<not> (int4 (u_quantity u) \<and> int4 (u_reserved u) \<and> int4 (u_version u))
       then (Inl (InfraErr ''unable to encode''), w)
     else if u_quantity u < 0 \<or> u_reserved u < 0 then reject ''stock_units_check'' w
     else case find_row u_id (u_id u) (units (tables w)) of
       None \<Rightarrow>
         if u_bin u \<notin> b_id ` set (bins (tables w)) then reject ''stock_units_bin_id_fkey'' w
         else (Inr (), w\<lparr>tables := put_unit (u_version u) u (tables w)\<rparr>)
     | Some old \<Rightarrow>
         if u_version old \<noteq> u_version u then (Inl (UsecaseErr ErrConcurrentModification), w)
         else if \<not> int4 (u_version old + 1) then reject ''integer out of range'' w
         else if u_bin u \<notin> b_id ` set (bins (tables w)) then reject ''stock_units_bin_id_fkey'' w
         else (Inr (), w\<lparr>tables := put_unit (u_version old + 1) u (tables w)\<rparr>))"

definition or_empty :: "string result \<Rightarrow> string" where
  "or_empty r = (case r of Inl _ \<Rightarrow> '''' | Inr s \<Rightarrow> s)"

definition scanStockUnit :: "stock_unit \<Rightarrow> stock_unit" where
  "scanStockUnit row =
     RehydrateStockUnit (u_id row) (or_empty (NewSKU (u_sku row))) (or_empty (NewBinId (u_bin row)))
       (or_zero (NewQuantity (u_quantity row))) (or_zero (NewQuantity (u_reserved row)))
       (u_state row) (u_version row)"

definition StockRepo_FindByID :: "pg_env \<Rightarrow> string \<Rightarrow> (pg_world, err, stock_unit option) prog" where
  "StockRepo_FindByID E ident = sql E (\<lambda>w.
     (Inr (map_option scanStockUnit (find_row u_id ident (units (tables w)))), w))"

definition StockRepo_FindBySKU :: "pg_env \<Rightarrow> sku \<Rightarrow> (pg_world, err, stock_unit list) prog" where
  "StockRepo_FindBySKU E sk = sql E (\<lambda>w.
     (Inr (map scanStockUnit (scan_units E (tick w) (filter (\<lambda>u. u_sku u = sk) (units (tables w))))), w))"

definition StockRepo_FindByBin :: "pg_env \<Rightarrow> bin_id \<Rightarrow> (pg_world, err, stock_unit list) prog" where
  "StockRepo_FindByBin E b = sql E (\<lambda>w.
     (Inr (map scanStockUnit (scan_units E (tick w) (filter (\<lambda>u. u_bin u = b) (units (tables w))))), w))"

text \<open>Identifiers are drawn without a statement.\<close>

definition StockRepo_NextID :: "pg_env \<Rightarrow> (pg_world, err, string) prog" where
  "StockRepo_NextID E w =
     (Inr (''su-'' @ uuid E (tick w) (map (drop 3 \<circ> u_id) (units (tables w)))), next_tick w)"

section \<open>LocationRepo\<close>

definition LocationRepo_Save :: "pg_env \<Rightarrow> bin \<Rightarrow> (pg_world, err, unit) prog" where
  "LocationRepo_Save E b = sql E (\<lambda>w.
     if \<not> (int4 (b_capacity b) \<and> int4 (b_occupied b) \<and> int4 (b_version b))
       then (Inl (InfraErr ''unable to encode''), w)
     else if b_capacity b \<le> 0 \<or> b_occupied b < 0 then reject ''bins_check'' w
     else case find_row b_id (b_id b) (bins (tables w)) of
       None \<Rightarrow> (Inr (), w\<lparr>tables := put_bin (b_version b) b (tables w)\<rparr>)
     | Some old \<Rightarrow>
         if b_version old \<noteq> b_version b then (Inl (UsecaseErr ErrConcurrentModification), w)
         else if \<not> int4 (b_version old + 1) then reject ''integer out of range'' w
         else (Inr (), w\<lparr>tables := put_bin (b_version old + 1) b (tables w)\<rparr>))"

definition LocationRepo_FindByID :: "pg_env \<Rightarrow> bin_id \<Rightarrow> (pg_world, err, bin option) prog" where
  "LocationRepo_FindByID E ident = sql E (\<lambda>w.
     (Inr (map_option (\<lambda>row. RehydrateBin ident (or_zero (NewQuantity (b_capacity row)))
             (or_zero (NewQuantity (b_occupied row))) (b_version row))
           (find_row b_id ident (bins (tables w)))), w))"

section \<open>ReservationRepo\<close>

definition save_reservation_row :: "pg_env \<Rightarrow> reservation \<Rightarrow> (pg_world, err, unit) prog" where
  "save_reservation_row E r = sql E (\<lambda>w.
     if \<not> (int4 (r_quantity r) \<and> int4 (r_version r)) then (Inl (InfraErr ''unable to encode''), w)
     else if r_quantity r \<le> 0 then reject ''reservations_quantity_check'' w
     else case find_row rr_id (r_id r) (ress (tables w)) of
       None \<Rightarrow>
         (Inr (), w\<lparr>tables := (tables w)\<lparr>ress := upsert rr_id (res_row_of (r_version r) r None) (ress (tables w))\<rparr>\<rparr>)
     | Some old \<Rightarrow>
         if rr_version old \<noteq> r_version r then (Inl (UsecaseErr ErrConcurrentModification), w)
         else if \<not> int4 (rr_version old + 1) then reject ''integer out of range'' w
         else (Inr (), w\<lparr>tables := (tables w)\<lparr>ress :=
                 upsert rr_id (res_row_of (rr_version old + 1) r (Some old)) (ress (tables w))\<rparr>\<rparr>))"

definition save_allocation :: "pg_env \<Rightarrow> string \<Rightarrow> allocation \<Rightarrow> (pg_world, err, unit) prog" where
  "save_allocation E rid a = sql E (\<lambda>w.
     if \<not> int4 (a_quantity a) then (Inl (InfraErr ''unable to encode''), w)
     else if a_quantity a \<le> 0 then reject ''reservation_allocations_quantity_check'' w
     else if rid \<notin> rr_id ` set (ress (tables w)) \<or> a_unit a \<notin> u_id ` set (units (tables w))
       then reject ''reservation_allocations_fkey'' w
     else (Inr (), w\<lparr>tables := (tables w)\<lparr>allocs := put_alloc rid a (allocs (tables w))\<rparr>\<rparr>))"

definition ReservationRepo_Save :: "pg_env \<Rightarrow> reservation \<Rightarrow> (pg_world, err, unit) prog" where
  "ReservationRepo_Save E r =
     beginOrJoin E (andthen (save_reservation_row E r) (\<lambda>_. each (save_allocation E (r_id r)) (r_allocations r)))"

text \<open>\<open>ORDER BY stock_unit_id\<close>, in the order of the C collation.\<close>

definition loadAllocations :: "pg_env \<Rightarrow> string \<Rightarrow> (pg_world, err, allocation list) prog" where
  "loadAllocations E rid = sql E (\<lambda>w.
     (Inr (map (\<lambda>a. \<lparr>a_unit = ar_unit a, a_bin = (case ar_bin a of None \<Rightarrow> '''' | Some b \<Rightarrow> b),
                     a_quantity = or_zero (NewQuantity (ar_quantity a))\<rparr>)
            (sort_key ar_unit (filter (\<lambda>a. ar_res a = rid) (allocs (tables w))))), w))"

definition rehydrate_row :: "res_row \<Rightarrow> allocation list \<Rightarrow> reservation" where
  "rehydrate_row row as =
     RehydrateReservation (rr_id row) (or_empty (NewSKU (rr_sku row))) (or_zero (NewQuantity (rr_quantity row)))
       (rr_demandRef row) as (rr_status row) (rr_createdAt row) (rr_expiresAt row) (rr_version row)"

definition ReservationRepo_FindByID :: "pg_env \<Rightarrow> string \<Rightarrow> (pg_world, err, reservation option) prog" where
  "ReservationRepo_FindByID E ident =
     andthen (sql E (\<lambda>w. (Inr (find_row rr_id ident (ress (tables w))), w))) (\<lambda>found.
     case found of
       None \<Rightarrow> ret None
     | Some row \<Rightarrow> andthen (loadAllocations E ident) (\<lambda>as. ret (Some (rehydrate_row row as))))"

fun load_all :: "pg_env \<Rightarrow> res_row list \<Rightarrow> (pg_world, err, reservation list) prog" where
  "load_all E [] = ret []"
| "load_all E (row # rows) =
     andthen (loadAllocations E (rr_id row)) (\<lambda>as.
     andthen (load_all E rows) (\<lambda>results. ret (rehydrate_row row as # results)))"

definition ReservationRepo_FindByDemandRef :: "pg_env \<Rightarrow> string \<Rightarrow> (pg_world, err, reservation list) prog" where
  "ReservationRepo_FindByDemandRef E ref =
     andthen (sql E (\<lambda>w. (Inr (sort_key rr_createdAt
         (scan_ress E (tick w) (filter (\<lambda>r. rr_demandRef r = ref) (ress (tables w))))), w)))
       (load_all E)"

definition ReservationRepo_NextID :: "pg_env \<Rightarrow> (pg_world, err, string) prog" where
  "ReservationRepo_NextID E w =
     (Inr (''res-'' @ uuid E (tick w) (map (drop 4 \<circ> rr_id) (ress (tables w)))), next_tick w)"

section \<open>ProductClassificationRepo\<close>

text \<open>A hazard class of 0 is stored as NULL, and NULL is read as 0.\<close>

definition ClassificationRepo_Save :: "pg_env \<Rightarrow> classification \<Rightarrow> (pg_world, err, unit) prog" where
  "ClassificationRepo_Save E c = sql E (\<lambda>w.
     (Inr (), w\<lparr>tables := put_class (RehydrateClassification (c_sku c) (HandlingTags c)
        (c_temperatureClass c) (c_dotHazardClass c)) (tables w)\<rparr>))"

definition ClassificationRepo_FindBySKU :: "pg_env \<Rightarrow> sku \<Rightarrow> (pg_world, err, classification option) prog" where
  "ClassificationRepo_FindBySKU E sk = sql E (\<lambda>w. (Inr (find_row c_sku sk (classes (tables w))), w))"

section \<open>OutboxPublisher\<close>

definition pg_newID :: "pg_env \<Rightarrow> pg_world \<Rightarrow> string \<times> pg_world" where
  "pg_newID E w = (uuid E (tick w) [], next_tick w)"

definition pg_deps :: "pg_env \<Rightarrow> pg_world publisher_deps" where
  "pg_deps E = \<lparr>pd_newID = pg_newID E, pd_inject = (\<lambda>w. spans E (tick w)), pd_find = ReservationRepo_FindByID E\<rparr>"

definition insert_outbox :: "pg_env \<Rightarrow> encoded \<Rightarrow> (pg_world, err, unit) prog" where
  "insert_outbox E msg = sql E (\<lambda>w.
     (Inr (), w\<lparr>outbox := outbox w @ [\<lparr>o_id = seq w, o_encoded = msg, o_published = False, o_attempts = 0,
                                    o_lastError = None\<rparr>], seq := seq w + 1\<rparr>))"

definition publish_one ::
  "pg_env \<Rightarrow> (domain_event \<Rightarrow> (pg_world, err, encoded list) prog) \<Rightarrow> domain_event \<Rightarrow> (pg_world, err, unit) prog"
  where
  "publish_one E encode event =
     andthen (maperr (Wrapped (''postgres: encode '' @ EventName event @ '' for outbox'')) (encode event))
       (each (\<lambda>msg. maperr (Wrapped (''postgres: insert outbox row for '' @ EventName event)) (insert_outbox E msg)))"

definition OutboxPublisher_Publish ::
  "pg_env \<Rightarrow> (domain_event \<Rightarrow> (pg_world, err, encoded list) prog) list \<Rightarrow> domain_event \<Rightarrow> (pg_world, err, unit) prog"
  where
  "OutboxPublisher_Publish E encoders event = each (\<lambda>encode. publish_one E encode event) encoders"

section \<open>What the composition root wires\<close>

definition pg_encoders :: "pg_env \<Rightarrow> (domain_event \<Rightarrow> (pg_world, err, encoded list) prog) list" where
  "pg_encoders E = [Publisher_Encode (events_sdk E) (pg_deps E),
                    Analytics_Encode (events_sdk E) (pg_deps E) (Some (pg_deps E))]"

definition pg_ports :: "pg_env \<Rightarrow> int \<Rightarrow> pg_world ports" where
  "pg_ports E timeout =
     \<lparr>p_stock = \<lparr>sr_save = StockRepo_Save E, sr_find = StockRepo_FindByID E, sr_find_sku = StockRepo_FindBySKU E,
                sr_find_bin = StockRepo_FindByBin E, sr_next = StockRepo_NextID E\<rparr>,
      p_locations = \<lparr>lr_save = LocationRepo_Save E, lr_find = LocationRepo_FindByID E\<rparr>,
      p_reservations = \<lparr>rr_save = ReservationRepo_Save E, rr_find = ReservationRepo_FindByID E,
                       rr_find_demand = ReservationRepo_FindByDemandRef E, rr_next = ReservationRepo_NextID E\<rparr>,
      p_publish = OutboxPublisher_Publish E (pg_encoders E),
      p_now = (\<lambda>w. (wall_clock E (tick w), next_tick w)),
      p_classifications = Some \<lparr>cr_save = ClassificationRepo_Save E, cr_find = ClassificationRepo_FindBySKU E\<rparr>,
      p_lookup = Some (\<lambda>b w. (slots E (tick w) b, next_tick w)),
      p_uow = Some (UnitOfWork_Execute E),
      p_metrics = Some \<lparr>m_created = (\<lambda>w. w\<lparr>created_total := Suc (created_total w)\<rparr>),
                        m_revoked = (\<lambda>w. w\<lparr>revoked_total := Suc (revoked_total w)\<rparr>)\<rparr>,
      p_timeout = timeout\<rparr>"

end
