(* ===== verification/PostgresProofs.thy ===== *)
theory PostgresProofs
  imports Postgres
begin

text \<open>
  The Postgres adapters keep the contract of the ports: each law of \<open>inventory_ports\<close> for the
  definitions of Postgres, and the interpretation that makes every result of UseCaseProofs and Service
  one about the service over its database.
\<close>

definition pg_view :: "pg_env \<Rightarrow> pg_world \<Rightarrow> encoded snapshot option" where
  "pg_view E w =
     (if env_ok E \<and> schema_ok (tables w)
      then Some \<lparr>inv = tables w, log = map o_encoded (outbox w), intx = in_tx w\<rparr> else None)"

definition pg_failed :: "pg_env \<Rightarrow> encoded snapshot \<Rightarrow> pg_world \<Rightarrow> bool" where
  "pg_failed E s w \<longleftrightarrow>
     (\<exists>s'. pg_view E w = Some s' \<and> intx s' = intx s \<and> (intx s \<or> inv s' = inv s))"

definition pg_wire :: "pg_env \<Rightarrow> domain_event \<Rightarrow> res_row list \<Rightarrow> encoded list \<Rightarrow> bool" where
  "pg_wire E e rs ms \<longleftrightarrow>
     (\<exists>ms1 ms2. integration_wire (events_sdk E) e rs ms1 \<and> analytics_wire (events_sdk E) e rs ms2 \<and> ms = ms1 @ ms2)"

definition pg_slot :: "pg_env \<Rightarrow> bin_id \<Rightarrow> slot_attributes \<Rightarrow> bool" where
  "pg_slot E b a \<longleftrightarrow> (\<exists>n. slots E n b = Inr a)"

lemma pg_view_Some:
  "pg_view E w = Some s \<longleftrightarrow> env_ok E \<and> schema_ok (tables w) \<and> inv s = tables w \<and>
     log s = map o_encoded (outbox w) \<and> intx s = in_tx w"
  by (cases s) (auto simp: pg_view_def)

lemma pg_view_frame [simp]:
  "pg_view E (w\<lparr>tick := n\<rparr>) = pg_view E w" "pg_view E (w\<lparr>aborted := a\<rparr>) = pg_view E w"
  "pg_view E (w\<lparr>created_total := n\<rparr>) = pg_view E w" "pg_view E (w\<lparr>revoked_total := n\<rparr>) = pg_view E w"
  "pg_view E (w\<lparr>seq := i\<rparr>) = pg_view E w" "pg_view E (w\<lparr>idem := k\<rparr>) = pg_view E w"
  "pg_view E (next_tick w) = pg_view E w"
  by (simp_all add: pg_view_def next_tick_def)

lemma failed_same: "pg_view E w = Some s \<Longrightarrow> pg_failed E s w"
  by (auto simp: pg_failed_def)

text \<open>A statement that fails leaves the tables as they are.\<close>

lemma sql_triple:
  assumes "triple (\<lambda>w. pg_view E w = Some s) m Q F" "\<And>e w. pg_view E w = Some s \<Longrightarrow> F e w"
  shows "triple (\<lambda>w. pg_view E w = Some s) (sql E m) Q F"
proof (rule tripleI)
  fix w x w' assume w: "pg_view E w = Some s" "sql E m w = (Inr x, w')"
  then have "m (next_tick w) = (Inr x, w')" by (auto simp: sql_def split: if_splits)
  then show "Q x w'" by (rule tripleR [OF assms(1), rotated]) (simp add: w(1))
next
  fix w e w' assume w: "pg_view E w = Some s" "sql E m w = (Inl e, w')"
  then consider "pg_view E w' = Some s" | "m (next_tick w) = (Inl e, w')"
    by (auto simp: sql_def split: if_splits)
  then show "F e w'"
  proof cases
    case 2
    then show ?thesis by (rule tripleL [OF assms(1), rotated]) (simp add: w(1))
  qed (rule assms(2))
qed

lemma sql_read:
  assumes "\<And>w. pg_view E w = Some s \<Longrightarrow> R (f w)"
  shows "triple (\<lambda>w. pg_view E w = Some s) (sql E (\<lambda>w. (Inr (f w), w)))
    (\<lambda>x w. pg_view E w = Some s \<and> R x) (\<lambda>_ w. pg_view E w = Some s)"
  by (rule sql_triple) (use assms in \<open>auto simp: triple_def\<close>)

section \<open>The schema\<close>

lemma all_upsert: "(\<And>r. r \<in> set rs \<Longrightarrow> p r) \<Longrightarrow> p x \<Longrightarrow> r \<in> set (upsert key x rs) \<Longrightarrow> p r"
  using set_upsert_subset [of key x rs] by blast

lemma schema_put_unit:
  assumes "schema_ok d" "0 \<le> u_quantity u" "u_quantity u \<le> max_int4" "0 \<le> u_reserved u" "u_reserved u \<le> max_int4"
    and "u_bin u \<in> b_id ` set (bins d)"
  shows "schema_ok (put_unit v u d)"
proof -
  have "0 \<le> u_quantity r \<and> u_quantity r \<le> max_int4 \<and> 0 \<le> u_reserved r \<and> u_reserved r \<le> max_int4 \<and>
      u_bin r \<in> b_id ` set (bins d)" if "r \<in> set (upsert u_id (u\<lparr>u_version := v\<rparr>) (units d))" for r
    by (rule all_upsert [OF _ _ that]) (use assms in \<open>auto simp: schema_ok_def\<close>)
  then show ?thesis
    using assms(1) distinct_upsert [of u_id "units d" "u\<lparr>u_version := v\<rparr>"]
    by (simp add: schema_ok_def keys_upsert)
qed

lemma schema_put_bin:
  assumes "schema_ok d" "0 < b_capacity b" "b_capacity b \<le> max_int4" "0 \<le> b_occupied b" "b_occupied b \<le> max_int4"
  shows "schema_ok (put_bin v b d)"
proof -
  have "0 < b_capacity r \<and> b_capacity r \<le> max_int4 \<and> 0 \<le> b_occupied r \<and> b_occupied r \<le> max_int4"
    if "r \<in> set (upsert b_id (b\<lparr>b_version := v\<rparr>) (bins d))" for r
    by (rule all_upsert [OF _ _ that]) (use assms in \<open>auto simp: schema_ok_def\<close>)
  then show ?thesis
    using assms(1) distinct_upsert [of b_id "bins d" "b\<lparr>b_version := v\<rparr>"]
    by (simp add: schema_ok_def keys_upsert)
qed

lemma schema_put_class: "schema_ok d \<Longrightarrow> schema_ok (put_class c d)"
  using distinct_upsert [of c_sku "classes d" c] by (simp add: schema_ok_def)

lemma schema_put_row:
  assumes "schema_ok d" "0 < r_quantity r" "r_quantity r \<le> max_int4"
  shows "schema_ok (d\<lparr>ress := upsert rr_id (res_row_of v r (find_row rr_id (r_id r) (ress d))) (ress d)\<rparr>)"
proof -
  let ?row = "res_row_of v r (find_row rr_id (r_id r) (ress d))"
  have q: "0 < rr_quantity ?row \<and> rr_quantity ?row \<le> max_int4"
    using assms by (auto simp: res_row_of_def schema_ok_def split: option.split dest!: find_row_set)
  have "0 < rr_quantity x \<and> rr_quantity x \<le> max_int4" if "x \<in> set (upsert rr_id ?row (ress d))" for x
    by (rule all_upsert [OF _ _ that]) (use assms(1) q in \<open>auto simp: schema_ok_def\<close>)
  then show ?thesis
    using assms(1) distinct_upsert [of rr_id "ress d" ?row] by (simp add: schema_ok_def keys_upsert)
qed

lemma put_alloc_fields:
  "\<exists>row. put_alloc rid a rows = upsert ar_key row rows \<and> ar_res row = rid \<and> ar_unit row = a_unit a \<and>
     ar_quantity row = a_quantity a"
  by (auto simp: put_alloc_def Let_def)

lemma schema_put_alloc:
  assumes "schema_ok d" "0 < a_quantity a" "a_quantity a \<le> max_int4"
    and "rid \<in> rr_id ` set (ress d)" "a_unit a \<in> u_id ` set (units d)"
  shows "schema_ok (d\<lparr>allocs := put_alloc rid a (allocs d)\<rparr>)"
proof -
  obtain row where row: "put_alloc rid a (allocs d) = upsert ar_key row (allocs d)" "ar_res row = rid"
      "ar_unit row = a_unit a" "ar_quantity row = a_quantity a"
    using put_alloc_fields by blast
  have "0 < ar_quantity x \<and> ar_quantity x \<le> max_int4 \<and> ar_res x \<in> rr_id ` set (ress d) \<and>
      ar_unit x \<in> u_id ` set (units d)" if "x \<in> set (upsert ar_key row (allocs d))" for x
    by (rule all_upsert [OF _ _ that]) (use assms row in \<open>auto simp: schema_ok_def\<close>)
  then show ?thesis
    using assms(1) distinct_upsert [of ar_key "allocs d" row] by (simp add: schema_ok_def row(1))
qed

lemma scan_unit_same:
  "schema_ok d \<Longrightarrow> u \<in> set (units d) \<Longrightarrow> scanStockUnit u = u"
  by (auto simp: scanStockUnit_def RehydrateStockUnit_def or_empty_def NewSKU_def NewBinId_def schema_ok_def)

section \<open>The repositories\<close>

lemma pg_stock_save:
  "triple (\<lambda>w. pg_view E w = Some s) (StockRepo_Save E u)
     (\<lambda>_ w. \<exists>v. pg_view E w = Some (s\<lparr>inv := put_unit v u (inv s)\<rparr>)) (\<lambda>_. pg_failed E s)"
  unfolding StockRepo_Save_def
proof (rule sql_triple)
  show "triple (\<lambda>w. pg_view E w = Some s) (\<lambda>w.
     if \<not> (int4 (u_quantity u) \<and> int4 (u_reserved u) \<and> int4 (u_version u))
       then (Inl (InfraErr ''unable to encode''), w)
     else if u_quantity u < 0 \<or> u_reserved u < 0 then reject ''stock_units_check'' w
     else case find_row u_id (u_id u) (units (tables w)) of
       None \<Rightarrow>
         if u_bin u \<notin> b_id ` set (bins (tables w)) then reject ''stock_units_bin_id_fkey'' w
         else (Inr (), w\<lparr>tables := put_unit (u_version u) u (tables w)\<rparr>)
     | Some old \<Rightarrow>
         if u_version old \<noteq> u_version u then (Inl (UsecaseErr ErrConcurrentModification), w)
         else if \<not> int4 (u_version old + 1) then reject ''integer out of range'' w
         else if u_bin u \<notin> b_id ` set (bins (tables w)) then reject ''stock_units_bin_id_fkey'' w
         else (Inr (), w\<lparr>tables := put_unit (u_version old + 1) u (tables w)\<rparr>))
     (\<lambda>_ w. \<exists>v. pg_view E w = Some (s\<lparr>inv := put_unit v u (inv s)\<rparr>)) (\<lambda>_. pg_failed E s)"
  proof (rule tripleI, goal_cases)
    case (1 w x w')
    then obtain v where w': "w' = w\<lparr>tables := put_unit v u (tables w)\<rparr>" and u: "int4 (u_quantity u)" "int4 (u_reserved u)"
        "0 \<le> u_quantity u" "0 \<le> u_reserved u" "u_bin u \<in> b_id ` set (bins (tables w))"
      by (auto simp: reject_def split: if_splits option.splits)
    have "schema_ok (put_unit v u (tables w))"
      by (rule schema_put_unit) (use 1(1) u in \<open>auto simp: pg_view_Some int4_def\<close>)
    then have "pg_view E w' = Some (s\<lparr>inv := put_unit v u (inv s)\<rparr>)"
      using 1(1) by (auto simp: pg_view_Some w')
    then show ?case ..
  next
    case (2 w e w')
    then have "pg_view E w' = Some s"
      by (auto simp: reject_def split: if_splits option.splits)
    then show ?case by (rule failed_same)
  qed
qed (rule failed_same)

lemma pg_loc_save:
  "triple (\<lambda>w. pg_view E w = Some s) (LocationRepo_Save E b)
     (\<lambda>_ w. \<exists>v. pg_view E w = Some (s\<lparr>inv := put_bin v b (inv s)\<rparr>)) (\<lambda>_. pg_failed E s)"
  unfolding LocationRepo_Save_def
proof (rule sql_triple)
  show "triple (\<lambda>w. pg_view E w = Some s) (\<lambda>w.
     if \<not> (int4 (b_capacity b) \<and> int4 (b_occupied b) \<and> int4 (b_version b))
       then (Inl (InfraErr ''unable to encode''), w)
     else if b_capacity b \<le> 0 \<or> b_occupied b < 0 then reject ''bins_check'' w
     else case find_row b_id (b_id b) (bins (tables w)) of
       None \<Rightarrow> (Inr (), w\<lparr>tables := put_bin (b_version b) b (tables w)\<rparr>)
     | Some old \<Rightarrow>
         if b_version old \<noteq> b_version b then (Inl (UsecaseErr ErrConcurrentModification), w)
         else if \<not> int4 (b_version old + 1) then reject ''integer out of range'' w
         else (Inr (), w\<lparr>tables := put_bin (b_version old + 1) b (tables w)\<rparr>))
     (\<lambda>_ w. \<exists>v. pg_view E w = Some (s\<lparr>inv := put_bin v b (inv s)\<rparr>)) (\<lambda>_. pg_failed E s)"
  proof (rule tripleI, goal_cases)
    case (1 w x w')
    then obtain v where w': "w' = w\<lparr>tables := put_bin v b (tables w)\<rparr>" and b: "int4 (b_capacity b)" "int4 (b_occupied b)"
        "0 < b_capacity b" "0 \<le> b_occupied b"
      by (auto simp: reject_def split: if_splits option.splits)
    have "schema_ok (put_bin v b (tables w))"
      by (rule schema_put_bin) (use 1(1) b in \<open>auto simp: pg_view_Some int4_def\<close>)
    then have "pg_view E w' = Some (s\<lparr>inv := put_bin v b (inv s)\<rparr>)"
      using 1(1) by (auto simp: pg_view_Some w')
    then show ?case ..
  next
    case (2 w e w')
    then have "pg_view E w' = Some s"
      by (auto simp: reject_def split: if_splits option.splits)
    then show ?case by (rule failed_same)
  qed
qed (rule failed_same)

lemma scan_same:
  assumes "schema_ok d" "set us \<subseteq> set (units d)"
  shows "map scanStockUnit us = us"
  using assms by (induction us) (auto simp: scan_unit_same)

lemma pg_scan:
  assumes "pg_view E w = Some s"
  shows "mset (map scanStockUnit (scan_units E n (filter p (units (tables w))))) = mset (filter p (units (inv s)))"
proof -
  have w: "env_ok E" "schema_ok (inv s)" "tables w = inv s" using assms by (auto simp: pg_view_Some)
  have m: "mset (scan_units E n (filter p (units (inv s)))) = mset (filter p (units (inv s)))"
    using w(1) by (simp add: env_ok_def)
  then have "set (scan_units E n (filter p (units (inv s)))) \<subseteq> set (units (inv s))"
    by (metis filter_is_subset mset_eq_setD)
  with m show ?thesis by (simp only: w(3) scan_same [OF w(2)])
qed

lemma pg_stock_find:
  "triple (\<lambda>w. pg_view E w = Some s) (StockRepo_FindByID E i)
     (\<lambda>x w. pg_view E w = Some s \<and> x = find_row u_id i (units (inv s))) (\<lambda>_ w. pg_view E w = Some s)"
  unfolding StockRepo_FindByID_def
proof (rule sql_read)
  fix w assume "pg_view E w = Some s"
  then have "schema_ok (inv s)" "tables w = inv s" by (auto simp: pg_view_Some)
  then show "map_option scanStockUnit (find_row u_id i (units (tables w))) = find_row u_id i (units (inv s))"
    by (cases "find_row u_id i (units (inv s))") (auto simp: scan_unit_same dest!: find_row_set)
qed

lemma pg_stock_find_sku:
  "triple (\<lambda>w. pg_view E w = Some s) (StockRepo_FindBySKU E k)
     (\<lambda>xs w. pg_view E w = Some s \<and> mset xs = mset (filter (\<lambda>u. u_sku u = k) (units (inv s))))
     (\<lambda>_ w. pg_view E w = Some s)"
  unfolding StockRepo_FindBySKU_def by (rule sql_read) (rule pg_scan)

lemma pg_stock_find_bin:
  "triple (\<lambda>w. pg_view E w = Some s) (StockRepo_FindByBin E b)
     (\<lambda>xs w. pg_view E w = Some s \<and> mset xs = mset (filter (\<lambda>u. u_bin u = b) (units (inv s))))
     (\<lambda>_ w. pg_view E w = Some s)"
  unfolding StockRepo_FindByBin_def by (rule sql_read) (rule pg_scan)

lemma fresh_id: "x \<notin> drop n ` A \<Longrightarrow> length p = n \<Longrightarrow> p @ x \<notin> A"
  by (metis append_eq_conv_conj image_eqI)

lemma pg_stock_next:
  "triple (\<lambda>w. pg_view E w = Some s) (StockRepo_NextID E)
     (\<lambda>i w. pg_view E w = Some s \<and> i \<notin> u_id ` set (units (inv s))) (\<lambda>_ w. pg_view E w = Some s)"
proof (rule tripleI)
  fix w x w' assume w: "pg_view E w = Some s" "StockRepo_NextID E w = (Inr x, w')"
  have "uuid E (tick w) (map (drop 3 \<circ> u_id) (units (tables w))) \<notin> set (map (drop 3 \<circ> u_id) (units (tables w)))"
    using w(1) unfolding pg_view_Some env_ok_def by blast
  then have "uuid E (tick w) (map (drop 3 \<circ> u_id) (units (tables w))) \<notin> drop 3 ` (u_id ` set (units (tables w)))"
    by (simp add: image_image)
  from fresh_id [OF this, of "''su-''"] w show "pg_view E w' = Some s \<and> x \<notin> u_id ` set (units (inv s))"
    by (auto simp: StockRepo_NextID_def pg_view_Some next_tick_def)
qed (simp add: StockRepo_NextID_def)

lemma pg_loc_find:
  "triple (\<lambda>w. pg_view E w = Some s) (LocationRepo_FindByID E i)
     (\<lambda>x w. pg_view E w = Some s \<and> x = find_row b_id i (bins (inv s))) (\<lambda>_ w. pg_view E w = Some s)"
  unfolding LocationRepo_FindByID_def
proof (rule sql_read)
  fix w assume "pg_view E w = Some s"
  then have w: "schema_ok (inv s)" "tables w = inv s" by (auto simp: pg_view_Some)
  show "map_option (\<lambda>row. RehydrateBin i (or_zero (NewQuantity (b_capacity row)))
      (or_zero (NewQuantity (b_occupied row))) (b_version row)) (find_row b_id i (bins (tables w)))
    = find_row b_id i (bins (inv s))"
  proof (cases "find_row b_id i (bins (inv s))")
    case (Some b)
    then have "0 < b_capacity b" "0 \<le> b_occupied b" "b_id b = i"
      using w(1) by (auto simp: schema_ok_def dest: find_row_set find_row_key)
    with Some w(2) show ?thesis by (auto simp: RehydrateBin_def)
  qed (simp add: w(2))
qed

section \<open>Reservations\<close>

lemma loads_rehydrated:
  assumes "schema_ok d" "row \<in> set (ress d)" "mset as = mset (map alloc_of (allocs_of d (rr_id row)))"
  shows "loads d row (rehydrate_row row as)"
proof -
  have "0 \<le> rr_quantity row" using assms(1,2) by (auto simp: schema_ok_def)
  then show ?thesis
    using assms(3) by (simp add: loads_def rehydrate_row_def RehydrateReservation_def or_empty_def NewSKU_def)
qed

lemma load_triple:
  "triple (\<lambda>w. pg_view E w = Some s) (loadAllocations E rid)
     (\<lambda>as w. pg_view E w = Some s \<and> mset as = mset (map alloc_of (allocs_of (inv s) rid)))
     (\<lambda>_ w. pg_view E w = Some s)"
  unfolding loadAllocations_def
proof (rule sql_read)
  fix w assume "pg_view E w = Some s"
  then have w: "schema_ok (inv s)" "tables w = inv s" by (auto simp: pg_view_Some)
  let ?f = "\<lambda>a. \<lparr>a_unit = ar_unit a, a_bin = (case ar_bin a of None \<Rightarrow> '''' | Some b \<Rightarrow> b),
    a_quantity = or_zero (NewQuantity (ar_quantity a))\<rparr>"
  have same: "?f a = alloc_of a" if "a \<in> set (allocs_of (inv s) rid)" for a
    using that w(1) by (auto simp: alloc_of_def allocs_of_def dest!: schema_alloc)
  have "mset (map ?f (sort_key ar_unit (allocs_of (inv s) rid))) = mset (map ?f (allocs_of (inv s) rid))"
    by simp
  also have "map ?f (allocs_of (inv s) rid) = map alloc_of (allocs_of (inv s) rid)"
    using same by (intro map_cong) auto
  finally show "mset (map ?f (sort_key ar_unit (filter (\<lambda>a. ar_res a = rid) (allocs (tables w))))) =
      mset (map alloc_of (allocs_of (inv s) rid))"
    by (simp add: w(2) allocs_of_def)
qed

lemma pg_res_find:
  "triple (\<lambda>w. pg_view E w = Some s) (ReservationRepo_FindByID E i)
     (\<lambda>x w. pg_view E w = Some s \<and> rel_option (loads (inv s)) (find_row rr_id i (ress (inv s))) x)
     (\<lambda>_ w. pg_view E w = Some s)"
  unfolding ReservationRepo_FindByID_def
proof (rule triple_andthen)
  show "triple (\<lambda>w. pg_view E w = Some s) (sql E (\<lambda>w. (Inr (find_row rr_id i (ress (tables w))), w)))
      (\<lambda>x w. pg_view E w = Some s \<and> x = find_row rr_id i (ress (inv s))) (\<lambda>_ w. pg_view E w = Some s)"
    by (rule sql_read) (auto simp: pg_view_Some)
next
  fix x
  show "triple (\<lambda>w. pg_view E w = Some s \<and> x = find_row rr_id i (ress (inv s)))
      (case x of None \<Rightarrow> ret None
       | Some row \<Rightarrow> andthen (loadAllocations E i) (\<lambda>as. ret (Some (rehydrate_row row as))))
      (\<lambda>x w. pg_view E w = Some s \<and> rel_option (loads (inv s)) (find_row rr_id i (ress (inv s))) x)
      (\<lambda>_ w. pg_view E w = Some s)"
  proof (rule triple_conjR)
    assume x: "x = find_row rr_id i (ress (inv s))"
    show "triple (\<lambda>w. pg_view E w = Some s)
      (case x of None \<Rightarrow> ret None
       | Some row \<Rightarrow> andthen (loadAllocations E i) (\<lambda>as. ret (Some (rehydrate_row row as))))
      (\<lambda>x w. pg_view E w = Some s \<and> rel_option (loads (inv s)) (find_row rr_id i (ress (inv s))) x)
      (\<lambda>_ w. pg_view E w = Some s)"
    proof (cases x)
      case None
      with x show ?thesis by (auto intro!: triple_ret)
    next
      case (Some row)
      then have row: "row \<in> set (ress (inv s))" "rr_id row = i" "find_row rr_id i (ress (inv s)) = Some row"
        using x find_row_set [of rr_id i "ress (inv s)" row] find_row_key [of rr_id i "ress (inv s)" row] by auto
      show ?thesis
        unfolding Some option.case
        by (rule triple_andthen [OF load_triple], rule triple_ret)
          (use row in \<open>auto intro!: loads_rehydrated simp: pg_view_Some\<close>)
    qed
  qed
qed

lemma load_all_triple:
  assumes "set rows \<subseteq> set (ress (inv s))"
  shows "triple (\<lambda>w. pg_view E w = Some s) (load_all E rows)
     (\<lambda>xs w. pg_view E w = Some s \<and> list_all2 (loads (inv s)) rows xs) (\<lambda>_ w. pg_view E w = Some s)"
  using assms
proof (induction rows)
  case Nil
  show ?case by (auto intro: triple_ret)
next
  case (Cons row rows)
  have "triple (\<lambda>w. pg_view E w = Some s \<and> mset as = mset (map alloc_of (allocs_of (inv s) (rr_id row))))
      (andthen (load_all E rows) (\<lambda>results. ret (rehydrate_row row as # results)))
      (\<lambda>xs w. pg_view E w = Some s \<and> list_all2 (loads (inv s)) (row # rows) xs)
      (\<lambda>_ w. pg_view E w = Some s)" for as
    by (rule triple_conjR, rule triple_andthen [OF Cons.IH triple_ret])
      (use Cons.prems in \<open>auto intro!: loads_rehydrated simp: pg_view_Some\<close>)
  then show ?case by (simp add: triple_andthen [OF load_triple])
qed

lemma pg_res_find_demand:
  "triple (\<lambda>w. pg_view E w = Some s) (ReservationRepo_FindByDemandRef E ref)
     (\<lambda>xs w. pg_view E w = Some s \<and>
        (\<exists>rows. mset rows = mset (filter (\<lambda>r. rr_demandRef r = ref) (ress (inv s))) \<and>
           list_all2 (loads (inv s)) rows xs))
     (\<lambda>_ w. pg_view E w = Some s)"
  unfolding ReservationRepo_FindByDemandRef_def
proof (rule triple_andthen)
  show "triple (\<lambda>w. pg_view E w = Some s) (sql E (\<lambda>w. (Inr (sort_key rr_createdAt
         (scan_ress E (tick w) (filter (\<lambda>r. rr_demandRef r = ref) (ress (tables w))))), w)))
      (\<lambda>rows w. pg_view E w = Some s \<and> mset rows = mset (filter (\<lambda>r. rr_demandRef r = ref) (ress (inv s))))
      (\<lambda>_ w. pg_view E w = Some s)"
    by (rule sql_read) (auto simp: pg_view_Some env_ok_def)
next
  fix rows
  show "triple (\<lambda>w. pg_view E w = Some s \<and> mset rows = mset (filter (\<lambda>r. rr_demandRef r = ref) (ress (inv s))))
      (load_all E rows)
      (\<lambda>xs w. pg_view E w = Some s \<and> (\<exists>rows. mset rows = mset (filter (\<lambda>r. rr_demandRef r = ref) (ress (inv s))) \<and>
           list_all2 (loads (inv s)) rows xs))
      (\<lambda>_ w. pg_view E w = Some s)"
  proof (rule triple_conjR)
    assume m: "mset rows = mset (filter (\<lambda>r. rr_demandRef r = ref) (ress (inv s)))"
    then have "set rows \<subseteq> set (ress (inv s))" by (metis filter_is_subset mset_eq_setD)
    from load_all_triple [OF this]
    show "triple (\<lambda>w. pg_view E w = Some s) (load_all E rows)
      (\<lambda>xs w. pg_view E w = Some s \<and> (\<exists>rows. mset rows = mset (filter (\<lambda>r. rr_demandRef r = ref) (ress (inv s))) \<and>
           list_all2 (loads (inv s)) rows xs))
      (\<lambda>_ w. pg_view E w = Some s)"
      by (rule triple_weaken) (simp, use m in blast, simp)
  qed
qed

lemma pg_res_next:
  "triple (\<lambda>w. pg_view E w = Some s) (ReservationRepo_NextID E)
     (\<lambda>i w. pg_view E w = Some s \<and> i \<notin> rr_id ` set (ress (inv s))) (\<lambda>_ w. pg_view E w = Some s)"
proof (rule tripleI)
  fix w x w' assume w: "pg_view E w = Some s" "ReservationRepo_NextID E w = (Inr x, w')"
  have "uuid E (tick w) (map (drop 4 \<circ> rr_id) (ress (tables w))) \<notin> set (map (drop 4 \<circ> rr_id) (ress (tables w)))"
    using w(1) unfolding pg_view_Some env_ok_def by blast
  then have "uuid E (tick w) (map (drop 4 \<circ> rr_id) (ress (tables w))) \<notin> drop 4 ` (rr_id ` set (ress (tables w)))"
    by (simp add: image_image)
  from fresh_id [OF this, of "''res-''"] w show "pg_view E w' = Some s \<and> x \<notin> rr_id ` set (ress (inv s))"
    by (auto simp: ReservationRepo_NextID_def pg_view_Some next_tick_def)
qed (simp add: ReservationRepo_NextID_def)

lemma save_row_triple:
  "triple (\<lambda>w. pg_view E w = Some s) (save_reservation_row E r)
     (\<lambda>_ w. \<exists>v. pg_view E w = Some (s\<lparr>inv := (inv s)\<lparr>ress :=
        upsert rr_id (res_row_of v r (find_row rr_id (r_id r) (ress (inv s)))) (ress (inv s))\<rparr>\<rparr>))
     (\<lambda>_ w. pg_view E w = Some s)"
  unfolding save_reservation_row_def
proof (rule sql_triple, goal_cases)
  case 1
  show ?case
  proof (rule tripleI, goal_cases)
    case (1 w x w')
    then obtain v where w': "w' = w\<lparr>tables := (tables w)\<lparr>ress :=
          upsert rr_id (res_row_of v r (find_row rr_id (r_id r) (ress (tables w)))) (ress (tables w))\<rparr>\<rparr>"
        and q: "int4 (r_quantity r)" "0 < r_quantity r"
      by (auto simp: reject_def split: if_splits option.splits)
    have "schema_ok ((tables w)\<lparr>ress :=
          upsert rr_id (res_row_of v r (find_row rr_id (r_id r) (ress (tables w)))) (ress (tables w))\<rparr>)"
      by (rule schema_put_row) (use 1(1) q in \<open>auto simp: pg_view_Some int4_def\<close>)
    then have "pg_view E w' = Some (s\<lparr>inv := (inv s)\<lparr>ress :=
        upsert rr_id (res_row_of v r (find_row rr_id (r_id r) (ress (inv s)))) (ress (inv s))\<rparr>\<rparr>)"
      using 1(1) by (auto simp: pg_view_Some w')
    then show ?case ..
  next
    case (2 w e w')
    then show ?case by (auto simp: reject_def split: if_splits option.splits)
  qed
qed

lemma save_allocation_triple:
  "triple (\<lambda>w. pg_view E w = Some s) (save_allocation E rid a)
     (\<lambda>_ w. pg_view E w = Some (s\<lparr>inv := (inv s)\<lparr>allocs := put_alloc rid a (allocs (inv s))\<rparr>\<rparr>))
     (\<lambda>_ w. pg_view E w = Some s)"
  unfolding save_allocation_def
proof (rule sql_triple, goal_cases)
  case 1
  show ?case
  proof (rule tripleI, goal_cases)
    case (1 w x w')
    then have w': "w' = w\<lparr>tables := (tables w)\<lparr>allocs := put_alloc rid a (allocs (tables w))\<rparr>\<rparr>"
        and q: "int4 (a_quantity a)" "0 < a_quantity a" "rid \<in> rr_id ` set (ress (tables w))"
          "a_unit a \<in> u_id ` set (units (tables w))"
      by (auto simp: reject_def split: if_splits)
    have "schema_ok ((tables w)\<lparr>allocs := put_alloc rid a (allocs (tables w))\<rparr>)"
      by (rule schema_put_alloc) (use 1(1) q in \<open>auto simp: pg_view_Some int4_def\<close>)
    then show ?case using 1(1) by (auto simp: pg_view_Some w')
  next
    case (2 w e w')
    then show ?case by (auto simp: reject_def split: if_splits)
  qed
qed

section \<open>Transactions\<close>

lemma begin_view:
  "begin_tx E w = (Inr u, w1) \<Longrightarrow> pg_view E w = Some s \<Longrightarrow> pg_view E w1 = Some (s\<lparr>intx := True\<rparr>)"
  by (auto simp: begin_tx_def pg_view_Some next_tick_def split: if_splits)

lemma begin_failed: "begin_tx E w = (Inl e, w1) \<Longrightarrow> pg_view E w1 = pg_view E w"
  by (auto simp: begin_tx_def split: if_splits)

lemma rolled_back_view: "\<not> in_tx w \<Longrightarrow> pg_view E (rolled_back w w') = pg_view E w"
  by (simp add: pg_view_def rolled_back_def)

lemma rolled_back_Some: "pg_view E w = Some s \<Longrightarrow> \<not> intx s \<Longrightarrow> pg_view E (rolled_back w w') = Some s"
  by (metis rolled_back_view pg_view_Some)

lemma commit_view:
  "commit_tx E w0 w = (Inr u, w1) \<Longrightarrow> pg_view E w = Some s \<Longrightarrow> pg_view E w1 = Some (s\<lparr>intx := False\<rparr>)"
  by (auto simp: commit_tx_def pg_view_Some next_tick_def split: if_splits)

lemma commit_failed:
  "commit_tx E w0 w = (Inl e, w1) \<Longrightarrow> pg_view E w0 = Some s \<Longrightarrow> \<not> intx s \<Longrightarrow> pg_view E w1 = Some s"
  by (auto simp: commit_tx_def intro: rolled_back_Some split: if_splits)

lemma pg_joins: "pg_view E w = Some s \<Longrightarrow> intx s \<Longrightarrow> UnitOfWork_Execute E f w = f w"
  by (simp add: UnitOfWork_Execute_def pg_view_Some)

lemma pg_commits:
  assumes "\<not> intx s"
    and f: "triple (\<lambda>w. pg_view E w = Some (s\<lparr>intx := True\<rparr>)) f
        (\<lambda>a w. \<exists>s'. R a s' \<and> intx s' \<and> pg_view E w = Some s') (\<lambda>_ w. \<exists>s'. pg_view E w = Some s' \<and> intx s')"
  shows "triple (\<lambda>w. pg_view E w = Some s) (UnitOfWork_Execute E f)
        (\<lambda>a w. \<exists>s'. R a s' \<and> intx s' \<and> pg_view E w = Some (s'\<lparr>intx := False\<rparr>)) (\<lambda>_ w. pg_view E w = Some s)"
proof (rule tripleI, goal_cases)
  case (1 w a w')
  then have out: "\<not> in_tx w" using assms(1) by (simp add: pg_view_Some)
  obtain u w1 w2 u' where b: "begin_tx E w = (Inr u, w1)" and fw: "f w1 = (Inr a, w2)"
      and c: "commit_tx E w w2 = (Inr u', w')"
    using 1(2) out unfolding UnitOfWork_Execute_def
    by (auto split: prod.splits sum.splits)
  from tripleR [OF f begin_view [OF b 1(1)] fw] obtain s' where s': "R a s'" "intx s'" "pg_view E w2 = Some s'"
    by blast
  with commit_view [OF c s'(3)] show ?case by blast
next
  case (2 w e w')
  then have out: "\<not> in_tx w" using assms(1) by (simp add: pg_view_Some)
  then show ?case
    using 2 assms(1) unfolding UnitOfWork_Execute_def
    by (auto split: prod.splits sum.splits intro: rolled_back_Some commit_failed dest: begin_failed)
qed

lemma fold_puts:
  "triple (\<lambda>w. pg_view E w = Some (s\<lparr>inv := (inv s)\<lparr>allocs := rows\<rparr>\<rparr>)) (each (save_allocation E rid) as)
     (\<lambda>_ w. pg_view E w = Some (s\<lparr>inv := (inv s)\<lparr>allocs := fold (put_alloc rid) as rows\<rparr>\<rparr>))
     (\<lambda>_ w. \<exists>s'. pg_view E w = Some s' \<and> intx s' = intx s)"
proof (induction as arbitrary: rows)
  case Nil
  show ?case by (auto intro: triple_ret)
next
  case (Cons a as)
  have "triple (\<lambda>w. pg_view E w = Some (s\<lparr>inv := (inv s)\<lparr>allocs := rows\<rparr>\<rparr>)) (save_allocation E rid a)
      (\<lambda>_ w. pg_view E w = Some (s\<lparr>inv := (inv s)\<lparr>allocs := put_alloc rid a rows\<rparr>\<rparr>))
      (\<lambda>_ w. \<exists>s'. pg_view E w = Some s' \<and> intx s' = intx s)"
    by (rule triple_weaken [OF save_allocation_triple [of E "s\<lparr>inv := (inv s)\<lparr>allocs := rows\<rparr>\<rparr>"]]) auto
  then show ?case by (simp add: triple_andthen [OF _ Cons.IH])
qed

lemma save_body:
  "triple (\<lambda>w. pg_view E w = Some s)
     (andthen (save_reservation_row E r) (\<lambda>_. each (save_allocation E (r_id r)) (r_allocations r)))
     (\<lambda>_ w. \<exists>v. pg_view E w = Some (s\<lparr>inv := put_res v r (inv s)\<rparr>))
     (\<lambda>_ w. \<exists>s'. pg_view E w = Some s' \<and> intx s' = intx s)"
proof (rule triple_andthen)
  show "triple (\<lambda>w. pg_view E w = Some s) (save_reservation_row E r)
     (\<lambda>_ w. \<exists>v. pg_view E w = Some (s\<lparr>inv := (inv s)\<lparr>ress :=
        upsert rr_id (res_row_of v r (find_row rr_id (r_id r) (ress (inv s)))) (ress (inv s))\<rparr>\<rparr>))
     (\<lambda>_ w. \<exists>s'. pg_view E w = Some s' \<and> intx s' = intx s)"
    by (rule triple_weaken [OF save_row_triple]) auto
next
  fix x
  show "triple (\<lambda>w. \<exists>v. pg_view E w = Some (s\<lparr>inv := (inv s)\<lparr>ress :=
        upsert rr_id (res_row_of v r (find_row rr_id (r_id r) (ress (inv s)))) (ress (inv s))\<rparr>\<rparr>))
      (each (save_allocation E (r_id r)) (r_allocations r))
      (\<lambda>_ w. \<exists>v. pg_view E w = Some (s\<lparr>inv := put_res v r (inv s)\<rparr>))
      (\<lambda>_ w. \<exists>s'. pg_view E w = Some s' \<and> intx s' = intx s)"
  proof (rule triple_ex)
    fix v
    let ?d = "(inv s)\<lparr>ress := upsert rr_id (res_row_of v r (find_row rr_id (r_id r) (ress (inv s)))) (ress (inv s))\<rparr>"
    show "triple (\<lambda>w. pg_view E w = Some (s\<lparr>inv := ?d\<rparr>)) (each (save_allocation E (r_id r)) (r_allocations r))
        (\<lambda>_ w. \<exists>v. pg_view E w = Some (s\<lparr>inv := put_res v r (inv s)\<rparr>))
        (\<lambda>_ w. \<exists>s'. pg_view E w = Some s' \<and> intx s' = intx s)"
      by (rule triple_weaken [OF fold_puts [where s = "s\<lparr>inv := ?d\<rparr>" and rows = "allocs (inv s)"]])
        (auto simp: put_res_def)
  qed
qed

lemma pg_res_save:
  "triple (\<lambda>w. pg_view E w = Some s) (ReservationRepo_Save E r)
     (\<lambda>_ w. \<exists>v. pg_view E w = Some (s\<lparr>inv := put_res v r (inv s)\<rparr>)) (\<lambda>_. pg_failed E s)"
proof (rule tripleI, goal_cases)
  case (1 w x w')
  let ?f = "andthen (save_reservation_row E r) (\<lambda>_. each (save_allocation E (r_id r)) (r_allocations r))"
  show ?case
  proof (cases "in_tx w")
    case True
    then have "?f w = (Inr x, w')" using 1(2) by (simp add: ReservationRepo_Save_def beginOrJoin_def)
    then show ?thesis by (rule tripleR [OF save_body 1(1)])
  next
    case False
    then obtain u w1 u' w2 where b: "begin_tx E w = (Inr u, w1)" "?f w1 = (Inr u', w2)"
        "commit_tx E w w2 = (Inr x, w')"
      using 1(2) unfolding ReservationRepo_Save_def beginOrJoin_def
      by (auto split: prod.splits sum.splits)
    have out: "\<not> intx s" using False 1(1) by (simp add: pg_view_Some)
    from tripleR [OF save_body begin_view [OF b(1) 1(1)] b(2)]
    obtain v where "pg_view E w2 = Some (s\<lparr>intx := True, inv := put_res v r (inv s)\<rparr>)" by auto
    from commit_view [OF b(3) this] have "pg_view E w' = Some (s\<lparr>inv := put_res v r (inv s)\<rparr>)"
      using out by (cases s) simp
    then show ?thesis ..
  qed
next
  case (2 w e w')
  let ?f = "andthen (save_reservation_row E r) (\<lambda>_. each (save_allocation E (r_id r)) (r_allocations r))"
  show ?case
  proof (cases "in_tx w")
    case True
    then have "?f w = (Inl e, w')" using 2(2) by (simp add: ReservationRepo_Save_def beginOrJoin_def)
    from tripleL [OF save_body 2(1) this] True 2(1) show ?thesis by (auto simp: pg_failed_def pg_view_Some)
  next
    case False
    then have out: "\<not> intx s" using 2(1) by (simp add: pg_view_Some)
    have "pg_view E w' = Some s"
      using 2 False out unfolding ReservationRepo_Save_def beginOrJoin_def
      by (auto split: prod.splits sum.splits intro: rolled_back_Some commit_failed dest: begin_failed)
    then show ?thesis by (rule failed_same)
  qed
qed

section \<open>The classification repository\<close>

lemma pg_class_find:
  "triple (\<lambda>w. pg_view E w = Some s) (ClassificationRepo_FindBySKU E k)
     (\<lambda>x w. pg_view E w = Some s \<and> x = find_row c_sku k (classes (inv s))) (\<lambda>_ w. pg_view E w = Some s)"
  unfolding ClassificationRepo_FindBySKU_def by (rule sql_read) (simp add: pg_view_Some)

lemma pg_class_save:
  assumes "c_handlingTags c \<subseteq> set all_tags"
  shows "triple (\<lambda>w. pg_view E w = Some s) (ClassificationRepo_Save E c)
     (\<lambda>_ w. pg_view E w = Some (s\<lparr>inv := put_class c (inv s)\<rparr>)) (\<lambda>_. pg_failed E s)"
proof -
  have "RehydrateClassification (c_sku c) (HandlingTags c) (c_temperatureClass c) (c_dotHazardClass c) = c"
    using HandlingTags_set [OF assms] by (simp add: RehydrateClassification_def)
  then show ?thesis
    unfolding ClassificationRepo_Save_def
    by (intro sql_triple) (auto simp: triple_def pg_view_Some schema_put_class intro: failed_same)
qed

section \<open>The outbox\<close>

lemma pg_inserts:
  "triple (\<lambda>w. pg_view E w = Some s) (insert_outbox E m)
     (\<lambda>_ w. pg_view E w = Some (s\<lparr>log := log s @ [m]\<rparr>)) (\<lambda>_ w. pg_view E w = Some s)"
  unfolding insert_outbox_def by (rule sql_triple) (auto simp: triple_def pg_view_Some)

interpretation pg_source: reservation_source "pg_view E" "pg_deps E" for E
  by unfold_locales (auto simp: pg_deps_def pg_newID_def pg_res_find)

interpretation pg_integration: outbox_encoder "pg_view E" "Publisher_Encode (events_sdk E) (pg_deps E)"
  "integration_wire (events_sdk E)" "insert_outbox E" for E
  by unfold_locales (rule pg_source.integration_encodes, rule pg_inserts)

interpretation pg_analytics: outbox_encoder "pg_view E"
  "Analytics_Encode (events_sdk E) (pg_deps E) (Some (pg_deps E))" "analytics_wire (events_sdk E)" "insert_outbox E" for E
  by unfold_locales (rule pg_source.analytics_encodes, rule pg_inserts)

lemma pg_publish:
  "triple (\<lambda>w. pg_view E w = Some s) (OutboxPublisher_Publish E (pg_encoders E) e)
     (\<lambda>_ w. \<exists>ms. pg_wire E e (ress (inv s)) ms \<and> pg_view E w = Some (s\<lparr>log := log s @ ms\<rparr>)) (\<lambda>_. pg_failed E s)"
proof -
  have failed: "pg_failed E s w" if "\<exists>l. pg_view E w = Some (s\<lparr>log := l\<rparr>)" for w
    using that by (auto simp: pg_failed_def)
  have 1: "triple (\<lambda>w. pg_view E w = Some s) (publish_one E (Publisher_Encode (events_sdk E) (pg_deps E)) e)
      (\<lambda>_ w. \<exists>ms. integration_wire (events_sdk E) e (ress (inv s)) ms \<and> pg_view E w = Some (s\<lparr>log := log s @ ms\<rparr>))
      (\<lambda>_. pg_failed E s)"
    unfolding publish_one_def by (rule triple_weaken [OF pg_integration.publishes]) (auto intro: failed)
  have 2: "triple (\<lambda>w. \<exists>ms. integration_wire (events_sdk E) e (ress (inv s)) ms \<and> pg_view E w = Some (s\<lparr>log := log s @ ms\<rparr>))
      (publish_one E (Analytics_Encode (events_sdk E) (pg_deps E) (Some (pg_deps E))) e)
      (\<lambda>_ w. \<exists>ms. pg_wire E e (ress (inv s)) ms \<and> pg_view E w = Some (s\<lparr>log := log s @ ms\<rparr>)) (\<lambda>_. pg_failed E s)"
  proof (rule triple_ex, rule triple_conj)
    fix ms assume ms: "integration_wire (events_sdk E) e (ress (inv s)) ms"
    show "triple (\<lambda>w. pg_view E w = Some (s\<lparr>log := log s @ ms\<rparr>))
        (publish_one E (Analytics_Encode (events_sdk E) (pg_deps E) (Some (pg_deps E))) e)
        (\<lambda>_ w. \<exists>ms. pg_wire E e (ress (inv s)) ms \<and> pg_view E w = Some (s\<lparr>log := log s @ ms\<rparr>)) (\<lambda>_. pg_failed E s)"
      unfolding publish_one_def
      by (rule triple_weaken [OF pg_analytics.publishes [of E "s\<lparr>log := log s @ ms\<rparr>" _ e]])
        (use ms in \<open>auto simp: pg_wire_def pg_failed_def\<close>)
  qed
  show ?thesis
    by (simp add: OutboxPublisher_Publish_def pg_encoders_def andthen_ret_right [of "publish_one _ _ _"])
      (rule triple_andthen [OF 1 2])
qed

section \<open>The service over Postgres\<close>

lemma pg_lookup:
  "triple (\<lambda>w. pg_view E w = Some s) (\<lambda>w. (slots E (tick w) b, next_tick w))
     (\<lambda>x w. pg_view E w = Some s \<and> pg_slot E b x) (\<lambda>_ w. pg_view E w = Some s)"
  by (rule tripleI) (auto simp: pg_slot_def)

interpretation pg: inventory_ports "pg_ports E timeout" "pg_view E" "pg_wire E" "pg_slot E" "pg_failed E"
  "UnitOfWork_Execute E" for E timeout
proof (unfold_locales, goal_cases)
  case (1 s w)
  show ?case by (rule pg_failed_def)
next
  case (2 w s)
  then show ?case by (simp add: pg_view_Some)
qed (auto simp: pg_ports_def pg_lookup pg_stock_save pg_stock_find pg_stock_find_sku pg_stock_find_bin pg_stock_next
    pg_loc_save pg_loc_find pg_res_save pg_res_find pg_res_find_demand pg_res_next pg_publish pg_class_find
    pg_class_save pg_joins pg_commits simp del: mset_filter)

end
