(* ===== verification/Outcomes.thy ===== *)
theory Outcomes
  imports Contracts
begin

text \<open>
  What the relations of Contracts mean in amounts: how much of each unit is reserved and left, and how
  much of a SKU can still be promised, after a reservation is made, given back or picked.
\<close>

text \<open>What a reservation was allocated of a unit, and what is usable of a SKU.\<close>

definition allocated :: "inventory \<Rightarrow> string \<Rightarrow> string \<Rightarrow> quantity" where
  "allocated d rid uid = total (\<lambda>a. if ar_res a = rid \<and> ar_unit a = uid then ar_quantity a else 0) (allocs d)"

definition usable_stock :: "inventory \<Rightarrow> sku \<Rightarrow> quantity" where
  "usable_stock d sk = total (\<lambda>u. if u_sku u = sk then Usable u else 0) (units d)"

definition on_hand :: "inventory \<Rightarrow> quantity" where
  "on_hand d = total u_quantity (units d)"

lemma drawn_allocated: "loads d row r \<Longrightarrow> drawn (r_allocations r) uid = allocated d (r_id r) uid"
  unfolding drawn_def allocated_def
  by (subst loads_total, assumption) (rule total_cong, simp add: alloc_of_def)

lemma sys_inv_units: "sys_inv d \<Longrightarrow> u \<in> set (units d) \<Longrightarrow> unit_ok u"
  by (simp add: sys_inv_def ledger_def)

lemma status_after:
  assumes "find_row rr_id (r_id r) (ress d) = Some row" "ress d1 = ress d"
  shows "find_row rr_id (r_id r) (ress (put_res v (r\<lparr>r_status := st\<rparr>) d1)) =
    Some (row\<lparr>rr_status := st, rr_version := v\<rparr>)"
  using assms find_row_key [OF assms(1)] by (simp add: find_upsert res_row_of_def)

lemma returned_amounts:
  assumes "sys_inv d" "returned st r d d'"
  shows "reserved_of d' i = reserved_of d i - allocated d (r_id r) i" "quantity_of d' i = quantity_of d i"
    "bins d' = bins d" "map_option rr_status (find_row rr_id (r_id r) (ress d')) = Some st"
    "active d (r_id r)"
proof -
  obtain row d1 v where s: "find_row rr_id (r_id r) (ress d) = Some row" "loads d row r"
      "r_status r = StatusActive" "released (r_allocations r) d d1" "d' = put_res v (r\<lparr>r_status := st\<rparr>) d1"
    using assms(2) by (auto simp: returned_def)
  have d: "schema_ok d" using assms(1) by (simp add: sys_inv_def)
  note fr = released_frame [OF s(4)]
  have am: "reserved_of d1 i = reserved_of d i - drawn (r_allocations r) i \<and> quantity_of d1 i = quantity_of d i"
    by (rule released_amounts [OF s(4) sys_inv_units [OF assms(1)]]) (use loads_bounds [OF s(2) d] in auto)
  then show "reserved_of d' i = reserved_of d i - allocated d (r_id r) i" "quantity_of d' i = quantity_of d i"
    using s(5) drawn_allocated [OF s(2)] by simp_all
  show "bins d' = bins d" using s(5) fr by simp
  show "map_option rr_status (find_row rr_id (r_id r) (ress d')) = Some st"
    unfolding s(5) using status_after [OF s(1), of d1] fr by simp
  show "active d (r_id r)" using s(1-3) by (simp add: active_row loads_def)
qed

lemma taken_amounts:
  assumes "sys_inv d" "taken r d d'"
  shows "reserved_of d' i = reserved_of d i - allocated d (r_id r) i"
    "quantity_of d' i = quantity_of d i - allocated d (r_id r) i"
    "map_option rr_status (find_row rr_id (r_id r) (ress d')) = Some StatusConfirmed" "active d (r_id r)"
proof -
  obtain row d1 v where s: "find_row rr_id (r_id r) (ress d) = Some row" "loads d row r"
      "r_status r = StatusActive" "picked (r_allocations r) d d1"
      "d' = put_res v (r\<lparr>r_status := StatusConfirmed\<rparr>) d1"
    using assms(2) by (auto simp: taken_def)
  have d: "schema_ok d" using assms(1) by (simp add: sys_inv_def)
  note fr = picked_frame [OF s(4)]
  have am: "reserved_of d1 i = reserved_of d i - drawn (r_allocations r) i \<and>
      quantity_of d1 i = quantity_of d i - drawn (r_allocations r) i"
    by (rule picked_amounts [OF s(4) sys_inv_units [OF assms(1)]]) (use loads_bounds [OF s(2) d] in auto)
  then show "reserved_of d' i = reserved_of d i - allocated d (r_id r) i"
    "quantity_of d' i = quantity_of d i - allocated d (r_id r) i"
    using s(5) drawn_allocated [OF s(2)] by simp_all
  show "map_option rr_status (find_row rr_id (r_id r) (ress d')) = Some StatusConfirmed"
    unfolding s(5) using status_after [OF s(1), of d1] fr by simp
  show "active d (r_id r)" using s(1-3) by (simp add: active_row loads_def)
qed

text \<open>A new reservation takes exactly its quantity from what is usable of its SKU, and nothing else.\<close>

lemma Usable_reserved:
  assumes "unit_ok u" "Reserve u q = Inr t" "0 < q"
  shows "Usable (t\<lparr>u_version := v\<rparr>) = Usable u - q"
proof -
  have st: "u_state u \<noteq> StateUnlocated" "u_state u \<noteq> StateRemoved"
    using assms(2) by (auto simp: Reserve_def split: if_splits)
  note r = Reserve_ok(1,2) [OF assms(1,2) less_imp_le [OF assms(3)]]
  have "unit_ok (t\<lparr>u_version := v\<rparr>)" using r(1) by simp
  from Usable_exact [OF this] show ?thesis using Usable_exact [OF assms(1)] st r(2) by simp
qed

text \<open>After the first of the touched units is saved, the others are as they were.\<close>

lemma touched_rest:
  assumes "\<And>u. u \<in> set (units d) \<Longrightarrow> unit_ok u" "distinct (map u_id (t # ts))"
    and "list_all2 (touches d) (a # as) (t # ts)"
  shows "\<And>x. x \<in> set (units (put_unit v t d)) \<Longrightarrow> unit_ok x" "distinct (map u_id ts)"
    "list_all2 (touches (put_unit v t d)) as ts"
proof -
  obtain u where u: "find_row u_id (u_id t) (units d) = Some u" "Reserve u (a_quantity a) = Inr t" "0 < a_quantity a"
    using assms(3) by (auto simp: touches_def)
  have t: "unit_ok t"
    using Reserve_ok(1) [OF assms(1) [OF find_row_set [OF u(1)]] u(2) less_imp_le [OF u(3)]] .
  show "unit_ok x" if "x \<in> set (units (put_unit v t d))" for x
    using that assms(1) t set_upsert_subset [of u_id "t\<lparr>u_version := v\<rparr>" "units d"] by auto
  show "distinct (map u_id ts)" using assms(2) by simp
  have "touches (put_unit v t d) b t'" if "t' \<in> set ts" "touches d b t'" for b t'
  proof (rule touches_put_unit [OF that(2)])
    have "u_id t' \<in> u_id ` set ts" using that(1) by (rule imageI)
    moreover have "u_id t \<notin> u_id ` set ts" using assms(2) by simp
    ultimately show "u_id t' \<noteq> u_id t" by metis
  qed
  then show "list_all2 (touches (put_unit v t d)) as ts"
    using assms(3) by (auto intro: list.rel_mono_strong)
qed

lemma rewritten_usable:
  assumes "rewritten ts d d'" "\<And>u. u \<in> set (units d) \<Longrightarrow> unit_ok u" "distinct (map u_id ts)"
    and "list_all2 (touches d) as ts" "\<And>t. t \<in> set ts \<Longrightarrow> u_sku t = sk"
  shows "usable_stock d' k = usable_stock d k - (if k = sk then total a_quantity as else 0)"
  using assms
proof (induction arbitrary: as rule: rewritten.induct)
  case (rewritten_none d)
  then show ?case by simp
next
  case (rewritten_one v t d ts d')
  obtain a as' u where as: "as = a # as'" "a_unit a = u_id t" "0 < a_quantity a"
      "find_row u_id (u_id t) (units d) = Some u" "Reserve u (a_quantity a) = Inr t"
    using rewritten_one.prems(3) by (auto simp: list_all2_Cons2 touches_def)
  have u: "unit_ok u" using rewritten_one.prems(1) find_row_set [OF as(4)] .
  have t: "unit_ok t" "u_sku t = sk" "u_sku u = sk"
    using Reserve_ok(1) [OF u as(5) less_imp_le [OF as(3)]] rewritten_one.prems(4) [of t] unit_frame(1) [OF as(5)]
    by simp_all
  have one: "usable_stock (put_unit v t d) k = usable_stock d k - (if k = sk then a_quantity a else 0)"
    using total_upsert_Some [of u_id "t\<lparr>u_version := v\<rparr>" "units d" u] as(4) t Usable_reserved [OF u as(5,3)]
    by (simp add: usable_stock_def)
  have "usable_stock d' k = usable_stock (put_unit v t d) k - (if k = sk then total a_quantity as' else 0)"
  proof (rule rewritten_one.IH)
    note rest = touched_rest [OF rewritten_one.prems(1,2) rewritten_one.prems(3) [unfolded as(1)]]
    show "unit_ok x" if "x \<in> set (units (put_unit v t d))" for x by (rule rest(1), assumption) (rule that)
    show "distinct (map u_id ts)" "list_all2 (touches (put_unit v t d)) as' ts" by (rule rest(2), assumption, rule rest(3), assumption)
    show "u_sku x = sk" if "x \<in> set ts" for x using that rewritten_one.prems(4) by simp
  qed
  then show ?case using one by (simp add: as(1))
qed

lemma rewritten_amounts:
  assumes "rewritten ts d d'" "\<And>u. u \<in> set (units d) \<Longrightarrow> unit_ok u" "distinct (map u_id ts)"
    and "list_all2 (touches d) as ts"
  shows "reserved_of d' i = reserved_of d i + drawn as i \<and> quantity_of d' i = quantity_of d i"
  using assms
proof (induction arbitrary: as rule: rewritten.induct)
  case (rewritten_none d)
  then show ?case by simp
next
  case (rewritten_one v t d ts d')
  obtain a as' u where as: "as = a # as'" "a_unit a = u_id t" "0 < a_quantity a"
      "find_row u_id (u_id t) (units d) = Some u" "Reserve u (a_quantity a) = Inr t"
    using rewritten_one.prems(3) by (auto simp: list_all2_Cons2 touches_def)
  have u: "unit_ok u" using rewritten_one.prems(1) find_row_set [OF as(4)] .
  note t = Reserve_ok(1,2) [OF u as(5) less_imp_le [OF as(3)]]
  have one: "reserved_of d (u_id t) = u_reserved u" "quantity_of d (u_id t) = u_quantity u"
    using as(4) by (simp_all add: reserved_of_def quantity_of_def)
  have "reserved_of d' i = reserved_of (put_unit v t d) i + drawn as' i \<and>
      quantity_of d' i = quantity_of (put_unit v t d) i"
  proof (rule rewritten_one.IH)
    note rest = touched_rest [OF rewritten_one.prems(1,2) rewritten_one.prems(3) [unfolded as(1)]]
    show "unit_ok x" if "x \<in> set (units (put_unit v t d))" for x by (rule rest(1), assumption) (rule that)
    show "distinct (map u_id ts)" "list_all2 (touches (put_unit v t d)) as' ts" by (rule rest(2), assumption, rule rest(3), assumption)
  qed
  then show ?case using one t(2) as(2) by (auto simp: as(1))
qed

lemma reserved_new_usable:
  assumes "sys_inv d" "reserved_new sk q ref d r d'" "0 < q" "in64 q"
  shows "usable_stock d' k = usable_stock d k - (if k = sk then q else 0)"
    "total a_quantity (r_allocations r) = q" "active d' (r_id r)" "demand d' (r_id r) = Some (ref, sk, q)"
    "allocated d' (r_id r) i = drawn (r_allocations r) i"
    "reserved_of d' i = reserved_of d i + drawn (r_allocations r) i" "quantity_of d' i = quantity_of d i"
proof -
  obtain us ts d1 v where s: "mset us = mset (filter (\<lambda>u. u_sku u = sk) (units d))"
      "allocate us q = Inr (r_allocations r, ts)" "rewritten ts d d1" "r_id r \<notin> rr_id ` set (ress d)"
      "r_sku r = sk" "r_quantity r = q" "r_demandRef r = ref" "r_status r = StatusActive" "d' = put_res v r d1"
    using assms(2) by (auto simp: reserved_new_def)
  note al = allocate_touches [OF assms(1) s(1,2) assms(3,4)]
  have us: "set us = {u \<in> set (units d). u_sku u = sk}" using s(1) by (metis mset_eq_setD set_filter)
  have "u_sku t = sk" if t: "t \<in> set ts" for t
  proof -
    have "list_all2 (drawn_from us) (r_allocations r) ts"
      by (rule allocate_spec(2) [OF s(2) _ assms(3,4)]) (use us sys_inv_units [OF assms(1)] in auto)
    then obtain a where "drawn_from us a t" using t by (auto simp: list_all2_conv_all_nth in_set_conv_nth)
    then show ?thesis using us unit_frame(1) by (auto simp: drawn_from_def)
  qed
  then have "usable_stock d1 k = usable_stock d k - (if k = sk then total a_quantity (r_allocations r) else 0)"
    by (intro rewritten_usable [OF s(3) sys_inv_units [OF assms(1)] al(2,1)])
  then show "usable_stock d' k = usable_stock d k - (if k = sk then q else 0)"
    using al(3) s(9) by (simp add: usable_stock_def)
  show "total a_quantity (r_allocations r) = q" by (rule al(3))
  note fr = rewritten_frame [OF s(3)]
  have d1: "schema_ok d1" "r_id r \<notin> rr_id ` set (ress d1)"
    using rewritten_schema [OF s(3)] assms(1) s(4) fr by (simp_all add: sys_inv_def)
  note new = put_res_new [OF d1 al(5), of v]
  show "active d' (r_id r)" using new(3) s(8,9) by simp
  have "find_row rr_id (r_id r) (ress d1) = None" using d1(2) by (simp add: find_row_None)
  then show "demand d' (r_id r) = Some (ref, sk, q)"
    using s(5-7) by (simp add: s(9) demand_def find_upsert res_row_of_def)
  have "total (\<lambda>a. if ar_res a = r_id r \<and> ar_unit a = i then ar_quantity a else 0) (allocs d1) = 0"
    using no_alloc_of_fresh [OF d1] by (auto intro: total_zero)
  then show "allocated d' (r_id r) i = drawn (r_allocations r) i"
    unfolding s(9) allocated_def new(1) by (simp add: drawn_def cong: if_cong)
  have "reserved_of d1 i = reserved_of d i + drawn (r_allocations r) i \<and> quantity_of d1 i = quantity_of d i"
    by (rule rewritten_amounts [OF s(3) sys_inv_units [OF assms(1)] al(2,1)])
  then show "reserved_of d' i = reserved_of d i + drawn (r_allocations r) i" "quantity_of d' i = quantity_of d i"
    by (simp_all add: s(9))
qed

text \<open>The allocations of a stored reservation add up to its quantity.\<close>

lemma stored_total:
  assumes "sys_inv d" "stored d r"
  shows "total a_quantity (r_allocations r) = r_quantity r"
proof -
  obtain row where row: "find_row rr_id (r_id r) (ress d) = Some row" "loads d row r"
    using assms(2) by (auto simp: stored_def)
  have "books d" using assms(1) by (simp add: sys_inv_def ledger_def)
  then have "rr_quantity row = total (\<lambda>a. if ar_res a = rr_id row then ar_quantity a else 0) (allocs d)"
    using find_row_set [OF row(1)] by (simp add: books_def)
  moreover have "total a_quantity (r_allocations r) =
      total (\<lambda>a. if ar_res a = r_id r then ar_quantity a else 0) (allocs d)"
    unfolding loads_total [OF row(2)] by (rule total_cong) (simp add: alloc_of_def)
  ultimately show ?thesis using row(2) by (simp add: loads_def)
qed

lemma stored_active: "stored d r \<Longrightarrow> active d (r_id r) \<longleftrightarrow> r_status r = StatusActive"
  by (auto simp: stored_def active_def loads_def)

lemma stored_demand: "stored d r \<Longrightarrow> demand d (r_id r) = Some (r_demandRef r, r_sku r, r_quantity r)"
  by (auto simp: stored_def demand_def loads_def)

text \<open>A stow adds one unit and its quantity to one bin.\<close>

lemma stowed_amounts:
  assumes "sys_inv d" "stowed sk q b d u d'"
  shows "\<exists>bn. find_row b_id b (bins d) = Some bn \<and> b_occupied bn + q \<le> b_capacity bn"
    "u_id u \<notin> u_id ` set (units d)" "0 < q"
    "u = \<lparr>u_id = u_id u, u_sku = sk, u_bin = b, u_quantity = q, u_reserved = 0, u_state = StateAvailable, u_version = 1\<rparr>"
    "quantity_of d' i = (if i = u_id u then q else quantity_of d i)"
    "reserved_of d' i = (if i = u_id u then 0 else reserved_of d i)"
    "held d' c = held d c + (if c = b then q else 0)"
    "usable_stock d' k = usable_stock d k + (if k = sk then q else 0)"
proof -
  obtain bn bn' v v' where s: "find_row b_id b (bins d) = Some bn" "u_id u \<notin> u_id ` set (units d)"
      "NewStockUnit (u_id u) sk b q = Inr u" "Occupy bn q = Inr bn'"
      "d' = put_unit v u (put_bin v' bn' d)" "schema_ok d'"
    using assms(2) by (auto simp: stowed_def)
  have l: "ledger (claimed d) d" using assms(1) by (simp add: sys_inv_def)
  note f = NewStockUnit_fields [OF s(3)]
  then show q: "0 < q" by simp
  show u: "u = \<lparr>u_id = u_id u, u_sku = sk, u_bin = b, u_quantity = q, u_reserved = 0, u_state = StateAvailable, u_version = 1\<rparr>"
    using f by simp
  have sel: "u_sku u = sk" "u_bin u = b" "u_quantity u = q" "u_reserved u = 0" "u_state u = StateAvailable"
    by (subst u, simp)+
  show fresh: "u_id u \<notin> u_id ` set (units d)" by (rule s(2))
  have "u\<lparr>u_version := v\<rparr> \<in> set (units d')" using upsert_member by (simp add: s(5))
  then have le: "q \<le> max_int4" using s(6) sel(3) by (fastforce simp: schema_ok_def)
  have bn: "bin_ok bn" using ledger_bin [OF l find_row_set [OF s(1)]] by simp
  have "in64 (b_occupied bn + q)" using bn q le by (auto simp: bin_ok_def in64_def max_int4_def)
  then have "b_occupied bn + q \<le> b_capacity bn"
    using s(4) q by (auto simp: Occupy_exact [OF bn] split: if_splits)
  with s(1) show "\<exists>bn. find_row b_id b (bins d) = Some bn \<and> b_occupied bn + q \<le> b_capacity bn" by blast
  show "quantity_of d' i = (if i = u_id u then q else quantity_of d i)"
    "reserved_of d' i = (if i = u_id u then 0 else reserved_of d i)"
    using sel by (simp_all add: s(5))
  have none: "find_row u_id (u_id u) (units d) = None" using fresh by (simp add: find_row_None)
  show "held d' c = held d c + (if c = b then q else 0)"
    using none sel by (simp add: s(5) held_def total_upsert_None)
  have "unit_ok (u\<lparr>u_version := v\<rparr>)" using sel q le by (simp add: unit_ok_def)
  from Usable_exact [OF this] have "Usable (u\<lparr>u_version := v\<rparr>) = q" using sel by simp
  then show "usable_stock d' k = usable_stock d k + (if k = sk then q else 0)"
    using none sel by (simp add: s(5) usable_stock_def total_upsert_None)
qed

text \<open>Saving a list of different units, and nothing else.\<close>

lemma rewritten_find:
  assumes "rewritten ts d d'" "distinct (map u_id ts)"
  shows "t \<in> set ts \<Longrightarrow> \<exists>v. find_row u_id (u_id t) (units d') = Some (t\<lparr>u_version := v\<rparr>)"
    "i \<notin> u_id ` set ts \<Longrightarrow> find_row u_id i (units d') = find_row u_id i (units d)"
proof -
  have "(t \<in> set ts \<longrightarrow> (\<exists>v. find_row u_id (u_id t) (units d') = Some (t\<lparr>u_version := v\<rparr>))) \<and>
    (i \<notin> u_id ` set ts \<longrightarrow> find_row u_id i (units d') = find_row u_id i (units d))" for t i
    using assms
  proof (induction arbitrary: t i rule: rewritten.induct)
    case (rewritten_one v u d us d')
    have "find_row u_id i (units d') = find_row u_id i (units d)" if "i \<notin> u_id ` set (u # us)" for i
      using that rewritten_one by (simp add: find_upsert)
    moreover have "\<exists>v. find_row u_id (u_id t) (units d') = Some (t\<lparr>u_version := v\<rparr>)" if t: "t \<in> set (u # us)" for t
    proof (cases "t = u")
      case True
      have "u_id u \<notin> u_id ` set us" using rewritten_one.prems by simp
      then have "find_row u_id (u_id u) (units d') = find_row u_id (u_id u) (units (put_unit v u d))"
        using rewritten_one.IH rewritten_one.prems by simp
      then show ?thesis using True by (simp add: find_upsert) blast
    qed (use t rewritten_one in simp)
    ultimately show ?case by blast
  qed simp
  then show "t \<in> set ts \<Longrightarrow> \<exists>v. find_row u_id (u_id t) (units d') = Some (t\<lparr>u_version := v\<rparr>)"
    "i \<notin> u_id ` set ts \<Longrightarrow> find_row u_id i (units d') = find_row u_id i (units d)" by blast+
qed

lemma wrap64_le: "0 \<le> x \<Longrightarrow> wrap64 x \<le> x"
proof -
  assume "0 \<le> x"
  then have "(x + 2 ^ 63) mod 2 ^ 64 \<le> x + 2 ^ 63" by (intro zmod_le_nonneg_dividend) simp
  then show ?thesis by (simp add: wrap64_def)
qed

text \<open>
  A count that comes up short: the units it gives up for lost were found in the bin, cover what is
  missing, and are all it touches.
\<close>

lemma counted_short:
  assumes "sys_inv d" "counted us b n d d'" "n < system_quantity d b" "0 \<le> n"
  obtains lost where "lost = lost_units (filter locatable us) (system_quantity d b - n)"
    "set lost \<subseteq> {u \<in> set (units d). u_bin u = b \<and> locatable u}" "distinct (map u_id lost)"
    "system_quantity d b - n \<le> total u_quantity lost"
    "\<And>u. u \<in> set lost \<Longrightarrow> \<exists>v. find_row u_id (u_id u) (units d') = Some ((MarkUnlocated u)\<lparr>u_version := v\<rparr>)"
    "\<And>i. i \<notin> u_id ` set lost \<Longrightarrow> find_row u_id i (units d') = find_row u_id i (units d)"
proof -
  define lost where "lost = lost_units (filter locatable us) (system_quantity d b - n)"
  have us: "mset us = mset (filter (\<lambda>u. u_bin u = b) (units d))" "rewritten (map MarkUnlocated lost) d d'"
    using assms(2,3) by (auto simp: counted_def lost_def)
  have set_us: "set us = {u \<in> set (units d). u_bin u = b}" using us(1) by (metis mset_eq_setD set_filter)
  have "mset (map u_id us) = mset (map u_id (filter (\<lambda>u. u_bin u = b) (units d)))" using us(1) by simp
  moreover have dist: "distinct (map u_id (units d))" using assms(1) by (simp add: sys_inv_def schema_ok_def)
  ultimately have "distinct (map u_id (filter locatable us))"
    by (metis distinct_map_filter mset_eq_imp_distinct_iff)
  then have dl: "distinct (map u_id lost)" unfolding lost_def by (rule lost_units_distinct)
  have sub: "set lost \<subseteq> {u \<in> set (units d). u_bin u = b \<and> locatable u}"
    using lost_units_set [of "filter locatable us"] set_us by (auto simp: lost_def)
  have nonneg: "0 \<le> u_quantity u" if "u \<in> set (filter locatable us)" for u
    using that set_us sys_inv_units [OF assms(1), of u] by (auto simp: unit_ok_def)
  have "system_quantity d b \<le> total u_quantity (filter locatable us)"
    unfolding system_quantity_found [OF us(1), symmetric]
    by (rule wrap64_le) (rule total_nonneg, rule nonneg)
  then have cover: "system_quantity d b - n \<le> total u_quantity lost"
    unfolding lost_def using assms(3,4) by (intro lost_units_cover nonneg) simp_all
  have ids: "map u_id (map MarkUnlocated lost) = map u_id lost" by (simp add: MarkUnlocated_def)
  have dm: "distinct (map u_id (map MarkUnlocated lost))" unfolding ids by (rule dl)
  have "\<exists>v. find_row u_id (u_id u) (units d') = Some ((MarkUnlocated u)\<lparr>u_version := v\<rparr>)" if "u \<in> set lost" for u
    using rewritten_find(1) [OF us(2) dm, of "MarkUnlocated u"] that by (simp add: MarkUnlocated_def)
  moreover have "find_row u_id i (units d') = find_row u_id i (units d)" if "i \<notin> u_id ` set lost" for i
  proof (rule rewritten_find(2) [OF us(2) dm])
    show "i \<notin> u_id ` set (map MarkUnlocated lost)" using that by (auto simp: MarkUnlocated_def image_iff)
  qed
  ultimately show thesis using that [OF lost_def sub dl cover] by blast
qed

text \<open>What a registration leaves: the bin with the capacity that was asked for, and its stock.\<close>

lemma registered_amounts:
  assumes "registered i cap d b out d'"
  shows "\<exists>v. find_row b_id i (bins d') = Some (b\<lparr>b_version := v\<rparr>)" "b_id b = i" "b_capacity b = cap" "0 < cap \<or> d' = d"
    "b_occupied b = (case find_row b_id i (bins d) of None \<Rightarrow> 0 | Some b0 \<Rightarrow> b_occupied b0)"
    "out = (case find_row b_id i (bins d) of None \<Rightarrow> BinCreated
      | Some b0 \<Rightarrow> if b_capacity b0 = cap then BinUnchanged else BinResized)"
    "c \<noteq> i \<Longrightarrow> find_row b_id c (bins d') = find_row b_id c (bins d)"
    "units d' = units d" "ress d' = ress d" "out = BinUnchanged \<Longrightarrow> d' = d"
    "out = BinResized \<Longrightarrow> b_occupied b \<le> cap"
proof -
  have "(\<exists>v. find_row b_id i (bins d') = Some (b\<lparr>b_version := v\<rparr>)) \<and> b_id b = i \<and> b_capacity b = cap \<and> (0 < cap \<or> d' = d) \<and>
    b_occupied b = (case find_row b_id i (bins d) of None \<Rightarrow> 0 | Some b0 \<Rightarrow> b_occupied b0) \<and>
    out = (case find_row b_id i (bins d) of None \<Rightarrow> BinCreated
      | Some b0 \<Rightarrow> if b_capacity b0 = cap then BinUnchanged else BinResized) \<and>
    (c \<noteq> i \<longrightarrow> find_row b_id c (bins d') = find_row b_id c (bins d)) \<and>
    units d' = units d \<and> ress d' = ress d \<and> (out = BinUnchanged \<longrightarrow> d' = d) \<and> (out = BinResized \<longrightarrow> b_occupied b \<le> cap)"
  proof (cases "find_row b_id i (bins d)")
    case None
    then obtain v where n: "NewBin i cap = Inr b" "d' = put_bin v b d" "out = BinCreated"
      using assms by (auto simp: registered_def)
    note f = NewBin_fields [OF n(1)]
    then have "find_row b_id i (bins d') = Some (b\<lparr>b_version := v\<rparr>)" by (simp add: n(2) find_upsert)
    then show ?thesis using f None n(2,3) by (auto simp: find_upsert)
  next
    case (Some b0)
    have key: "b_id b0 = i" by (rule find_row_key [OF Some])
    show ?thesis
    proof (cases "b_capacity b0 = cap")
      case True
      then have n: "out = BinUnchanged" "b = b0" "d' = d" using assms Some by (auto simp: registered_def)
      have "find_row b_id i (bins d') = Some (b\<lparr>b_version := b_version b\<rparr>)" using Some n by simp
      then have "\<exists>v. find_row b_id i (bins d') = Some (b\<lparr>b_version := v\<rparr>)" ..
      then show ?thesis using True Some key n by simp
    next
      case False
      then obtain v where n: "Resize b0 cap = Inr b" "d' = put_bin v b d" "out = BinResized"
        using assms Some by (auto simp: registered_def)
      have "find_row b_id i (bins d') = Some (b\<lparr>b_version := v\<rparr>)"
        using n(1) key by (simp add: n(2) find_upsert Resize_iff)
      then show ?thesis using n False Some key by (auto simp: Resize_iff find_upsert)
    qed
  qed
  then show "\<exists>v. find_row b_id i (bins d') = Some (b\<lparr>b_version := v\<rparr>)" "b_id b = i" "b_capacity b = cap" "0 < cap \<or> d' = d"
    "b_occupied b = (case find_row b_id i (bins d) of None \<Rightarrow> 0 | Some b0 \<Rightarrow> b_occupied b0)"
    "out = (case find_row b_id i (bins d) of None \<Rightarrow> BinCreated
      | Some b0 \<Rightarrow> if b_capacity b0 = cap then BinUnchanged else BinResized)"
    "c \<noteq> i \<Longrightarrow> find_row b_id c (bins d') = find_row b_id c (bins d)"
    "units d' = units d" "ress d' = ress d" "out = BinUnchanged \<Longrightarrow> d' = d"
    "out = BinResized \<Longrightarrow> b_occupied b \<le> cap"
    by blast+
qed

text \<open>Reservations that failed half way left the quantities, the reservations and the bins alone.\<close>

lemma touched_quantity:
  assumes "rewritten ts d d'" "\<And>t. t \<in> set ts \<Longrightarrow> quantity_of d (u_id t) = u_quantity t" "distinct (map u_id ts)"
  shows "quantity_of d' i = quantity_of d i"
  using assms
proof (induction rule: rewritten.induct)
  case (rewritten_one v u d us d')
  have same: "quantity_of (put_unit v u d) j = quantity_of d j" for j using rewritten_one.prems(1) [of u] by simp
  have "quantity_of d' i = quantity_of (put_unit v u d) i"
    by (rule rewritten_one.IH) (use rewritten_one.prems same in auto)
  then show ?case using same by simp
qed simp

lemma stranded_amounts:
  assumes "sys_inv d" "stranded sk q d d'" "0 < q" "in64 q"
  shows "quantity_of d' i = quantity_of d i" "bins d' = bins d" "ress d' = ress d" "allocs d' = allocs d"
proof -
  obtain us as ts n where s: "mset us = mset (filter (\<lambda>u. u_sku u = sk) (units d))"
      "allocate us q = Inr (as, ts)" "rewritten (take n ts) d d'"
    using assms(2) by (auto simp: stranded_def)
  note al = allocate_touches [OF assms(1) s(1,2) assms(3,4)]
  show "bins d' = bins d" "ress d' = ress d" "allocs d' = allocs d" using rewritten_frame [OF s(3)] by simp_all
  have "quantity_of d (u_id t) = u_quantity t" if t: "t \<in> set (take n ts)" for t
  proof -
    obtain a where "touches d a t"
      using al(1) in_set_takeD [OF t] by (auto simp: list_all2_conv_all_nth in_set_conv_nth)
    then show ?thesis by (auto simp: touches_def quantity_of_def dest!: unit_frame(1))
  qed
  then show "quantity_of d' i = quantity_of d i"
    by (rule touched_quantity [OF s(3)]) (use al(2) in \<open>simp_all add: take_map [symmetric]\<close>)
qed

lemma returned_quantity: "sys_inv d \<Longrightarrow> returned st r d d' \<Longrightarrow> quantity_of d' i = quantity_of d i \<and> bins d' = bins d"
  using returned_amounts(2,3) by blast

lemma expires_amounts:
  "expires\<^sup>*\<^sup>* d d' \<Longrightarrow> sys_inv d \<Longrightarrow> sys_inv d' \<and> quantity_of d' i = quantity_of d i \<and> bins d' = bins d"
  by (induction rule: rtranclp_induct) (auto simp: expires_def dest: returned_quantity [of _ _ _ _ i] returned_keeps)

end
