(* ===== verification/Demo.thy ===== *)
theory Demo
  imports PostgresProofs Outcomes
begin

text \<open>
  The service at rest, between two requests, and a concrete deployment of it: a database that answers
  every statement, a facility that knows no bin, and the worlds that sequences of commands lead to from
  an empty database. The witnesses of the properties are evaluated there.
\<close>

section \<open>The service at rest\<close>

definition at_rest :: "pg_env \<Rightarrow> pg_world \<Rightarrow> bool" where
  "at_rest E w \<longleftrightarrow> env_ok E \<and> books_ok (tables w) \<and> \<not> in_tx w"

definition outbox_log :: "pg_world \<Rightarrow> encoded list" where
  "outbox_log w = map o_encoded (outbox w)"

definition snap :: "pg_world \<Rightarrow> encoded snapshot" where
  "snap w = \<lparr>inv = tables w, log = outbox_log w, intx = in_tx w\<rparr>"

lemma snap_sel [simp]:
  "inv (snap w) = tables w" "log (snap w) = outbox_log w" "intx (snap w) = in_tx w"
  by (simp_all add: snap_def)

lemma at_restD:
  assumes "at_rest E w"
  shows "pg_view E w = Some (snap w)" "\<not> intx (snap w)" "schema_ok (inv (snap w))" "sys_inv (tables w)"
    "claimed_once (tables w)" "env_ok E" "\<not> in_tx w"
  using assms by (auto simp: at_rest_def pg_view_Some outbox_log_def books_ok_def sys_inv_def)

lemma viewD: "pg_view E w = Some s \<Longrightarrow> tables w = inv s \<and> outbox_log w = log s \<and> in_tx w = intx s"
  by (simp add: pg_view_Some outbox_log_def)

lemma pg_sound: "pg.sound E w \<longleftrightarrow> at_rest E w"
  by (auto simp: pg.sound_def at_rest_def pg_view_Some books_ok_schema intro!: exI [of _ "snap w"] simp: outbox_log_def)

lemma reach_at_rest: "reach (pg_ports E timeout) w w' \<Longrightarrow> at_rest E w \<Longrightarrow> at_rest E w'"
  using pg.reach_sound [of E timeout w w'] by (simp add: pg_sound)

lemma run_split: "fst (m w) = x \<Longrightarrow> m w = (x, snd (m w))"
  by (rule prod_eqI) simp_all

lemma ranE:
  assumes "case fst (m w) of Inl e \<Rightarrow> False | Inr r \<Rightarrow> p r"
  obtains r where "m w = (Inr r, snd (m w))" "p r"
  using assms by (cases "fst (m w)") (auto intro: that run_split)

text \<open>The use cases that run in one transaction, or in none because they only read.\<close>

fun in_one_transaction :: "command \<Rightarrow> bool" where
  "in_one_transaction (Receive _ _) = True"
| "in_one_transaction (Stow _ _ _) = True"
| "in_one_transaction (Run_cycle_count _ _) = True"
| "in_one_transaction (Register_bin _ _) = True"
| "in_one_transaction (Classify _ _ _ _) = True"
| "in_one_transaction (Get_bin _) = True"
| "in_one_transaction (Get_usable _) = True"
| "in_one_transaction _ = False"

lemma discard_error: "discard m w = (Inl e, w') \<longleftrightarrow> m w = (Inl e, w')"
  by (auto simp: discard_def andthen_def ret_def split: prod.splits sum.splits)

section \<open>A deployment\<close>

definition demo_sdk :: sdk where
  "demo_sdk = \<lparr>sdk_marshal = (\<lambda>e. Inr (ce_id e)), sdk_unmarshal = (\<lambda>_. None), sdk_valid = (\<lambda>_. True)\<rparr>"

definition demo_env :: pg_env where
  "demo_env =
     \<lparr>fails = (\<lambda>_. False), wall_clock = int, uuid = (\<lambda>_ used. concat used @ ''x''),
      scan_units = (\<lambda>_ us. us), scan_ress = (\<lambda>_ rs. rs), slots = (\<lambda>_ _. Inr unknown_slot),
      spans = (\<lambda>_. []), events_sdk = demo_sdk\<rparr>"

text \<open>The same, with a connection that is lost at the \<open>n\<close>-th interaction only.\<close>

definition demo_failing :: "nat \<Rightarrow> pg_env" where
  "demo_failing n = demo_env\<lparr>fails := (\<lambda>k. k = n)\<rparr>"

definition demo_world :: pg_world where
  "demo_world = \<lparr>tables = empty_inventory, outbox = [], idem = [], seq = 1, tick = 0, in_tx = False,
     aborted = False, created_total = 0, revoked_total = 0\<rparr>"

definition demo_run :: "command list \<Rightarrow> pg_world" where
  "demo_run cs = foldl (\<lambda>w c. snd (run_command (pg_ports demo_env 0) c w)) demo_world cs"

lemma fresh_uuid: "(concat used @ ''x'' :: string) \<notin> set used"
proof
  assume "concat used @ ''x'' \<in> set used"
  moreover have "length s \<le> length (concat used)" if "s \<in> set used" for s :: string
    using that by (induction used) auto
  ultimately show False by fastforce
qed

lemma demo_env_ok: "env_ok demo_env"
  using fresh_uuid by (simp add: env_ok_def demo_env_def)

lemma demo_failing_ok: "env_ok (demo_failing n)"
  using fresh_uuid by (simp add: env_ok_def demo_env_def demo_failing_def)

lemma demo_reach: "list_all command_ok cs \<Longrightarrow> reach (pg_ports demo_env 0) demo_world (demo_run cs)"
proof (induction cs rule: rev_induct)
  case Nil
  show ?case by (simp add: demo_run_def reach_init)
next
  case (snoc c cs)
  then have "reach (pg_ports demo_env 0) demo_world (demo_run cs)" "command_ok c" by simp_all
  from reach_step [OF this] show ?case by (simp add: demo_run_def)
qed

lemma demo_start: "env_ok E \<Longrightarrow> at_rest E demo_world"
  by (simp add: at_rest_def demo_world_def books_ok_empty)

lemma demo_at_rest: "list_all command_ok cs \<Longrightarrow> env_ok E \<Longrightarrow> at_rest E (demo_run cs)"
  using reach_at_rest [OF demo_reach demo_start [OF demo_env_ok], of cs] by (simp add: at_rest_def)

definition demo_bins :: pg_world where "demo_bins = demo_run [Register_bin ''A'' 10]"

definition demo_stocked :: pg_world where
  "demo_stocked = demo_run [Register_bin ''A'' 10, Stow ''S'' 5 ''A'']"

definition demo_reserved :: pg_world where
  "demo_reserved = demo_run [Register_bin ''A'' 10, Stow ''S'' 5 ''A'', Reserve_stock ''S'' 3 ''D'']"

text \<open>The deployment an hour later.\<close>

definition demo_late :: pg_env where
  "demo_late = demo_env\<lparr>wall_clock := (\<lambda>n. 3600000000000 + int n)\<rparr>"

lemma demo_late_ok: "env_ok demo_late"
  using fresh_uuid by (simp add: env_ok_def demo_env_def demo_late_def)

lemma demo_worlds_at_rest:
  assumes "env_ok E"
  shows "at_rest E demo_bins" "at_rest E demo_stocked" "at_rest E demo_reserved"
  unfolding demo_bins_def demo_stocked_def demo_reserved_def
  by (rule demo_at_rest [OF _ assms], simp add: in64_def)+

lemmas demo_rests = demo_worlds_at_rest [OF demo_env_ok] demo_worlds_at_rest [OF demo_late_ok]

text \<open>What the inventory of a world says of a reservation.\<close>

definition status_of :: "pg_world \<Rightarrow> string \<Rightarrow> status option" where
  "status_of w i = map_option rr_status (find_row rr_id i (ress (tables w)))"

end
