(* ===== verification/Operations.thy ===== *)
theory Operations
  imports Demo
begin

text \<open>
  What the remaining use cases leave behind: a cycle count, the registration of a bin, and a reservation
  that could not be made.
\<close>

section \<open>Cycle counts\<close>

text \<open>The units a count gives up for lost are no more than it needs, and its events name the portions.\<close>

lemma lost_units_least:
  assumes "\<And>u. u \<in> set us \<Longrightarrow> 0 \<le> u_quantity u" "0 < n"
  shows "total u_quantity (butlast (lost_units us n)) < n"
  using assms
proof (induction us n rule: lost_units.induct)
  case (2 u us n)
  have u: "0 \<le> u_quantity u" "\<And>x. x \<in> set us \<Longrightarrow> 0 \<le> u_quantity x" using "2.prems"(1) by simp_all
  show ?case
  proof (cases "n \<le> u_quantity u")
    case True
    then have "lost_units us (n - min n (u_quantity u)) = []" by (cases us) simp_all
    then show ?thesis using "2.prems"(2) by simp
  next
    case False
    then have "total u_quantity (butlast (lost_units us (n - u_quantity u))) < n - u_quantity u"
      using "2.IH" u "2.prems"(2) by simp
    then show ?thesis using "2.prems"(2) False u(1) by simp
  qed
qed simp

fun unlocated_portion :: "domain_event \<Rightarrow> quantity" where
  "unlocated_portion (ItemUnlocated _ _ _ _ q) = q"
| "unlocated_portion _ = 0"

lemma lost_portions:
  assumes "\<And>u. u \<in> set us \<Longrightarrow> 0 \<le> u_quantity u" "0 \<le> n" "n \<le> total u_quantity us"
  shows "total unlocated_portion (lost_events t b us n) = n"
  using assms
proof (induction us n rule: lost_units.induct)
  case (2 u us n)
  have u: "0 \<le> u_quantity u" "\<And>x. x \<in> set us \<Longrightarrow> 0 \<le> u_quantity x" using "2.prems"(1) by simp_all
  show ?case
  proof (cases "n = 0")
    case False
    have "total unlocated_portion (lost_events t b us (n - min n (u_quantity u))) = n - min n (u_quantity u)"
      using "2.IH" [OF False u(2)] "2.prems"(2,3) u(1) total_nonneg [of us u_quantity] u(2) by simp
    with False show ?thesis by simp
  qed simp
qed simp

lemma found_nonneg:
  assumes "sys_inv d" "mset us = mset (filter p (units d))" "u \<in> set (filter q us)"
  shows "0 \<le> u_quantity u"
proof -
  have "u \<in> set (units d)" using assms(2,3) by (metis filter_is_subset mset_eq_setD subsetD)
  then show ?thesis using sys_inv_units [OF assms(1)] by (force simp: unit_ok_def)
qed

lemma count_portions:
  assumes "sys_inv d" "mset us = mset (filter (\<lambda>u. u_bin u = b) (units d))" "0 \<le> n"
  shows "total unlocated_portion (count_events t us b n (system_quantity d b)) = max 0 (system_quantity d b - n)"
proof -
  note nonneg = found_nonneg [OF assms(1,2)]
  have "system_quantity d b \<le> total u_quantity (filter locatable us)"
    unfolding system_quantity_found [OF assms(2), symmetric]
    by (rule wrap64_le) (rule total_nonneg, rule nonneg)
  then have "total unlocated_portion (lost_events t b (filter locatable us) (system_quantity d b - n)) = system_quantity d b - n"
    if "n < system_quantity d b"
    using that assms(3) by (intro lost_portions nonneg) simp_all
  then show ?thesis by (simp add: count_events_def)
qed

text \<open>
  C6. A cycle count returns what was counted beside what the system held to be in the bin, and moves no
  quantity, bin or reservation. When as much or more was counted it changes nothing; when less was counted,
  it marks UNLOCATED a smallest run of located units of that bin that covers what is missing, no other row
  is touched, and the portions in the ItemUnlocated events it enqueues add up to exactly what is missing.
\<close>

theorem count_finds_shortage:
  assumes "at_rest E w" "0 \<le> n" "in64 n"
    and "RunCycleCount_Execute (pg_ports E timeout) b n w = (Inr r, w')"
  shows "cc_counted r = n \<and> cc_system r = system_quantity (tables w) b \<and> (cc_discrepancy r \<longleftrightarrow> n \<noteq> cc_system r) \<and>
    bins (tables w') = bins (tables w) \<and> ress (tables w') = ress (tables w) \<and>
    (cc_system r \<le> n \<longrightarrow> tables w' = tables w) \<and>
    (n < cc_system r \<longrightarrow> (\<exists>lost. set lost \<subseteq> {u \<in> set (units (tables w)). u_bin u = b \<and> locatable u} \<and>
       total u_quantity (butlast lost) < cc_system r - n \<and> cc_system r - n \<le> total u_quantity lost \<and>
       (\<forall>u \<in> set lost. \<exists>v. find_row u_id (u_id u) (units (tables w')) = Some (u\<lparr>u_state := StateUnlocated, u_version := v\<rparr>)) \<and>
       (\<forall>i. i \<notin> u_id ` set lost \<longrightarrow> find_row u_id i (units (tables w')) = find_row u_id i (units (tables w))))) \<and>
    (\<exists>es t ms. enqueued (pg_wire E) es (ress (tables w)) ms \<and> outbox_log w' = outbox_log w @ ms \<and>
       es \<noteq> [] \<and> last es = CycleCountCompleted t b n (cc_system r) (cc_discrepancy r) \<and>
       total unlocated_portion es = max 0 (cc_system r - n))"
proof -
  note rest = at_restD [OF assms(1)]
  obtain us t d' ms where s: "counted us b n (tables w) d'"
      "enqueued (pg_wire E) (count_events t us b n (system_quantity (tables w) b)) (ress (tables w)) ms"
      "r = \<lparr>cc_bin = b, cc_counted = n, cc_system = system_quantity (tables w) b,
         cc_discrepancy = (n \<noteq> system_quantity (tables w) b)\<rparr>"
      "pg_view E w' = Some ((snap w)\<lparr>inv := d', log := outbox_log w @ ms\<rparr>)"
    using tripleR [OF pg.cycle_count [OF rest(2) assms(2,3) rest(3)] rest(1) assms(4)] by auto
  from viewD [OF s(4)] have w': "tables w' = d'" "outbox_log w' = outbox_log w @ ms" by simp_all
  have us: "mset us = mset (filter (\<lambda>u. u_bin u = b) (units (tables w)))" using s(1) by (simp add: counted_def)
  have frame: "bins d' = bins (tables w)" "ress d' = ress (tables w)"
    using s(1) rewritten_frame by (auto simp: counted_def split: if_splits)
  have less: "\<exists>lost. set lost \<subseteq> {u \<in> set (units (tables w)). u_bin u = b \<and> locatable u} \<and>
       total u_quantity (butlast lost) < cc_system r - n \<and> cc_system r - n \<le> total u_quantity lost \<and>
       (\<forall>u \<in> set lost. \<exists>v. find_row u_id (u_id u) (units d') = Some (u\<lparr>u_state := StateUnlocated, u_version := v\<rparr>)) \<and>
       (\<forall>i. i \<notin> u_id ` set lost \<longrightarrow> find_row u_id i (units d') = find_row u_id i (units (tables w)))"
    if n: "n < cc_system r"
  proof -
    have n': "n < system_quantity (tables w) b" using n s(3) by simp
    obtain lost where l: "lost = lost_units (filter locatable us) (system_quantity (tables w) b - n)"
        "set lost \<subseteq> {u \<in> set (units (tables w)). u_bin u = b \<and> locatable u}" "distinct (map u_id lost)"
        "system_quantity (tables w) b - n \<le> total u_quantity lost"
        "\<And>u. u \<in> set lost \<Longrightarrow> \<exists>v. find_row u_id (u_id u) (units d') = Some ((MarkUnlocated u)\<lparr>u_version := v\<rparr>)"
        "\<And>i. i \<notin> u_id ` set lost \<Longrightarrow> find_row u_id i (units d') = find_row u_id i (units (tables w))"
      by (rule counted_short [OF rest(4) s(1) n' assms(2)], rule that; blast)
    have "total u_quantity (butlast lost) < system_quantity (tables w) b - n"
      unfolding l(1) using n' by (intro lost_units_least found_nonneg [OF rest(4) us]) simp_all
    then show ?thesis using l(2,4-6) s(3) by (intro exI [of _ lost]) (simp add: MarkUnlocated_def)
  qed
  have "count_events t us b n (system_quantity (tables w) b) \<noteq> []"
    "last (count_events t us b n (system_quantity (tables w) b)) = CycleCountCompleted t b n (cc_system r) (cc_discrepancy r)"
    by (simp_all add: count_events_def s(3))
  with count_portions [OF rest(4) us assms(2), of t] s(2) w'(2)
  have "\<exists>es t ms. enqueued (pg_wire E) es (ress (tables w)) ms \<and> outbox_log w' = outbox_log w @ ms \<and>
       es \<noteq> [] \<and> last es = CycleCountCompleted t b n (cc_system r) (cc_discrepancy r) \<and>
       total unlocated_portion es = max 0 (cc_system r - n)"
    by (intro exI [of _ "count_events t us b n (system_quantity (tables w) b)"] exI [of _ t] exI [of _ ms]) (simp add: s(3))
  moreover have "d' = tables w" if "cc_system r \<le> n" using that s(1,3) by (simp add: counted_def)
  ultimately show ?thesis using less frame s(3) w'(1) by simp
qed

lemma count_finds_shortage_witness:
  "let w' = snd (RunCycleCount_Execute (pg_ports demo_env 0) ''A'' 3 demo_stocked) in
   ress (tables w') = ress (tables demo_stocked) \<and> bins (tables w') = bins (tables demo_stocked)"
proof -
  have "case fst (RunCycleCount_Execute (pg_ports demo_env 0) ''A'' 3 demo_stocked) of
      Inl e \<Rightarrow> False | Inr r \<Rightarrow> cc_system r = 5" by code_simp
  then obtain r where
      "RunCycleCount_Execute (pg_ports demo_env 0) ''A'' 3 demo_stocked =
        (Inr r, snd (RunCycleCount_Execute (pg_ports demo_env 0) ''A'' 3 demo_stocked))" "cc_system r = 5"
    by (rule ranE)
  with count_finds_shortage [OF demo_rests(2) _ _ this(1)] show ?thesis by (simp add: in64_def Let_def)
qed

section \<open>Registering a bin\<close>

text \<open>
  C11. Registering a bin that succeeds leaves it with the capacity that was asked for and with the stock it
  had, which fits; whether it was created, resized or left alone is what the database held of it before, and
  no other bin, no unit, no reservation and no event is touched.
\<close>

theorem register_sets_capacity:
  assumes "at_rest E w" "RegisterBin_Execute (pg_ports E timeout) i cap w = (Inr r, w')"
  shows "\<exists>b out. r = Some (b, out) \<and> (\<exists>v. find_row b_id i (bins (tables w')) = Some (b\<lparr>b_version := v\<rparr>)) \<and> b_id b = i \<and>
    b_capacity b = cap \<and> 0 < cap \<and> b_occupied b = held (tables w) i \<and> b_occupied b \<le> cap \<and>
    out = (case find_row b_id i (bins (tables w)) of None \<Rightarrow> BinCreated
      | Some b0 \<Rightarrow> if b_capacity b0 = cap then BinUnchanged else BinResized) \<and>
    (\<forall>c. c \<noteq> i \<longrightarrow> find_row b_id c (bins (tables w')) = find_row b_id c (bins (tables w))) \<and>
    units (tables w') = units (tables w) \<and> ress (tables w') = ress (tables w) \<and> outbox_log w' = outbox_log w"
proof -
  note rest = at_restD [OF assms(1)]
  obtain b out d' where s: "registered i cap (tables w) b out d'" "r = Some (b, out)" "pg_view E w' = Some ((snap w)\<lparr>inv := d'\<rparr>)"
    using tripleR [OF pg.register [OF rest(2,3)] rest(1) assms(2)] by auto
  from viewD [OF s(3)] have w': "tables w' = d'" "outbox_log w' = outbox_log w" by simp_all
  note a = registered_amounts [OF s(1)]
  obtain v where v: "find_row b_id i (bins d') = Some (b\<lparr>b_version := v\<rparr>)" using a(1) by blast
  have "ledger (claimed d') d'" using registered_keeps [OF rest(4) s(1)] by (simp add: sys_inv_def)
  from ledger_bin [OF this find_row_set [OF v]]
  have "bin_ok b" "b_occupied b = held d' i" using a(2) by (simp_all add: bin_ok_def)
  moreover have "0 < cap" using assms(2) by (auto simp: RegisterBin_Execute_def throw_def split: if_splits)
  moreover have "held d' i = held (tables w) i" using a(8) by (simp add: held_def)
  ultimately show ?thesis using a v w' s(2) by (auto simp: bin_ok_def)
qed

lemma register_sets_capacity_witness:
  "let w' = snd (RegisterBin_Execute (pg_ports demo_env 0) ''A'' 7 demo_stocked) in
   map_option b_capacity (find_row b_id ''A'' (bins (tables w'))) = Some 7 \<and> units (tables w') = units (tables demo_stocked)"
proof -
  have "case fst (RegisterBin_Execute (pg_ports demo_env 0) ''A'' 7 demo_stocked) of
      Inl e \<Rightarrow> False | Inr r \<Rightarrow> map_option snd r = Some BinResized" by code_simp
  then obtain r where
      "RegisterBin_Execute (pg_ports demo_env 0) ''A'' 7 demo_stocked =
        (Inr r, snd (RegisterBin_Execute (pg_ports demo_env 0) ''A'' 7 demo_stocked))"
    by (auto elim!: ranE)
  from register_sets_capacity [OF demo_rests(2) this] show ?thesis by (auto simp: Let_def)
qed

section \<open>A reservation that could not be made\<close>

text \<open>
  C10. A call of ReserveStock that returns an error has created no reservation and reactivated none: no unit
  lost or gained quantity, the bins are as they were, every reservation has the terms it had, those that are
  ACTIVE were so before, and the books balance. It may have written down as reserved what nobody claims.
\<close>

theorem failed_reserve_claims_nothing:
  assumes "at_rest E w" "in64 q"
    and "ReserveStock_Execute (pg_ports E timeout) sk q ref w = (Inl e, w')"
  shows "at_rest E w' \<and> (\<forall>u. quantity_of (tables w') u = quantity_of (tables w) u) \<and>
    bins (tables w') = bins (tables w) \<and>
    (\<forall>i. demand (tables w') i = demand (tables w) i \<and> (active (tables w') i \<longrightarrow> active (tables w) i))"
proof -
  note rest = at_restD [OF assms(1)]
  obtain s' where s: "expires\<^sup>*\<^sup>* (tables w) (inv s')" "same_terms (tables w) (inv s')"
      "pg_view E w' = Some s' \<and> \<not> intx s' \<or>
       (\<exists>s''. 0 < q \<and> pg_view E w' = Some s'' \<and> \<not> intx s'' \<and> stranded sk q (inv s') (inv s''))"
    using tripleL [OF pg.reserve [OF rest(2,3)] rest(1) assms(3)] by auto
  have inv: "sys_inv (inv s')" "bins (inv s') = bins (tables w)" "quantity_of (inv s') u = quantity_of (tables w) u" for u
    using expires_amounts [OF s(1) rest(4)] by blast+
  have "same_terms (tables w) (tables w') \<and> bins (tables w') = bins (tables w) \<and>
      (\<forall>u. quantity_of (tables w') u = quantity_of (tables w) u)"
    using s(3)
  proof (elim disjE exE conjE)
    assume "pg_view E w' = Some s'"
    from viewD [OF this] show ?thesis using inv s(2) by simp
  next
    fix s'' assume a: "0 < q" "pg_view E w' = Some s''" "stranded sk q (inv s') (inv s'')"
    note st = stranded_amounts [OF inv(1) a(3,1) assms(2)]
    from viewD [OF a(2)] have "tables w' = inv s''" by simp
    moreover have "same_terms (inv s') (inv s'')" by (rule same_ress_terms [OF st(3)])
    ultimately show ?thesis using inv st s(2) by (metis same_terms_trans)
  qed
  moreover have "at_rest E w'"
  proof (rule reach_at_rest [OF _ assms(1)])
    have "run_command (pg_ports E timeout) (Reserve_stock sk q ref) w = (Inl e, w')"
      using assms(3) by (simp add: discard_error)
    then show "reach (pg_ports E timeout) w w'"
      using reach_step [OF reach_init, of "Reserve_stock sk q ref" "pg_ports E timeout" w] assms(2) by simp
  qed
  ultimately show ?thesis by (auto simp: same_terms_def dest: same_terms_active)
qed

lemma failed_reserve_claims_nothing_witness:
  "let w' = snd (ReserveStock_Execute (pg_ports (demo_failing 26) 0) ''S'' 3 ''D'' demo_stocked) in
   at_rest (demo_failing 26) w' \<and> bins (tables w') = bins (tables demo_stocked)"
proof -
  have "case fst (ReserveStock_Execute (pg_ports (demo_failing 26) 0) ''S'' 3 ''D'' demo_stocked) of
      Inl e \<Rightarrow> True | Inr r \<Rightarrow> False" by code_simp
  then obtain e where
      "ReserveStock_Execute (pg_ports (demo_failing 26) 0) ''S'' 3 ''D'' demo_stocked =
        (Inl e, snd (ReserveStock_Execute (pg_ports (demo_failing 26) 0) ''S'' 3 ''D'' demo_stocked))"
    by (cases "fst (ReserveStock_Execute (pg_ports (demo_failing 26) 0) ''S'' 3 ''D'' demo_stocked)") (auto intro: run_split)
  from failed_reserve_claims_nothing [OF demo_worlds_at_rest(2) [OF demo_failing_ok] _ this] show ?thesis
    by (simp add: in64_def Let_def)
qed

end
