(* ===== verification/Preserves.thy ===== *)
theory Preserves
  imports Postgres
begin

text \<open>
  Programs over the database whose every run, successful or not, moves the tables and the outbox along a
  preorder: one that leaves a part of them alone, or one along which versions grow. The locale gives the
  closure of such programs under the ways they are composed, transactions that roll back included.
\<close>

type_synonym stored_part = "inventory \<times> outbox_row list"

definition stored_part :: "pg_world \<Rightarrow> stored_part" where "stored_part w = (tables w, outbox w)"

definition preserves :: "(stored_part \<Rightarrow> stored_part \<Rightarrow> bool) \<Rightarrow> (pg_world, 'e, 'a) prog \<Rightarrow> bool" where
  "preserves R m \<longleftrightarrow> (\<forall>w. R (stored_part w) (stored_part (snd (m w))))"

lemma preservesD: "preserves R m \<Longrightarrow> m w = (r, w') \<Longrightarrow> R (stored_part w) (stored_part w')"
  unfolding preserves_def by (metis snd_conv)

lemma stored_part_simps [simp]:
  "stored_part (next_tick w) = stored_part w" "stored_part (w\<lparr>aborted := a\<rparr>) = stored_part w"
  "stored_part (w\<lparr>in_tx := t\<rparr>) = stored_part w" "stored_part (rolled_back w w') = stored_part w"
  by (simp_all add: stored_part_def next_tick_def rolled_back_def)

locale preorder_kept =
  fixes R :: "stored_part \<Rightarrow> stored_part \<Rightarrow> bool"
  assumes R_refl [simp]: "R p p" and R_trans: "R p q \<Longrightarrow> R q r \<Longrightarrow> R p r"
begin

lemma basic: "preserves R (ret x)" "preserves R (throw e)" "preserves R (lift r)"
  by (simp_all add: preserves_def ret_def throw_def lift_def)

lemma bind: "preserves R m \<Longrightarrow> (\<And>x. preserves R (f x)) \<Longrightarrow> preserves R (andthen m f)"
  unfolding preserves_def
  by (auto simp: andthen_def split: prod.split sum.split) (metis snd_conv R_trans)+

lemma branch: "preserves R m \<Longrightarrow> preserves R n \<Longrightarrow> preserves R (if c then m else n)"
  by simp

lemma on_option:
  "preserves R m \<Longrightarrow> (\<And>x. preserves R (f x)) \<Longrightarrow> preserves R (case z of None \<Rightarrow> m | Some x \<Rightarrow> f x)"
  by (cases z) simp_all

lemma on_captured:
  "preserves R m \<Longrightarrow> (\<And>r. preserves R (f r)) \<Longrightarrow> preserves R (case c of Captured_reservation r \<Rightarrow> f r | _ \<Rightarrow> m)"
  by (cases c) simp_all

lemma loop: "(\<And>x. preserves R (f x)) \<Longrightarrow> preserves R (each f xs)"
  by (induction xs) (auto intro: basic bind)

lemma statement: "preserves R m \<Longrightarrow> preserves R (sql E m)"
proof -
  assume m: "preserves R m"
  have "R (stored_part w) (stored_part (snd (m (next_tick w))))" for w
    using preservesD [OF m surjective_pairing, of "next_tick w"] by simp
  then show ?thesis by (simp add: preserves_def sql_def)
qed

lemma begun: "begin_tx E w = (r, w') \<Longrightarrow> stored_part w' = stored_part w"
  by (auto simp: begin_tx_def split: if_splits)

lemma ended: "commit_tx E w0 w = (r, w') \<Longrightarrow> stored_part w' = stored_part w0 \<or> stored_part w' = stored_part w"
  by (auto simp: commit_tx_def split: if_splits)

lemma transaction:
  assumes f: "preserves R f"
  shows "preserves R (beginOrJoin E f)"
  unfolding preserves_def
proof
  fix w
  show "R (stored_part w) (stored_part (snd (beginOrJoin E f w)))"
  proof (cases "begin_tx E w")
    case (Pair r w1)
    note b = begun [OF Pair]
    have in_f: "R (stored_part w) (stored_part w2)" if "f w1 = (y, w2)" for y w2
      using preservesD [OF f that] b by simp
    have end_f: "R (stored_part w) (stored_part (snd (commit_tx E w w2)))" if "f w1 = (y, w2)" for y w2
      using ended [of E w w2 "fst (commit_tx E w w2)" "snd (commit_tx E w w2)"] in_f [OF that] by auto
    show ?thesis
      using preservesD [OF f surjective_pairing, of w]
      by (auto simp: beginOrJoin_def Pair b split: sum.split prod.split dest: end_f)
  qed
qed

lemmas rules = basic bind branch on_option on_captured loop transaction

end

section \<open>Leaving the outbox alone\<close>

definition same_outbox :: "stored_part \<Rightarrow> stored_part \<Rightarrow> bool" where "same_outbox p q \<longleftrightarrow> snd q = snd p"

interpretation quiet: preorder_kept same_outbox
  by unfold_locales (simp_all add: same_outbox_def)

lemma quiet_repos:
  "preserves same_outbox (StockRepo_Save E u)" "preserves same_outbox (StockRepo_FindByID E i)"
  "preserves same_outbox (StockRepo_FindBySKU E k)" "preserves same_outbox (StockRepo_FindByBin E b)"
  "preserves same_outbox (save_reservation_row E r)" "preserves same_outbox (save_allocation E i a)"
  "preserves same_outbox (loadAllocations E i)"
  unfolding StockRepo_Save_def StockRepo_FindByID_def StockRepo_FindBySKU_def StockRepo_FindByBin_def
    save_reservation_row_def save_allocation_def loadAllocations_def
  by (rule quiet.statement; simp add: preserves_def same_outbox_def reject_def stored_part_def split: option.split)+

lemma quiet_res_repo:
  "preserves same_outbox (ReservationRepo_Save E r)"
  "preserves same_outbox (ReservationRepo_FindByID E i)"
  unfolding ReservationRepo_Save_def ReservationRepo_FindByID_def
  by (intro quiet.rules quiet_repos quiet.statement; simp add: preserves_def)+

lemmas quiet_rules = quiet.rules quiet_repos quiet_res_repo

section \<open>Versions that only grow\<close>

text \<open>No row disappears, and a row that changed has a higher version.\<close>

definition row_order :: "('r \<Rightarrow> string) \<Rightarrow> ('r \<Rightarrow> int) \<Rightarrow> 'r list \<Rightarrow> 'r list \<Rightarrow> bool" where
  "row_order key version rs rs' \<longleftrightarrow> (\<forall>k r. find_row key k rs = Some r \<longrightarrow>
     (\<exists>r'. find_row key k rs' = Some r' \<and> (r' = r \<or> version r < version r')))"

lemma row_order_refl [simp]: "row_order key version rs rs"
  by (simp add: row_order_def)

lemma row_order_trans: "row_order key version rs ss \<Longrightarrow> row_order key version ss ts \<Longrightarrow> row_order key version rs ts"
  unfolding row_order_def by (metis order_less_trans)

lemma row_order_upsert:
  "(\<And>old. find_row key (key x) rs = Some old \<Longrightarrow> version old < version x) \<Longrightarrow> row_order key version rs (upsert key x rs)"
  by (auto simp: row_order_def find_upsert)

definition unit_order :: "stored_part \<Rightarrow> stored_part \<Rightarrow> bool" where
  "unit_order p q \<longleftrightarrow> row_order u_id u_version (units (fst p)) (units (fst q))"

definition bin_order :: "stored_part \<Rightarrow> stored_part \<Rightarrow> bool" where
  "bin_order p q \<longleftrightarrow> row_order b_id b_version (bins (fst p)) (bins (fst q))"

definition res_order :: "stored_part \<Rightarrow> stored_part \<Rightarrow> bool" where
  "res_order p q \<longleftrightarrow> row_order rr_id rr_version (ress (fst p)) (ress (fst q))"

lemmas order_defs = unit_order_def bin_order_def res_order_def

interpretation ou: preorder_kept unit_order by unfold_locales (auto simp: order_defs intro: row_order_trans)
interpretation obn: preorder_kept bin_order by unfold_locales (auto simp: order_defs intro: row_order_trans)
interpretation ors: preorder_kept res_order by unfold_locales (auto simp: order_defs intro: row_order_trans)

lemma put_orders:
  "(\<And>old. find_row u_id (u_id u) (units d) = Some old \<Longrightarrow> u_version old < v) \<Longrightarrow> row_order u_id u_version (units d) (units (put_unit v u d))"
  "(\<And>old. find_row b_id (b_id b) (bins d) = Some old \<Longrightarrow> b_version old < v) \<Longrightarrow> row_order b_id b_version (bins d) (bins (put_bin v b d))"
  by (auto simp: put_unit_def put_bin_def intro: row_order_upsert)

lemma save_orders:
  "preserves unit_order (StockRepo_Save E u)" "preserves bin_order (StockRepo_Save E u)" "preserves res_order (StockRepo_Save E u)"
  "preserves unit_order (LocationRepo_Save E b)" "preserves bin_order (LocationRepo_Save E b)" "preserves res_order (LocationRepo_Save E b)"
  "preserves unit_order (ClassificationRepo_Save E c)" "preserves bin_order (ClassificationRepo_Save E c)"
  "preserves res_order (ClassificationRepo_Save E c)"
  "preserves unit_order (insert_outbox E m)" "preserves bin_order (insert_outbox E m)" "preserves res_order (insert_outbox E m)"
  "preserves unit_order (save_reservation_row E r)" "preserves bin_order (save_reservation_row E r)"
  "preserves unit_order (save_allocation E i a)" "preserves bin_order (save_allocation E i a)"
  "preserves res_order (save_allocation E i a)"
  unfolding StockRepo_Save_def LocationRepo_Save_def ClassificationRepo_Save_def insert_outbox_def
    save_reservation_row_def save_allocation_def
  by (rule ou.statement obn.statement ors.statement;
      auto simp: preserves_def order_defs reject_def stored_part_def res_row_of_def put_class_def put_unit_def put_bin_def
        intro!: row_order_upsert split: option.split)+

lemma save_row_order: "preserves res_order (save_reservation_row E r)"
proof -
  have "row_order rr_id rr_version rs (upsert rr_id (res_row_of v r (Some old)) rs)"
    if "find_row rr_id (r_id r) rs = Some old" "rr_version old < v" for rs old v
    using that find_row_key [OF that(1)] by (intro row_order_upsert) (simp add: res_row_of_def)
  moreover have "row_order rr_id rr_version rs (upsert rr_id (res_row_of v r None) rs)"
    if "find_row rr_id (r_id r) rs = None" for rs v
    using that by (intro row_order_upsert) (simp add: res_row_of_def)
  ultimately show ?thesis
    unfolding save_reservation_row_def
    by (intro ors.statement) (auto simp: preserves_def order_defs reject_def stored_part_def split: option.split)
qed

lemma reservation_orders:
  "preserves unit_order (ReservationRepo_Save E r)" "preserves bin_order (ReservationRepo_Save E r)"
  "preserves res_order (ReservationRepo_Save E r)"
  unfolding ReservationRepo_Save_def
  by (intro ou.rules save_orders, intro obn.rules save_orders, intro ors.rules save_orders save_row_order)

end
