(* ===== verification/Concurrency.thy ===== *)
theory Concurrency
  imports Preserves Demo
begin

text \<open>
  What the version column promises when other sessions write between the read and the save of this one. A
  session's transaction takes effect when it commits, so for another session the database goes through the
  effects of whole saves, in any order and from any session: \<open>db_step\<close>.
\<close>

section \<open>Optimistic locking\<close>

text \<open>
  A table whose rows have a key and a version. Any step of any session leaves a row as it is or writes it
  with a higher version, and a save succeeds only on a row that has the version it carries.
\<close>

locale versioned =
  fixes step :: "'w \<Rightarrow> 'w \<Rightarrow> bool"
    and rows :: "'w \<Rightarrow> 'r list"
    and key :: "'r \<Rightarrow> string"
    and version :: "'r \<Rightarrow> int"
    and saves :: "string \<Rightarrow> int \<Rightarrow> 'w \<Rightarrow> 'w \<Rightarrow> bool"
  assumes step_rows: "step w w' \<Longrightarrow> row_order key version (rows w) (rows w')"
    and save_checked: "saves k v w w' \<Longrightarrow> find_row key k (rows w) = Some r \<Longrightarrow>
      version r = v \<and> (\<exists>r'. find_row key k (rows w') = Some r' \<and> v < version r')"
begin

lemma steps_rows: "step\<^sup>*\<^sup>* w w' \<Longrightarrow> row_order key version (rows w) (rows w')"
proof (induction rule: rtranclp_induct)
  case (step w1 w2)
  from step.IH step_rows [OF step.hyps(2)] show ?case by (rule row_order_trans)
qed simp

lemma saved_unchanged:
  assumes "step\<^sup>*\<^sup>* w w1" "find_row key k (rows w) = Some r" "saves k (version r) w1 w2"
  shows "find_row key k (rows w1) = Some r"
proof -
  obtain r' where r': "find_row key k (rows w1) = Some r'" "r' = r \<or> version r < version r'"
    using steps_rows [OF assms(1)] assms(2) unfolding row_order_def by blast
  with save_checked [OF assms(3) r'(1)] show ?thesis by simp
qed

lemma one_winner:
  assumes "find_row key k (rows w) = Some r" "saves k (version r) w w1" "step\<^sup>*\<^sup>* w1 w2"
  shows "\<not> saves k (version r) w2 w3"
proof
  assume s: "saves k (version r) w2 w3"
  obtain r1 where r1: "find_row key k (rows w1) = Some r1" "version r < version r1"
    using save_checked [OF assms(2,1)] by auto
  obtain r2 where r2: "find_row key k (rows w2) = Some r2" "r2 = r1 \<or> version r1 < version r2"
    using steps_rows [OF assms(3)] r1(1) unfolding row_order_def by blast
  with r1(2) save_checked [OF s r2(1)] show False by auto
qed

end

text \<open>The saves of any session.\<close>

inductive db_step :: "pg_env \<Rightarrow> pg_world \<Rightarrow> pg_world \<Rightarrow> bool" for E where
  save_unit: "db_step E w (snd (StockRepo_Save E u w))"
| save_bin: "db_step E w (snd (LocationRepo_Save E b w))"
| save_reservation: "db_step E w (snd (ReservationRepo_Save E r w))"
| save_classification: "db_step E w (snd (ClassificationRepo_Save E c w))"
| save_event: "db_step E w (snd (insert_outbox E m w))"

lemma db_step_orders:
  assumes "db_step E w w'"
  shows "row_order u_id u_version (units (tables w)) (units (tables w'))"
    "row_order b_id b_version (bins (tables w)) (bins (tables w'))"
    "row_order rr_id rr_version (ress (tables w)) (ress (tables w'))"
  using assms save_orders reservation_orders
  by (induction) (simp_all add: preserves_def order_defs stored_part_def)

definition unit_saved :: "pg_env \<Rightarrow> string \<Rightarrow> int \<Rightarrow> pg_world \<Rightarrow> pg_world \<Rightarrow> bool" where
  "unit_saved E k v w w' \<longleftrightarrow> (\<exists>u. u_id u = k \<and> u_version u = v \<and> StockRepo_Save E u w = (Inr (), w'))"

definition bin_saved :: "pg_env \<Rightarrow> string \<Rightarrow> int \<Rightarrow> pg_world \<Rightarrow> pg_world \<Rightarrow> bool" where
  "bin_saved E k v w w' \<longleftrightarrow> (\<exists>b. b_id b = k \<and> b_version b = v \<and> LocationRepo_Save E b w = (Inr (), w'))"

definition reservation_saved :: "pg_env \<Rightarrow> string \<Rightarrow> int \<Rightarrow> pg_world \<Rightarrow> pg_world \<Rightarrow> bool" where
  "reservation_saved E k v w w' \<longleftrightarrow> (\<exists>r. r_id r = k \<and> r_version r = v \<and> ReservationRepo_Save E r w = (Inr (), w'))"

interpretation vu: versioned "db_step E" "\<lambda>w. units (tables w)" u_id u_version "unit_saved E" for E
proof unfold_locales
  show "db_step E w w' \<Longrightarrow> row_order u_id u_version (units (tables w)) (units (tables w'))" for w w'
    by (rule db_step_orders)
  show "u_version r = v \<and> (\<exists>r'. find_row u_id k (units (tables w')) = Some r' \<and> v < u_version r')"
    if "unit_saved E k v w w'" "find_row u_id k (units (tables w)) = Some r" for k v w w' r
    using that by (auto simp: unit_saved_def StockRepo_Save_def sql_def next_tick_def reject_def find_upsert put_unit_def split: if_splits)
qed

interpretation vb: versioned "db_step E" "\<lambda>w. bins (tables w)" b_id b_version "bin_saved E" for E
proof unfold_locales
  show "db_step E w w' \<Longrightarrow> row_order b_id b_version (bins (tables w)) (bins (tables w'))" for w w'
    by (rule db_step_orders)
  show "b_version r = v \<and> (\<exists>r'. find_row b_id k (bins (tables w')) = Some r' \<and> v < b_version r')"
    if "bin_saved E k v w w'" "find_row b_id k (bins (tables w)) = Some r" for k v w w' r
    using that by (auto simp: bin_saved_def LocationRepo_Save_def sql_def next_tick_def reject_def find_upsert put_bin_def split: if_splits)
qed

lemma join_success:
  assumes "beginOrJoin E f w = (Inr (), w')"
  obtains w1 w2 where "f w1 = (Inr (), w2)" "stored_part w1 = stored_part w" "stored_part w' = stored_part w2"
proof (cases "in_tx w")
  case True
  then show ?thesis using assms that [of w w'] by (simp add: beginOrJoin_def)
next
  case False
  then obtain x w1 w2 where r: "begin_tx E w = (Inr x, w1)" "f w1 = (Inr (), w2)" "commit_tx E w w2 = (Inr (), w')"
    using assms by (auto simp: beginOrJoin_def split: prod.splits sum.splits)
  moreover have "stored_part w' = stored_part w2" using r(3) by (auto simp: commit_tx_def split: if_splits)
  ultimately show ?thesis using that [OF r(2)] quiet.begun [OF r(1)] by simp
qed

lemma reservation_checked:
  assumes "ReservationRepo_Save E r w = (Inr (), w')" "find_row rr_id (r_id r) (ress (tables w)) = Some old"
  shows "rr_version old = r_version r \<and>
    (\<exists>new. find_row rr_id (r_id r) (ress (tables w')) = Some new \<and> r_version r < rr_version new)"
proof -
  obtain w1 w2 where f: "andthen (save_reservation_row E r) (\<lambda>_. each (save_allocation E (r_id r)) (r_allocations r)) w1 = (Inr (), w2)"
    and same: "stored_part w1 = stored_part w" "stored_part w' = stored_part w2"
    using join_success assms(1) unfolding ReservationRepo_Save_def by blast
  then obtain w3 where s: "save_reservation_row E r w1 = (Inr (), w3)"
    "each (save_allocation E (r_id r)) (r_allocations r) w3 = (Inr (), w2)"
    by (auto simp: andthen_def split: prod.splits sum.splits)
  have "tables w1 = tables w" using same(1) by (simp add: stored_part_def)
  then have row: "rr_version old = r_version r"
    "find_row rr_id (r_id r) (ress (tables w3)) = Some (res_row_of (r_version r + 1) r (Some old))"
    using s(1) assms(2) find_row_key [OF assms(2)]
    by (auto simp: save_reservation_row_def sql_def next_tick_def reject_def find_upsert res_row_of_def split: if_splits)
  have "preserves res_order (each (save_allocation E (r_id r)) (r_allocations r))"
    by (intro ors.rules save_orders)
  from preservesD [OF this s(2)] row(2) obtain new where "find_row rr_id (r_id r) (ress (tables w2)) = Some new"
    "r_version r < rr_version new"
    by (force simp: res_order_def row_order_def stored_part_def res_row_of_def)
  with row(1) same(2) show ?thesis by (simp add: stored_part_def)
qed

interpretation vr: versioned "db_step E" "\<lambda>w. ress (tables w)" rr_id rr_version "reservation_saved E" for E
proof unfold_locales
  show "db_step E w w' \<Longrightarrow> row_order rr_id rr_version (ress (tables w)) (ress (tables w'))" for w w'
    by (rule db_step_orders)
  show "rr_version r = v \<and> (\<exists>r'. find_row rr_id k (ress (tables w')) = Some r' \<and> v < rr_version r')"
    if "reservation_saved E k v w w'" "find_row rr_id k (ress (tables w)) = Some r" for k v w w' r
    using that reservation_checked by (auto simp: reservation_saved_def)
qed

lemma unit_lock:
  assumes "(db_step E)\<^sup>*\<^sup>* w w1" "(db_step E)\<^sup>*\<^sup>* w2 w3"
    and "find_row u_id i (units (tables w)) = Some u" "unit_saved E i (u_version u) w1 w2"
  shows "find_row u_id i (units (tables w1)) = Some u \<and> \<not> unit_saved E i (u_version u) w3 w4"
  using assms vu.saved_unchanged vu.one_winner by metis

lemma bin_lock:
  assumes "(db_step E)\<^sup>*\<^sup>* w w1" "(db_step E)\<^sup>*\<^sup>* w2 w3"
    and "find_row b_id i (bins (tables w)) = Some b" "bin_saved E i (b_version b) w1 w2"
  shows "find_row b_id i (bins (tables w1)) = Some b \<and> \<not> bin_saved E i (b_version b) w3 w4"
  using assms vb.saved_unchanged vb.one_winner by metis

lemma reservation_lock:
  assumes "(db_step E)\<^sup>*\<^sup>* w w1" "(db_step E)\<^sup>*\<^sup>* w2 w3"
    and "find_row rr_id i (ress (tables w)) = Some r" "reservation_saved E i (rr_version r) w1 w2"
  shows "find_row rr_id i (ress (tables w1)) = Some r \<and> \<not> reservation_saved E i (rr_version r) w3 w4"
  using assms vr.saved_unchanged vr.one_winner by metis

section \<open>The properties\<close>

text \<open>
  C7. No update is lost: whatever other sessions save between the moment this one read a unit, a bin or a
  reservation and the moment it saves it, its save succeeds only if the row is still the one it read, and a
  second session that read the same row is then refused, whatever happens in between.
\<close>

theorem no_lost_update:
  assumes "(db_step E)\<^sup>*\<^sup>* w w1" "(db_step E)\<^sup>*\<^sup>* w2 w3"
  shows
    "(\<forall>u. find_row u_id i (units (tables w)) = Some u \<and> unit_saved E i (u_version u) w1 w2 \<longrightarrow>
       find_row u_id i (units (tables w1)) = Some u \<and> \<not> unit_saved E i (u_version u) w3 w4) \<and>
     (\<forall>b. find_row b_id i (bins (tables w)) = Some b \<and> bin_saved E i (b_version b) w1 w2 \<longrightarrow>
       find_row b_id i (bins (tables w1)) = Some b \<and> \<not> bin_saved E i (b_version b) w3 w4) \<and>
     (\<forall>r. find_row rr_id i (ress (tables w)) = Some r \<and> reservation_saved E i (rr_version r) w1 w2 \<longrightarrow>
       find_row rr_id i (ress (tables w1)) = Some r \<and> \<not> reservation_saved E i (rr_version r) w3 w4)"
  using unit_lock [OF assms] bin_lock [OF assms] reservation_lock [OF assms] by blast

lemma demo_save:
  "case units (tables demo_stocked) of
     [u] \<Rightarrow> u_id u = ''su-x'' \<and> fst (StockRepo_Save demo_env (u\<lparr>u_reserved := 1\<rparr>) demo_stocked) = Inr ()
   | _ \<Rightarrow> False"
  by code_simp

lemma no_lost_update_witness:
  "\<exists>u w'. find_row u_id ''su-x'' (units (tables demo_stocked)) = Some u \<and>
     unit_saved demo_env ''su-x'' (u_version u) demo_stocked w' \<and>
     (\<forall>w''. \<not> unit_saved demo_env ''su-x'' (u_version u) w' w'')"
proof -
  obtain u where u: "units (tables demo_stocked) = [u]" "u_id u = ''su-x''"
    "fst (StockRepo_Save demo_env (u\<lparr>u_reserved := 1\<rparr>) demo_stocked) = Inr ()"
    using demo_save by (auto split: list.splits)
  let ?w = "snd (StockRepo_Save demo_env (u\<lparr>u_reserved := 1\<rparr>) demo_stocked)"
  have f: "find_row u_id ''su-x'' (units (tables demo_stocked)) = Some u" using u by simp
  have s: "unit_saved demo_env ''su-x'' (u_version u) demo_stocked ?w"
    unfolding unit_saved_def
  proof (intro exI conjI)
    show "u_id (u\<lparr>u_reserved := 1\<rparr>) = ''su-x''" using u(2) by simp
    show "StockRepo_Save demo_env (u\<lparr>u_reserved := 1\<rparr>) demo_stocked = (Inr (), ?w)" using u(3) by (metis prod.collapse)
  qed simp
  have "\<not> unit_saved demo_env ''su-x'' (u_version u) ?w w''" for w''
    using no_lost_update [of demo_env demo_stocked demo_stocked ?w ?w "''su-x''" w''] f s by simp
  with f s show ?thesis by blast
qed

end
