(* ===== verification/ProductProofs.thy ===== *)
theory ProductProofs
  imports Product
begin

text \<open>
  What the product package promises: which classifications its constructor lets into the system, and that
  the segregation matrix built at start-up is the table its documentation draws.
\<close>

text \<open>
  C12. A classification is well formed exactly when the constructor can make it from some list of tags, and
  exactly when the constructor makes it again from what its accessors tell: it has a SKU and at least one
  known handling tag, a temperature class exactly when it is temperature sensitive and then a known one, and
  a DOT hazard class, from 1 to 9, only when it is hazardous. A stored one is rebuilt as it was.
\<close>

theorem classification_well_formed:
  "((\<exists>sk tags tc dot. NewClassification sk tags tc dot = Inr c) \<longleftrightarrow> classification_ok c) \<and>
   (NewClassification (c_sku c) (HandlingTags c) (c_temperatureClass c) (c_dotHazardClass c) = Inr c \<longleftrightarrow> classification_ok c) \<and>
   (classification_ok c \<longrightarrow> RehydrateClassification (c_sku c) (HandlingTags c) (c_temperatureClass c) (c_dotHazardClass c) = c)"
proof -
  have rebuilt: "RehydrateClassification (c_sku c) (HandlingTags c) (c_temperatureClass c) (c_dotHazardClass c) = c"
    if "classification_ok c"
    using that HandlingTags_set [of c] by (simp add: RehydrateClassification_def classification_ok_def)
  have again: "NewClassification (c_sku c) (HandlingTags c) (c_temperatureClass c) (c_dotHazardClass c) = Inr c"
    if ok: "classification_ok c"
  proof -
    have tags: "set (HandlingTags c) = c_handlingTags c" "c_handlingTags c \<noteq> {}"
      using ok HandlingTags_set [of c] by (simp_all add: classification_ok_def)
    then have "HandlingTags c \<noteq> []" by auto
    with ok tags rebuilt [OF ok] HandlingTags_distinct [of c] show ?thesis
      by (auto simp: NewClassification_iff classification_ok_def IsTemperatureSensitive_def IsHazmat_def HasTag_def)
  qed
  have made: "classification_ok c" if "NewClassification sk tags tc dot = Inr c" for sk tags tc dot
  proof -
    note n = that [unfolded NewClassification_iff]
    then have "c_sku c = sk" "c_handlingTags c = set tags" "c_temperatureClass c = tc" "c_dotHazardClass c = dot"
      by (simp_all add: RehydrateClassification_def)
    moreover have "Ambient \<noteq> ''''" "Chilled \<noteq> ''''" "Frozen \<noteq> ''''" by (simp_all add: Ambient_def Chilled_def Frozen_def)
    ultimately show ?thesis
      using n by (auto simp: classification_ok_def IsTemperatureSensitive_def IsHazmat_def HasTag_def split: if_splits)
  qed
  show ?thesis using rebuilt again made by blast
qed

lemma classification_well_formed_witness:
  "let c = \<lparr>c_sku = ''S'', c_handlingTags = {Hazmat}, c_temperatureClass = '''', c_dotHazardClass = 3\<rparr> in
   RehydrateClassification (c_sku c) (HandlingTags c) (c_temperatureClass c) (c_dotHazardClass c) = c"
proof -
  let ?c = "\<lparr>c_sku = ''S'', c_handlingTags = {Hazmat}, c_temperatureClass = '''', c_dotHazardClass = 3\<rparr>"
  have "classification_ok ?c"
    by (simp add: classification_ok_def all_tags_def IsTemperatureSensitive_def IsHazmat_def HasTag_def tag_defs)
  with classification_well_formed [of ?c] show ?thesis by simp
qed

text \<open>
  C13. Two hazard classes are incompatible exactly when both are real classes, 1 to 9, and their cell of the
  documented table says so, in whichever order they are asked for: every pair of the list was mirrored.
\<close>

theorem segregation_matches_table:
  "(Incompatible a b \<longleftrightarrow> a \<in> {1..9} \<and> b \<in> {1..9} \<and> documented_matrix ! nat (a - 1) ! nat (b - 1)) \<and>
   Incompatible a b = Incompatible b a"
proof
  show "Incompatible a b \<longleftrightarrow> a \<in> {1..9} \<and> b \<in> {1..9} \<and> documented_matrix ! nat (a - 1) ! nat (b - 1)"
    using Incompatible_range [of a b] Incompatible_cell [of a b] by (cases "a \<in> {1..9} \<and> b \<in> {1..9}") auto
qed (rule Incompatible_symmetric)

end
