(* ===== verification/OutboxRelay.thy ===== *)
theory OutboxRelay
  imports Postgres
begin

text \<open>
  internal/adapters/outbound/postgres/outbox_relay.go and kafka/relay_sink.go: the background relay that
  claims unpublished outbox rows in id order, sends them one at a time and marks them published, all of a
  pass in one transaction. What is sent cannot be taken back: \<open>rl_broker\<close> is what Kafka has been given.
\<close>

section \<open>The relay\<close>

record relay_world =
  rl_db :: pg_world
  rl_broker :: "encoded list"

text \<open>
  What Kafka answers to the \<open>n\<close>-th interaction: an error, or none. A write that reports an error may have
  been stored all the same (\<open>kept\<close>).
\<close>

record broker =
  refuses :: "nat \<Rightarrow> err option"
  kept :: "nat \<Rightarrow> bool"

record relay_config =
  rc_batchSize :: nat
  rc_maxAttempts :: int

definition NewOutboxRelay :: relay_config where
  "NewOutboxRelay = \<lparr>rc_batchSize = 100, rc_maxAttempts = 0\<rparr>"

definition Send :: "broker \<Rightarrow> encoded list \<Rightarrow> relay_world \<Rightarrow> err option \<times> relay_world" where
  "Send K msgs w =
     (if msgs = [] then (None, w)
      else let n = tick (rl_db w); w' = w\<lparr>rl_db := next_tick (rl_db w)\<rparr>
        in case refuses K n of
          None \<Rightarrow> (None, w'\<lparr>rl_broker := rl_broker w @ msgs\<rparr>)
        | Some e \<Rightarrow> (Some e, if kept K n then w'\<lparr>rl_broker := rl_broker w @ msgs\<rparr> else w'))"

definition claimBatch :: "relay_config \<Rightarrow> pg_env \<Rightarrow> (pg_world, err, outbox_row list) prog" where
  "claimBatch C E = sql E (\<lambda>w.
     (Inr (take (rc_batchSize C) (sort_key o_id (filter
        (\<lambda>r. \<not> o_published r \<and> (rc_maxAttempts C > 0 \<longrightarrow> int (o_attempts r) < rc_maxAttempts C)) (outbox w)))), w))"

definition update_row :: "int \<Rightarrow> (outbox_row \<Rightarrow> outbox_row) \<Rightarrow> pg_world \<Rightarrow> pg_world" where
  "update_row ident f w = w\<lparr>outbox := map (\<lambda>r. if o_id r = ident then f r else r) (outbox w)\<rparr>"

definition mark_published :: "pg_env \<Rightarrow> int \<Rightarrow> (pg_world, err, unit) prog" where
  "mark_published E ident = sql E (\<lambda>w. (Inr (), update_row ident (\<lambda>r. r\<lparr>o_published := True\<rparr>) w))"

definition record_failure :: "pg_env \<Rightarrow> int \<Rightarrow> err \<Rightarrow> (pg_world, err, unit) prog" where
  "record_failure E ident e = sql E (\<lambda>w.
     (Inr (), update_row ident (\<lambda>r. r\<lparr>o_attempts := Suc (o_attempts r), o_lastError := Some e\<rparr>) w))"

text \<open>How the loop over the claimed rows ends, after it has published a number of them.\<close>

datatype pass_end = All_sent | Send_failed err | Statement_failed err

fun send_rows :: "pg_env \<Rightarrow> broker \<Rightarrow> outbox_row list \<Rightarrow> nat \<Rightarrow> relay_world \<Rightarrow> (nat \<times> pass_end) \<times> relay_world" where
  "send_rows E K [] published w = ((published, All_sent), w)"
| "send_rows E K (row # rows) published w =
     (case Send K [o_encoded row] w of
        (Some sendErr, w1) \<Rightarrow>
          (case record_failure E (o_id row) sendErr (rl_db w1) of
             (Inl uerr, d) \<Rightarrow> ((published, Statement_failed (Joined sendErr uerr)), w1\<lparr>rl_db := d\<rparr>)
           | (Inr _, d) \<Rightarrow> ((published, Send_failed sendErr), w1\<lparr>rl_db := d\<rparr>))
      | (None, w1) \<Rightarrow>
          (case mark_published E (o_id row) (rl_db w1) of
             (Inl uerr, d) \<Rightarrow> ((published, Statement_failed uerr), w1\<lparr>rl_db := d\<rparr>)
           | (Inr _, d) \<Rightarrow> send_rows E K rows (Suc published) (w1\<lparr>rl_db := d\<rparr>)))"

text \<open>The three results of the Go function: rows published, whether the batch was full, the error.\<close>

definition relayOnce ::
  "relay_config \<Rightarrow> pg_env \<Rightarrow> broker \<Rightarrow> relay_world \<Rightarrow> (nat \<times> bool \<times> err option) \<times> relay_world" where
  "relayOnce C E K w =
     (case begin_tx E (rl_db w) of
        (Inl e, d1) \<Rightarrow> ((0, False, Some e), w\<lparr>rl_db := d1\<rparr>)
      | (Inr _, d1) \<Rightarrow>
          (case claimBatch C E d1 of
             (Inl e, d2) \<Rightarrow> ((0, False, Some e), w\<lparr>rl_db := rolled_back (rl_db w) (next_tick d2)\<rparr>)
           | (Inr rows, d2) \<Rightarrow>
               if rows = [] then
                 (case commit_tx E (rl_db w) d2 of
                    (Inl e, d3) \<Rightarrow> ((0, False, Some e), w\<lparr>rl_db := d3\<rparr>)
                  | (Inr _, d3) \<Rightarrow> ((0, False, None), w\<lparr>rl_db := d3\<rparr>))
               else
                 (case send_rows E K rows 0 (w\<lparr>rl_db := d2\<rparr>) of
                    ((published, Statement_failed e), w3) \<Rightarrow>
                      ((published, False, Some e), w3\<lparr>rl_db := rolled_back (rl_db w) (next_tick (rl_db w3))\<rparr>)
                  | ((published, Send_failed sendErr), w3) \<Rightarrow>
                      (case commit_tx E (rl_db w) (rl_db w3) of
                         (Inl e, d4) \<Rightarrow> ((published, False, Some (Joined sendErr e)), w3\<lparr>rl_db := d4\<rparr>)
                       | (Inr _, d4) \<Rightarrow> ((published, False, Some sendErr), w3\<lparr>rl_db := d4\<rparr>))
                  | ((published, All_sent), w3) \<Rightarrow>
                      (case commit_tx E (rl_db w) (rl_db w3) of
                         (Inl e, d4) \<Rightarrow> ((published, False, Some e), w3\<lparr>rl_db := d4\<rparr>)
                       | (Inr _, d4) \<Rightarrow> ((published, length rows = rc_batchSize C, None), w3\<lparr>rl_db := d4\<rparr>)))))"

definition RelayOnce :: "relay_config \<Rightarrow> pg_env \<Rightarrow> broker \<Rightarrow> relay_world \<Rightarrow> (nat \<times> err option) \<times> relay_world" where
  "RelayOnce C E K w = (case relayOnce C E K w of ((n, full, e), w') \<Rightarrow> ((n, e), w'))"

text \<open>
  \<open>Run\<close> makes one pass after the other until its context is cancelled; here, after \<open>n\<close> passes. Whether it
  waited between two of them makes no difference to what they do.
\<close>

fun Run :: "relay_config \<Rightarrow> pg_env \<Rightarrow> broker \<Rightarrow> nat \<Rightarrow> relay_world \<Rightarrow> relay_world" where
  "Run C E K 0 w = w"
| "Run C E K (Suc n) w = Run C E K n (snd (relayOnce C E K w))"

section \<open>What the passes leave in the outbox\<close>

text \<open>What identifies a row and whether it is published; the attempts are the relay's own business.\<close>

definition row_view :: "outbox_row \<Rightarrow> int \<times> encoded \<times> bool" where
  "row_view r = (o_id r, o_encoded r, o_published r)"

definition outbox_view :: "relay_world \<Rightarrow> (int \<times> encoded \<times> bool) list" where
  "outbox_view w = map row_view (outbox (rl_db w))"

definition published_ids :: "int set \<Rightarrow> (int \<times> encoded \<times> bool) list \<Rightarrow> (int \<times> encoded \<times> bool) list" where
  "published_ids ids = map (\<lambda>(i, m, p). (i, m, p \<or> i \<in> ids))"

lemma published_ids_empty [simp]: "published_ids {} v = v"
  by (induction v) (auto simp: published_ids_def)

lemma published_ids_Un: "published_ids b (published_ids a v) = published_ids (a \<union> b) v"
  by (auto simp: published_ids_def)

lemma view_next [simp]: "outbox_view (w\<lparr>rl_db := next_tick d\<rparr>) = outbox_view (w\<lparr>rl_db := d\<rparr>)"
  by (simp add: outbox_view_def next_tick_def)

lemma sql_eqR: "sql E m w = (Inr x, w') \<Longrightarrow> m (next_tick w) = (Inr x, w')"
  by (auto simp: sql_def split: if_splits)

lemma mark_published_view:
  "mark_published E i d = (Inr u, d') \<Longrightarrow>
     map row_view (outbox d') = published_ids {i} (map row_view (outbox d)) \<and> in_tx d' = in_tx d"
  by (auto dest!: sql_eqR simp: mark_published_def update_row_def next_tick_def published_ids_def row_view_def)

lemma record_failure_view:
  "record_failure E i e d = (Inr u, d') \<Longrightarrow>
     map row_view (outbox d') = map row_view (outbox d) \<and> in_tx d' = in_tx d"
  by (auto dest!: sql_eqR simp: record_failure_def update_row_def next_tick_def row_view_def)

lemma Send_one:
  "Send K [m] w = (e, w') \<Longrightarrow>
     outbox_view w' = outbox_view w \<and> in_tx (rl_db w') = in_tx (rl_db w) \<and>
     (rl_broker w' = rl_broker w @ [m] \<or> e \<noteq> None \<and> rl_broker w' = rl_broker w)"
  by (cases "refuses K (tick (rl_db w))")
    (auto simp: Send_def Let_def outbox_view_def next_tick_def dest: sym [of "Some _"] split: if_splits)

text \<open>
  A pass over \<open>rows\<close> that published \<open>m\<close> of them has sent those in order, and perhaps the next one.
\<close>

definition sent_upto :: "outbox_row list \<Rightarrow> nat \<Rightarrow> encoded list \<Rightarrow> bool" where
  "sent_upto rows m ms \<longleftrightarrow> m \<le> length rows \<and>
     (ms = map o_encoded (take m rows) \<or> m < length rows \<and> ms = map o_encoded (take (Suc m) rows))"

lemma sent_upto_Cons: "sent_upto rows m ms \<Longrightarrow> sent_upto (row # rows) (Suc m) (o_encoded row # ms)"
  by (auto simp: sent_upto_def)

lemma send_rows_spec:
  assumes "send_rows E K rows n w = ((n', out), w')"
  shows "\<exists>m ms. n' = n + m \<and> (out = All_sent \<longrightarrow> m = length rows) \<and> sent_upto rows m ms \<and>
    rl_broker w' = rl_broker w @ ms \<and>
    ((\<forall>e. out \<noteq> Statement_failed e) \<longrightarrow>
       outbox_view w' = published_ids (o_id ` set (take m rows)) (outbox_view w) \<and> in_tx (rl_db w') = in_tx (rl_db w))"
  using assms
proof (induction rows arbitrary: n w)
  case Nil
  then show ?case by (auto simp: sent_upto_def)
next
  case (Cons row rows)
  obtain e w1 where s: "Send K [o_encoded row] w = (e, w1)" by (cases "Send K [o_encoded row] w")
  note S = Send_one [OF s]
  have stop: ?case if "n' = n" "out \<noteq> All_sent" "rl_broker w' = rl_broker w1"
      "(\<forall>e. out \<noteq> Statement_failed e) \<Longrightarrow> outbox_view w' = outbox_view w1 \<and> in_tx (rl_db w') = in_tx (rl_db w1)"
    using that S by (intro exI [of _ 0]) (auto simp: sent_upto_def)
  show ?case
  proof (cases e)
    case (Some err)
    obtain r d where f: "record_failure E (o_id row) err (rl_db w1) = (r, d)" by fastforce
    show ?thesis
      by (cases r; rule stop)
        (use Cons.prems s Some f record_failure_view [of E "o_id row" err "rl_db w1"] in
          \<open>auto simp: outbox_view_def\<close>)
  next
    case None
    obtain r d where f: "mark_published E (o_id row) (rl_db w1) = (r, d)" by fastforce
    show ?thesis
    proof (cases r)
      case (Inl err)
      show ?thesis by (rule stop) (use Cons.prems s None f Inl in auto)
    next
      case (Inr u)
      let ?w2 = "w1\<lparr>rl_db := d\<rparr>"
      have "send_rows E K rows (Suc n) ?w2 = ((n', out), w')" using Cons.prems s None f Inr by simp
      from Cons.IH [OF this] obtain m ms where IH: "n' = Suc n + m" "out = All_sent \<longrightarrow> m = length rows"
          "sent_upto rows m ms" "rl_broker w' = rl_broker ?w2 @ ms"
          "(\<forall>e. out \<noteq> Statement_failed e) \<longrightarrow>
             outbox_view w' = published_ids (o_id ` set (take m rows)) (outbox_view ?w2) \<and> in_tx (rl_db w') = in_tx (rl_db ?w2)"
        by blast
      have v: "outbox_view ?w2 = published_ids {o_id row} (outbox_view w)" "in_tx d = in_tx (rl_db w)"
        using mark_published_view [of E "o_id row" "rl_db w1" u d] f Inr S by (simp_all add: outbox_view_def)
      have "rl_broker w1 = rl_broker w @ [o_encoded row]" using S None by simp
      then show ?thesis
        using IH v by (intro exI [of _ "Suc m"] exI [of _ "o_encoded row # ms"])
          (auto simp: sent_upto_Cons published_ids_Un)
    qed
  qed
qed

definition claimed_rows :: "relay_config \<Rightarrow> relay_world \<Rightarrow> outbox_row list" where
  "claimed_rows C w = take (rc_batchSize C) (sort_key o_id (filter
     (\<lambda>r. \<not> o_published r \<and> (rc_maxAttempts C > 0 \<longrightarrow> int (o_attempts r) < rc_maxAttempts C)) (outbox (rl_db w))))"



lemma rolled_back_outbox [simp]: "outbox (rolled_back d d') = outbox d" "\<not> in_tx (rolled_back d d')"
  by (simp_all add: rolled_back_def)



section \<open>Order and delivery\<close>











inductive relay_reach :: "pg_env \<Rightarrow> broker \<Rightarrow> nat \<Rightarrow> relay_world \<Rightarrow> bool" for E K b where
  relay_start: "\<not> in_tx (rl_db w) \<Longrightarrow> outbox (rl_db w) = [] \<Longrightarrow> rl_broker w = [] \<Longrightarrow> relay_reach E K b w"
| relay_commit: "relay_reach E K b w \<Longrightarrow> \<not> in_tx d \<Longrightarrow> outbox d = outbox (rl_db w) @ rows \<Longrightarrow>
    sorted_wrt (<) (map o_id (outbox d)) \<Longrightarrow> (\<And>r. r \<in> set rows \<Longrightarrow> \<not> o_published r) \<Longrightarrow>
    relay_reach E K b (w\<lparr>rl_db := d\<rparr>)"
| relay_pass: "relay_reach E K b w \<Longrightarrow>
    relay_reach E K b (snd (relayOnce \<lparr>rc_batchSize = b, rc_maxAttempts = 0\<rparr> E K w))"






section \<open>Draining the outbox\<close>

text \<open>The rows that are still to be sent, oldest first.\<close>

definition pending :: "relay_world \<Rightarrow> (int \<times> encoded) list" where
  "pending w = map (\<lambda>r. (o_id r, o_encoded r)) (filter (\<lambda>r. \<not> o_published r) (outbox (rl_db w)))"

lemma pending_view: "pending w = map (\<lambda>(i, m, p). (i, m)) (filter (\<lambda>(i, m, p). \<not> p) (outbox_view w))"
  by (simp add: pending_def outbox_view_def filter_map comp_def row_view_def)

lemma pending_published:
  "outbox_view w' = published_ids ids (outbox_view w) \<Longrightarrow> pending w' = filter (\<lambda>(i, m). i \<notin> ids) (pending w)"
proof -
  have "map (\<lambda>(i, m, p). (i, m)) (filter (\<lambda>(i, m, p). \<not> p) (published_ids ids v)) =
      filter (\<lambda>(i, m). i \<notin> ids) (map (\<lambda>(i, m, p). (i, m)) (filter (\<lambda>(i, m, p). \<not> p) v))" for v
    by (induction v) (auto simp: published_ids_def)
  then show "outbox_view w' = published_ids ids (outbox_view w) \<Longrightarrow> ?thesis" by (simp add: pending_view)
qed

lemma filter_notin_take:
  "distinct (map fst xs) \<Longrightarrow> filter (\<lambda>(i, m). i \<notin> fst ` set (take b xs)) xs = drop b xs"
proof -
  assume d: "distinct (map fst xs)"
  let ?P = "\<lambda>(i, m). i \<notin> fst ` set (take b xs)"
  have "map fst xs = map fst (take b xs) @ map fst (drop b xs)" by (metis append_take_drop_id map_append)
  with d have "fst ` set (take b xs) \<inter> fst ` set (drop b xs) = {}" by (metis distinct_append set_map)
  then have "i \<notin> fst ` set (take b xs)" if "(i, m) \<in> set (drop b xs)" for i m
    using imageI [OF that, of fst] by auto
  then have drop: "filter ?P (drop b xs) = drop b xs" by (intro filter_True) auto
  have take: "filter ?P (take b xs) = []" by (force simp: filter_empty_conv)
  have "filter ?P xs = filter ?P (take b xs) @ filter ?P (drop b xs)"
    by (metis append_take_drop_id filter_append)
  then show ?thesis using drop take by simp
qed

definition unbounded :: "nat \<Rightarrow> relay_config" where
  "unbounded b = \<lparr>rc_batchSize = b, rc_maxAttempts = 0\<rparr>"

lemma claimed_pending:
  assumes "sorted_wrt (<) (map o_id (outbox (rl_db w)))"
  shows "map (\<lambda>r. (o_id r, o_encoded r)) (claimed_rows (unbounded b) w) = take b (pending w)"
proof -
  let ?f = "filter (\<lambda>r. \<not> o_published r) (outbox (rl_db w))"
  have "sorted_wrt (<) (map o_id ?f)" using assms by (simp add: sorted_wrt_map sorted_wrt_filter)
  then have "sort_key o_id ?f = ?f" by (intro sort_key_id_if_sorted strict_sorted_imp_sorted)
  then show ?thesis by (simp add: claimed_rows_def unbounded_def pending_def take_map)
qed

lemma pending_distinct: "sorted_wrt (<) (map o_id (outbox (rl_db w))) \<Longrightarrow> distinct (map fst (pending w))"
  by (simp add: pending_def comp_def strict_sorted_iff distinct_map_filter)

lemma send_rows_healthy:
  assumes "\<And>n. \<not> fails E n" "\<And>n. refuses K n = None" "\<not> aborted (rl_db w)"
  shows "\<exists>w'. send_rows E K rows n w = ((n + length rows, All_sent), w') \<and> \<not> aborted (rl_db w') \<and>
    rl_broker w' = rl_broker w @ map o_encoded rows"
  using assms(3)
proof (induction rows arbitrary: n w)
  case (Cons row rows)
  let ?d = "update_row (o_id row) (\<lambda>r. r\<lparr>o_published := True\<rparr>) (next_tick (next_tick (rl_db w)))"
  let ?w = "w\<lparr>rl_broker := rl_broker w @ [o_encoded row], rl_db := ?d\<rparr>"
  have "send_rows E K (row # rows) n w = send_rows E K rows (Suc n) ?w"
    using Cons.prems assms(1,2) by (simp add: Send_def Let_def mark_published_def sql_def next_tick_def)
  moreover have "\<not> aborted (rl_db ?w)" using Cons.prems by (simp add: update_row_def next_tick_def)
  ultimately show ?case using Cons.IH [of ?w "Suc n"] by auto
qed simp

lemma relayOnce_healthy:
  assumes "\<And>n. \<not> fails E n" "\<And>n. refuses K n = None" "\<not> in_tx (rl_db w)"
    and "sorted_wrt (<) (map o_id (outbox (rl_db w)))"
  shows "\<exists>w'. relayOnce (unbounded b) E K w = ((length (take b (pending w)), pending w \<noteq> [] \<and> b \<noteq> 0 \<and> b \<le> length (pending w), None), w') \<and>
    \<not> in_tx (rl_db w') \<and> map o_id (outbox (rl_db w')) = map o_id (outbox (rl_db w)) \<and>
    rl_broker w' = rl_broker w @ map snd (take b (pending w)) \<and> pending w' = drop b (pending w)"
proof -
  let ?C = "unbounded b"
  let ?rows = "claimed_rows ?C w"
  define d2 where "d2 = (next_tick (next_tick (rl_db w)))\<lparr>in_tx := True, aborted := False\<rparr>"
  have b: "begin_tx E (rl_db w) = (Inr (), (next_tick (rl_db w))\<lparr>in_tx := True, aborted := False\<rparr>)"
    using assms(1) by (simp add: begin_tx_def)
  have c: "claimBatch ?C E ((next_tick (rl_db w))\<lparr>in_tx := True, aborted := False\<rparr>) = (Inr ?rows, d2)"
    using assms(1) by (simp add: claimBatch_def sql_def claimed_rows_def d2_def next_tick_def)
  have commit: "commit_tx E d0 d = (Inr (), (next_tick d)\<lparr>in_tx := False, aborted := False\<rparr>)" if "\<not> aborted d" for d0 d
    using that assms(1) by (simp add: commit_tx_def)
  note cp = claimed_pending [OF assms(4), of b]
  have len: "length ?rows = length (take b (pending w))" using arg_cong [OF cp, of length] by simp
  have none: "?rows = [] \<longleftrightarrow> take b (pending w) = []" unfolding cp [symmetric] by simp
  show ?thesis
  proof (cases "?rows = []")
    case True
    then have t: "take b (pending w) = []" using none by simp
    let ?d = "(next_tick d2)\<lparr>in_tx := False, aborted := False\<rparr>"
    have run: "relayOnce ?C E K w = ((0, False, None), w\<lparr>rl_db := ?d\<rparr>)"
      using b c True commit [of d2 "rl_db w"] by (simp add: relayOnce_def d2_def)
    have o: "outbox ?d = outbox (rl_db w)" by (simp add: d2_def next_tick_def)
    have "drop b (pending w) = pending w" "\<not> (pending w \<noteq> [] \<and> b \<noteq> 0 \<and> b \<le> length (pending w))"
      using t by (cases b; cases "pending w"; simp)+
    moreover have "pending (w\<lparr>rl_db := ?d\<rparr>) = pending w" using o by (simp add: pending_def)
    ultimately show ?thesis
      using run t o by (intro exI [of _ "w\<lparr>rl_db := ?d\<rparr>"]) auto
  next
    case False
    have "\<not> aborted (rl_db (w\<lparr>rl_db := d2\<rparr>))" by (simp add: d2_def)
    from send_rows_healthy [OF assms(1,2) this, of ?rows 0]
    obtain w3 where s: "send_rows E K ?rows 0 (w\<lparr>rl_db := d2\<rparr>) = ((length ?rows, All_sent), w3)"
        "\<not> aborted (rl_db w3)" "rl_broker w3 = rl_broker w @ map o_encoded ?rows" by auto
    from send_rows_spec [OF s(1)] obtain m where m: "m = length ?rows"
        "outbox_view w3 = published_ids (o_id ` set (take m ?rows)) (outbox_view (w\<lparr>rl_db := d2\<rparr>))"
      by auto
    let ?w = "w3\<lparr>rl_db := (next_tick (rl_db w3))\<lparr>in_tx := False, aborted := False\<rparr>\<rparr>"
    have view: "outbox_view ?w = published_ids (o_id ` set ?rows) (outbox_view w)"
      using m by (simp add: outbox_view_def next_tick_def d2_def)
    have "fst ` set (take b (pending w)) = o_id ` set ?rows"
      unfolding cp [symmetric] by (simp add: image_image)
    then have pend: "pending ?w = drop b (pending w)"
      using pending_published [OF view] filter_notin_take [OF pending_distinct [OF assms(4)], of b] by simp
    have ids: "map o_id (outbox (rl_db ?w)) = map o_id (outbox (rl_db w))"
    proof -
      have "map fst (published_ids ids v) = map fst v" for ids v
        by (induction v) (auto simp: published_ids_def)
      then have "map fst (outbox_view ?w) = map fst (outbox_view w)" using view by simp
      then show ?thesis by (simp add: outbox_view_def comp_def row_view_def)
    qed
    have "map snd (take b (pending w)) = map o_encoded ?rows" unfolding cp [symmetric] by simp
    moreover have "relayOnce ?C E K w = ((length ?rows, length ?rows = b, None), ?w)"
      using b c False s(1) commit [OF s(2), of "rl_db w"] by (simp add: relayOnce_def unbounded_def)
    ultimately show ?thesis
      using len pend ids s(3) False none by (intro exI [of _ ?w]) auto
  qed
qed

lemma Run_healthy:
  assumes "\<And>n. \<not> fails E n" "\<And>n. refuses K n = None" "\<not> in_tx (rl_db w)"
    and "sorted_wrt (<) (map o_id (outbox (rl_db w)))"
  shows "rl_broker (Run (unbounded b) E K n w) = rl_broker w @ map snd (take (n * b) (pending w)) \<and>
    pending (Run (unbounded b) E K n w) = drop (n * b) (pending w)"
  using assms(3,4)
proof (induction n arbitrary: w)
  case (Suc n)
  from relayOnce_healthy [OF assms(1,2) Suc.prems, of b] obtain r w' where w':
      "relayOnce (unbounded b) E K w = (r, w')" "\<not> in_tx (rl_db w')"
      "map o_id (outbox (rl_db w')) = map o_id (outbox (rl_db w))"
      "rl_broker w' = rl_broker w @ map snd (take b (pending w))" "pending w' = drop b (pending w)" by blast
  have "sorted_wrt (<) (map o_id (outbox (rl_db w')))" unfolding w'(3) by (rule Suc.prems(2))
  from Suc.IH [OF w'(2) this] w' show ?case
    by (simp add: take_add) (simp add: add.commute)
qed simp

section \<open>Properties\<close>


definition sample_message :: "string \<Rightarrow> encoded" where
  "sample_message v = \<lparr>e_topic = ''t'', e_eventType = ''e'', e_key = ''k'', e_value = v, e_headers = []\<rparr>"

definition sample_row :: "int \<Rightarrow> string \<Rightarrow> outbox_row" where
  "sample_row i v = \<lparr>o_id = i, o_encoded = sample_message v, o_published = False, o_attempts = 0, o_lastError = None\<rparr>"

definition sample_db :: "outbox_row list \<Rightarrow> pg_world" where
  "sample_db rows = \<lparr>tables = empty_inventory, outbox = rows, idem = [], seq = 9, tick = 0, in_tx = False,
     aborted = False, created_total = 0, revoked_total = 0\<rparr>"

definition sample_env :: pg_env where
  "sample_env = \<lparr>fails = (\<lambda>_. False), wall_clock = int, uuid = (\<lambda>_ _. ''''), scan_units = (\<lambda>_ us. us),
     scan_ress = (\<lambda>_ rs. rs), slots = (\<lambda>_ _. Inr unknown_slot), spans = (\<lambda>_. []),
     events_sdk = \<lparr>sdk_marshal = (\<lambda>_. Inr ''''), sdk_unmarshal = (\<lambda>_. None), sdk_valid = (\<lambda>_. True)\<rparr>\<rparr>"

text \<open>Kafka refuses the first message it is given, and no other.\<close>

definition refuse_first :: broker where
  "refuse_first = \<lparr>refuses = (\<lambda>n. if n = 2 then Some (InfraErr ''broker'') else None), kept = (\<lambda>_. False)\<rparr>"

definition sample_relay :: relay_world where
  "sample_relay = \<lparr>rl_db = sample_db [sample_row 1 ''a'', sample_row 2 ''b''], rl_broker = []\<rparr>"

lemma sample_reach: "relay_reach sample_env K 5 sample_relay"
proof -
  have "relay_reach sample_env K 5 \<lparr>rl_db = sample_db [], rl_broker = []\<rparr>"
    by (rule relay_start) (simp_all add: sample_db_def)
  then have "relay_reach sample_env K 5 (\<lparr>rl_db = sample_db [], rl_broker = []\<rparr>
      \<lparr>rl_db := sample_db [sample_row 1 ''a'', sample_row 2 ''b'']\<rparr>)"
    by (rule relay_commit [where rows = "[sample_row 1 ''a'', sample_row 2 ''b'']"])
      (auto simp: sample_db_def sample_row_def)
  then show ?thesis by (simp add: sample_relay_def)
qed


text \<open>
  C18. When neither the database nor Kafka fails, \<open>n\<close> passes with a batch size of \<open>b\<close> send the oldest
  \<open>n * b\<close> unpublished messages, each exactly once and in order, and leave the others to be sent.
\<close>

theorem relay_drains:
  assumes "\<And>n. \<not> fails E n" "\<And>n. refuses K n = None" "\<not> in_tx (rl_db w)"
    and "sorted_wrt (<) (map o_id (outbox (rl_db w)))"
  shows "rl_broker (Run (unbounded b) E K n w) = rl_broker w @ map snd (take (n * b) (pending w)) \<and>
    pending (Run (unbounded b) E K n w) = drop (n * b) (pending w)"
  using Run_healthy [OF assms] .

lemma relay_drains_witness:
  "pending (Run (unbounded 1) sample_env \<lparr>refuses = (\<lambda>_. None), kept = (\<lambda>_. True)\<rparr> 2 sample_relay) = []"
proof -
  have "length (pending sample_relay) = 2" by code_simp
  then have "drop (2 * 1) (pending sample_relay) = []" by simp
  then show ?thesis
    using relay_drains [of sample_env "\<lparr>refuses = (\<lambda>_. None), kept = (\<lambda>_. True)\<rparr>" sample_relay 1 2]
    by (simp add: sample_env_def sample_relay_def sample_db_def sample_row_def)
qed

text \<open>
  With a bound on the attempts (\<open>WithMaxAttempts\<close>), a row that Kafka refused often enough is no longer
  claimed, and the rows after it overtake it: the order that the comment of OutboxRelay promises is lost.
\<close>

theorem relay_bounded_attempts_overtake:
  "\<exists>w. relay_reach sample_env refuse_first 5 w \<and>
     (let w' = Run \<lparr>rc_batchSize = 5, rc_maxAttempts = 1\<rparr> sample_env refuse_first 2 w in
      map o_published (outbox (rl_db w')) = [False, True] \<and> rl_broker w' = [o_encoded (outbox (rl_db w') ! 1)])"
proof (intro exI [of _ sample_relay] conjI sample_reach)
  show "let w' = Run \<lparr>rc_batchSize = 5, rc_maxAttempts = 1\<rparr> sample_env refuse_first 2 sample_relay in
      map o_published (outbox (rl_db w')) = [False, True] \<and> rl_broker w' = [o_encoded (outbox (rl_db w') ! 1)]"
    by code_simp
qed

end
