(* ===== verification/Http.thy ===== *)
theory Http
  imports Service
begin

text \<open>
  internal/adapters/inbound/http: the DTOs, the handlers of the REST API over the ports, the mapping of
  domain errors to status codes and to RFC 7807 problems, and the readiness gate. What encoding/json
  makes of a request body, and of a response, is \<open>codec\<close>; chi, which picks the endpoint for a path, is
  an argument of the router.
\<close>

section \<open>The DTOs\<close>

record receive_request = rcv_sku :: string  rcv_quantity :: int
record stow_request = stw_sku :: string  stw_quantity :: int  stw_binId :: string
record reserve_request = rsv_sku :: string  rsv_quantity :: int  rsv_demandRef :: string
record cycle_count_request = ccr_countedQuantity :: "int option"
record register_bin_request = rbr_capacity :: "int option"

record classify_request =
  clr_handlingTags :: "string list"
  clr_temperatureClass :: string
  clr_dotHazardClass :: "int option"

record receipt_response = rcp_sku :: string  rcp_quantity :: int  rcp_receivedAt :: int

record stock_unit_response =
  sur_id :: string
  sur_sku :: string
  sur_binId :: string
  sur_quantity :: int
  sur_reserved :: int
  sur_state :: string

record allocation_response = alr_stockUnitId :: string  alr_binId :: string  alr_quantity :: int

record reservation_response =
  rer_id :: string
  rer_sku :: string
  rer_quantity :: int
  rer_demandRef :: string
  rer_status :: string
  rer_allocations :: "allocation_response list"
  rer_createdAt :: int
  rer_expiresAt :: int

record usable_response = usr_sku :: string  usr_usable :: int

record cycle_count_response =
  ccp_binId :: string
  ccp_counted :: int
  ccp_system :: int
  ccp_discrepancy :: bool

record bin_response =
  bnr_binId :: string
  bnr_capacity :: int
  bnr_occupied :: int
  bnr_available :: int

record classification_response =
  cfr_sku :: string
  cfr_handlingTags :: "string list"
  cfr_temperatureClass :: string
  cfr_dotHazardClass :: "int option"

record flowAccuracyRowDTO =
  fr_sku :: string
  fr_binId :: string
  fr_hourBucket :: int
  fr_receivedQuantity :: int
  fr_stowedCount :: int
  fr_pickedQuantity :: int
  fr_reservationsCreated :: int
  fr_reservationsExpired :: int
  fr_reservationsRevoked :: int
  fr_cycleCountsCompleted :: int
  fr_discrepanciesDetected :: int
  fr_unlocatedCount :: int

text \<open>The detail of a problem is the text of an error, or a text of its own. A lag is in nanoseconds.\<close>

datatype detail = Error_text err | Text string

record problem_details =
  pbd_type :: string
  pbd_title :: string
  pbd_status :: int
  pbd_detail :: detail
  pbd_instance :: string

datatype body =
  Problem_body problem_details | Receipt_body receipt_response | Unit_body stock_unit_response
| Reservation_body reservation_response | Reservations_body "reservation_response list"
| Usable_body usable_response | Count_body cycle_count_response | Bin_body bin_response
| Classification_body classification_response | Status_body string
| Report_body "flowAccuracyRowDTO list" | Freshness_body int

record response =
  rs_status :: int
  rs_headers :: "(string \<times> string) list"
  rs_body :: string

record codec =
  dec_receive :: "string \<Rightarrow> string + receive_request"
  dec_stow :: "string \<Rightarrow> string + stow_request"
  dec_reserve :: "string \<Rightarrow> string + reserve_request"
  dec_count :: "string \<Rightarrow> string + cycle_count_request"
  dec_register :: "string \<Rightarrow> string + register_bin_request"
  dec_classify :: "string \<Rightarrow> string + classify_request"
  enc :: "body \<Rightarrow> string"

text \<open>The layout of \<open>timeFormat\<close> names a time to the second.\<close>

definition timeFormat :: "time \<Rightarrow> int" where
  "timeFormat t = t div 1000000000"

section \<open>Errors\<close>

definition statusFor :: "err \<Rightarrow> int" where
  "statusFor e =
     (if list_ex (errors_is e) [UsecaseErr ErrStockUnitNotFound, UsecaseErr ErrBinNotFound,
           UsecaseErr ErrReservationNotFound, UsecaseErr ErrProductClassificationNotFound] then 404
      else if list_ex (errors_is e) [SharedErr ErrEmptySKU, SharedErr ErrEmptyBinID,
           StockErr ErrStowRequiresItemAndLocation, ProductErr ErrUnknownHandlingTag,
           ProductErr ErrUnknownTemperatureClass, ProductErr ErrNoHandlingTags,
           ProductErr ErrTemperatureClassRequired, ProductErr ErrTemperatureClassNotApplicable,
           ProductErr ErrDuplicateHandlingTag, ProductErr ErrInvalidDOTHazardClass,
           ProductErr ErrDOTHazardClassNotApplicable] then 400
      else if list_ex (errors_is e) [SharedErr ErrNegativeQuantity, SharedErr ErrZeroQuantity,
           LocationErr ErrInvalidCapacity] then 422
      else if list_ex (errors_is e) [LocationErr ErrBinFull, LocationErr ErrCapacityBelowOccupancy,
           LocationErr ErrReleaseExceedsOccupancy, UsecaseErr ErrInsufficientUsable,
           StockErr StockErrInsufficientUsable, StockErr ErrInsufficientReserved, StockErr ErrUnitUnlocated,
           ReservationErr ErrAlreadyResolved, ReservationErr ErrExpired, ReservationErr ErrNoAllocations,
           UsecaseErr ErrHazmatZoneRequired, UsecaseErr ErrTemperatureClassMismatch,
           UsecaseErr ErrLocationClassificationUnavailable, UsecaseErr ErrHazmatClassIncompatible,
           UsecaseErr ErrConcurrentModification] then 409
      else 500)"

definition problemBaseURI :: string where
  "problemBaseURI = ''https://errors.inventory-storage.warehouse-systems.dev/''"

type_synonym problem_info = "string \<times> string"

definition problemCatalog :: "(err \<times> problem_info) list" where
  "problemCatalog =
    [(UsecaseErr ErrStockUnitNotFound, (''stock-unit-not-found'', ''Stock unit not found'')),
     (UsecaseErr ErrBinNotFound, (''bin-not-found'', ''Bin not found'')),
     (UsecaseErr ErrReservationNotFound, (''reservation-not-found'', ''Reservation not found'')),
     (UsecaseErr ErrProductClassificationNotFound,
        (''product-classification-not-found'', ''Product classification not found'')),
     (SharedErr ErrEmptySKU, (''empty-sku'', ''SKU must not be empty'')),
     (SharedErr ErrEmptyBinID, (''empty-bin-id'', ''Bin ID must not be empty'')),
     (StockErr ErrStowRequiresItemAndLocation,
        (''stow-requires-item-and-location'', ''Stow requires both an item scan and a location scan'')),
     (ProductErr ErrUnknownHandlingTag, (''unknown-handling-tag'', ''Unknown handling tag'')),
     (ProductErr ErrUnknownTemperatureClass, (''unknown-temperature-class'', ''Unknown temperature class'')),
     (ProductErr ErrNoHandlingTags,
        (''no-handling-tags'', ''Classification requires at least one handling tag'')),
     (ProductErr ErrTemperatureClassRequired,
        (''temperature-class-required'', ''Temperature-sensitive classification requires a temperature class'')),
     (ProductErr ErrTemperatureClassNotApplicable,
        (''temperature-class-not-applicable'',
         ''Temperature class is only meaningful when the temperature-sensitive tag is present'')),
     (ProductErr ErrDuplicateHandlingTag, (''duplicate-handling-tag'', ''Duplicate handling tag'')),
     (ProductErr ErrInvalidDOTHazardClass,
        (''invalid-dot-hazard-class'', ''DOT hazard class must be between 1 and 9'')),
     (ProductErr ErrDOTHazardClassNotApplicable,
        (''dot-hazard-class-not-applicable'',
         ''DOT hazard class is only meaningful when the hazmat tag is present'')),
     (SharedErr ErrNegativeQuantity, (''negative-quantity'', ''Quantity must not be negative'')),
     (SharedErr ErrZeroQuantity, (''zero-quantity'', ''Quantity must be greater than zero'')),
     (LocationErr ErrInvalidCapacity, (''invalid-bin-capacity'', ''Bin capacity must be greater than zero'')),
     (LocationErr ErrBinFull, (''bin-full'', ''Bin is full: capacity exceeded'')),
     (LocationErr ErrCapacityBelowOccupancy,
        (''capacity-below-occupancy'', ''Bin capacity cannot be set below current occupancy'')),
     (LocationErr ErrReleaseExceedsOccupancy,
        (''release-exceeds-occupancy'', ''Release exceeds bin occupancy'')),
     (UsecaseErr ErrInsufficientUsable,
        (''insufficient-usable'', ''Requested quantity exceeds usable inventory'')),
     (StockErr StockErrInsufficientUsable,
        (''insufficient-usable'', ''Requested quantity exceeds usable inventory'')),
     (StockErr ErrInsufficientReserved,
        (''insufficient-reserved'', ''Pick quantity exceeds reserved quantity'')),
     (StockErr ErrUnitUnlocated, (''unit-unlocated'', ''Stock unit is unlocated'')),
     (ReservationErr ErrAlreadyResolved,
        (''reservation-already-resolved'', ''Reservation is already resolved'')),
     (ReservationErr ErrExpired, (''reservation-expired'', ''Reservation has expired'')),
     (ReservationErr ErrNoAllocations,
        (''reservation-no-allocations'', ''Reservation requires at least one allocation'')),
     (UsecaseErr ErrHazmatZoneRequired,
        (''hazmat-zone-required'', ''Hazmat SKU requires a hazmat-rated zone'')),
     (UsecaseErr ErrTemperatureClassMismatch,
        (''temperature-class-mismatch'',
         ''Bin temperature class does not match the SKU's required temperature class'')),
     (UsecaseErr ErrLocationClassificationUnavailable,
        (''location-classification-unavailable'', ''Location classification lookup unavailable'')),
     (UsecaseErr ErrHazmatClassIncompatible,
        (''hazmat-class-incompatible'',
         ''DOT hazard class incompatible with another SKU already stowed in this bin'')),
     (UsecaseErr ErrConcurrentModification,
        (''concurrent-modification'',
         ''The resource was modified by another request; re-fetch the latest version and retry''))]"

definition internalErrorProblem :: problem_info where
  "internalErrorProblem = (''internal-error'', ''An unexpected internal error occurred'')"

definition problemFor :: "err \<Rightarrow> problem_info" where
  "problemFor e = (case List.find (\<lambda>(target, info). errors_is e target) problemCatalog of
     None \<Rightarrow> internalErrorProblem | Some (target, info) \<Rightarrow> info)"

definition writeProblem :: "codec \<Rightarrow> int \<Rightarrow> problem_info \<Rightarrow> detail \<Rightarrow> string \<Rightarrow> response" where
  "writeProblem K status info dt path =
     \<lparr>rs_status = status, rs_headers = [(''Content-Type'', ''application/problem+json'')],
      rs_body = enc K (Problem_body \<lparr>pbd_type = problemBaseURI @ fst info, pbd_title = snd info,
        pbd_status = status, pbd_detail = dt, pbd_instance = path\<rparr>)\<rparr>"

definition writeError :: "codec \<Rightarrow> string \<Rightarrow> err \<Rightarrow> response" where
  "writeError K path e = writeProblem K (statusFor e) (problemFor e) (Error_text e) path"

definition writeJSON :: "codec \<Rightarrow> (string \<times> string) list \<Rightarrow> int \<Rightarrow> body \<Rightarrow> response" where
  "writeJSON K headers status b =
     \<lparr>rs_status = status, rs_headers = headers @ [(''Content-Type'', ''application/json'')], rs_body = enc K b\<rparr>"

section \<open>Responses\<close>

definition toStockUnitResponse :: "stock_unit \<Rightarrow> stock_unit_response" where
  "toStockUnitResponse u = \<lparr>sur_id = u_id u, sur_sku = u_sku u, sur_binId = u_bin u,
     sur_quantity = u_quantity u, sur_reserved = u_reserved u, sur_state = u_state u\<rparr>"

definition toReservationResponse :: "reservation \<Rightarrow> reservation_response" where
  "toReservationResponse r = \<lparr>rer_id = r_id r, rer_sku = r_sku r, rer_quantity = r_quantity r,
     rer_demandRef = r_demandRef r, rer_status = r_status r,
     rer_allocations = map (\<lambda>a. \<lparr>alr_stockUnitId = a_unit a, alr_binId = a_bin a, alr_quantity = a_quantity a\<rparr>)
       (r_allocations r),
     rer_createdAt = timeFormat (r_createdAt r), rer_expiresAt = timeFormat (r_expiresAt r)\<rparr>"

definition toBinResponse :: "bin \<Rightarrow> bin_response" where
  "toBinResponse b = \<lparr>bnr_binId = b_id b, bnr_capacity = b_capacity b, bnr_occupied = b_occupied b,
     bnr_available = Available b\<rparr>"

definition toProductClassificationResponse :: "classification \<Rightarrow> classification_response" where
  "toProductClassificationResponse c = \<lparr>cfr_sku = c_sku c, cfr_handlingTags = HandlingTags c,
     cfr_temperatureClass = c_temperatureClass c,
     cfr_dotHazardClass = (if c_dotHazardClass c \<noteq> DOTHazardClassUnspecified then Some (c_dotHazardClass c) else None)\<rparr>"

section \<open>The handlers\<close>

record request =
  rq_method :: string
  rq_path :: string
  rq_param :: string
  rq_query :: string
  rq_key :: string
  rq_body :: string

text \<open>
  A handler that returns early after it wrote a response is a program that throws the response.
  \<open>attempt\<close> is \<open>if err != nil { writeError(w, r, err); return }\<close>.
\<close>

type_synonym 'w handler = "request \<Rightarrow> ('w, response, response) prog"

definition attempt :: "codec \<Rightarrow> request \<Rightarrow> ('w, err, 'a) prog \<Rightarrow> ('w, response, 'a) prog" where
  "attempt K r m w = (case m w of (Inl e, w') \<Rightarrow> (Inl (writeError K (rq_path r) e), w') | (Inr x, w') \<Rightarrow> (Inr x, w'))"

definition decodeJSON :: "codec \<Rightarrow> request \<Rightarrow> string + 'a \<Rightarrow> ('w, response, 'a) prog" where
  "decodeJSON K r decoded = (case decoded of
     Inl msg \<Rightarrow> throw (writeProblem K 400 (''malformed-request-body'', ''The request body is not valid JSON'')
       (Text msg) (rq_path r))
   | Inr dto \<Rightarrow> ret dto)"

definition handleHealthz :: "codec \<Rightarrow> 'w handler" where
  "handleHealthz K r = ret (writeJSON K [] 200 (Status_body ''ok''))"

definition handleReceiveStock :: "codec \<Rightarrow> 'w ports \<Rightarrow> 'w handler" where
  "handleReceiveStock K P r =
     andthen (decodeJSON K r (dec_receive K (rq_body r))) (\<lambda>req.
     andthen (attempt K r (lift (NewSKU (rcv_sku req)))) (\<lambda>sk.
     andthen (attempt K r (lift (NewPositiveQuantity (rcv_quantity req)))) (\<lambda>qty.
     andthen (attempt K r (ReceiveStock_Execute P sk qty)) (\<lambda>receipt.
     ret (writeJSON K [] 202 (Receipt_body \<lparr>rcp_sku = sg_sku receipt, rcp_quantity = sg_quantity receipt,
       rcp_receivedAt = timeFormat (sg_receivedAt receipt)\<rparr>))))))"

definition handleStowStock :: "codec \<Rightarrow> 'w ports \<Rightarrow> 'w handler" where
  "handleStowStock K P r =
     andthen (decodeJSON K r (dec_stow K (rq_body r))) (\<lambda>req.
     andthen (attempt K r (lift (NewSKU (stw_sku req)))) (\<lambda>sk.
     andthen (attempt K r (lift (NewPositiveQuantity (stw_quantity req)))) (\<lambda>qty.
     andthen (attempt K r (lift (NewBinId (stw_binId req)))) (\<lambda>binID.
     andthen (attempt K r (StowStock_Execute P sk qty binID)) (\<lambda>unit.
     ret (writeJSON K [(''Location'', ''/stock/'' @ u_id unit)] 201 (Unit_body (toStockUnitResponse unit))))))))"

definition handleReserveStock :: "codec \<Rightarrow> 'w ports \<Rightarrow> 'w handler" where
  "handleReserveStock K P r =
     andthen (decodeJSON K r (dec_reserve K (rq_body r))) (\<lambda>req.
     andthen (attempt K r (lift (NewSKU (rsv_sku req)))) (\<lambda>sk.
     andthen (attempt K r (lift (NewPositiveQuantity (rsv_quantity req)))) (\<lambda>qty.
     if rsv_demandRef req = '''' then
       throw (writeProblem K 400 (''missing-demand-ref'', ''demandRef is required'')
         (Text ''demandRef must not be empty'') (rq_path r))
     else
       andthen (attempt K r (ReserveStock_Execute P sk qty (rsv_demandRef req))) (\<lambda>res.
       ret (writeJSON K [(''Location'', ''/reservations/'' @ r_id res)] 201
         (Reservation_body (toReservationResponse res)))))))"

definition no_content :: response where
  "no_content = \<lparr>rs_status = 204, rs_headers = [], rs_body = ''''\<rparr>"

definition handleRevokeReservation :: "codec \<Rightarrow> 'w ports \<Rightarrow> 'w handler" where
  "handleRevokeReservation K P r =
     andthen (attempt K r (RevokeReservation_Execute P (rq_param r))) (\<lambda>_. ret no_content)"

definition handleGetReservationsByDemandRef :: "codec \<Rightarrow> 'w ports \<Rightarrow> 'w handler" where
  "handleGetReservationsByDemandRef K P r =
     (if rq_query r = '''' then
        throw (writeProblem K 400 (''missing-demand-ref'', ''demandRef query parameter is required'')
          (Text ''demandRef query parameter must not be empty'') (rq_path r))
      else
        andthen (attempt K r (GetReservationsByDemandRef_Execute P (rq_query r))) (\<lambda>reservations.
        ret (writeJSON K [] 200 (Reservations_body (map toReservationResponse reservations)))))"

definition handleConfirmPick :: "codec \<Rightarrow> 'w ports \<Rightarrow> 'w handler" where
  "handleConfirmPick K P r =
     andthen (attempt K r (ConfirmPick_Execute P (rq_param r))) (\<lambda>_. ret no_content)"

definition handleGetUsable :: "codec \<Rightarrow> 'w ports \<Rightarrow> 'w handler" where
  "handleGetUsable K P r =
     andthen (attempt K r (lift (NewSKU (rq_param r)))) (\<lambda>sk.
     andthen (attempt K r (GetUsable_Execute P sk)) (\<lambda>usable.
     ret (writeJSON K [] 200 (Usable_body \<lparr>usr_sku = ui_sku usable, usr_usable = ui_usable usable\<rparr>))))"

definition handleRunCycleCount :: "codec \<Rightarrow> 'w ports \<Rightarrow> 'w handler" where
  "handleRunCycleCount K P r =
     andthen (attempt K r (lift (NewBinId (rq_param r)))) (\<lambda>binID.
     andthen (decodeJSON K r (dec_count K (rq_body r))) (\<lambda>req.
     case ccr_countedQuantity req of
       None \<Rightarrow>
         throw (writeProblem K 400 (''counted-quantity-required'', ''countedQuantity is required'')
           (Text ''countedQuantity must be present; an explicit 0 is a valid empty-bin count, omitting it is not'')
           (rq_path r))
     | Some n \<Rightarrow>
         andthen (attempt K r (lift (NewQuantity n))) (\<lambda>countedQty.
         andthen (attempt K r (RunCycleCount_Execute P binID countedQty)) (\<lambda>res.
         ret (writeJSON K [] 200 (Count_body \<lparr>ccp_binId = cc_bin res, ccp_counted = cc_counted res,
           ccp_system = cc_system res, ccp_discrepancy = cc_discrepancy res\<rparr>))))))"

definition maxBinCapacity :: int where "maxBinCapacity = 2147483647"

definition handleRegisterBin :: "codec \<Rightarrow> 'w ports \<Rightarrow> 'w handler" where
  "handleRegisterBin K P r =
     andthen (attempt K r (lift (NewBinId (rq_param r)))) (\<lambda>binID.
     andthen (decodeJSON K r (dec_register K (rq_body r))) (\<lambda>req.
     case rbr_capacity req of
       None \<Rightarrow>
         throw (writeProblem K 400 (''capacity-required'', ''capacity is required'')
           (Text ''capacity must be present in the request body'') (rq_path r))
     | Some n \<Rightarrow>
         if n > maxBinCapacity then
           throw (writeProblem K 422 (''capacity-out-of-range'', ''Bin capacity is out of range'')
             (Text ''capacity must not exceed 2147483647'') (rq_path r))
         else
           andthen (attempt K r (lift (NewQuantity n))) (\<lambda>capacity.
           andthen (attempt K r (RegisterBin_Execute P binID capacity)) (\<lambda>result.
           case result of
             None \<Rightarrow> throw (writeProblem K 500 internalErrorProblem (Text ''nil bin'') (rq_path r))
           | Some (b, out) \<Rightarrow>
               ret (if out = BinCreated
                    then writeJSON K [(''Location'', ''/bins/'' @ b_id b)] 201 (Bin_body (toBinResponse b))
                    else writeJSON K [] 200 (Bin_body (toBinResponse b)))))))"

definition handleGetBin :: "codec \<Rightarrow> 'w ports \<Rightarrow> 'w handler" where
  "handleGetBin K P r =
     andthen (attempt K r (lift (NewBinId (rq_param r)))) (\<lambda>binID.
     andthen (attempt K r (GetBin_Execute P binID)) (\<lambda>b.
     ret (writeJSON K [] 200 (Bin_body (toBinResponse b)))))"

fun parse_tags :: "string list \<Rightarrow> handling_tag list result" where
  "parse_tags [] = Inr []"
| "parse_tags (raw # raws) = (case ParseHandlingTag raw of
     Inl e \<Rightarrow> Inl e
   | Inr tag \<Rightarrow> (case parse_tags raws of Inl e \<Rightarrow> Inl e | Inr tags \<Rightarrow> Inr (tag # tags)))"

definition handleClassifyProduct :: "codec \<Rightarrow> 'w classification_repo \<Rightarrow> 'w ports \<Rightarrow> 'w handler" where
  "handleClassifyProduct K cr P r =
     andthen (attempt K r (lift (NewSKU (rq_param r)))) (\<lambda>sk.
     andthen (decodeJSON K r (dec_classify K (rq_body r))) (\<lambda>req.
     andthen (attempt K r (lift (parse_tags (clr_handlingTags req)))) (\<lambda>tags.
     andthen (attempt K r (lift (if clr_temperatureClass req \<noteq> ''''
       then ParseTemperatureClass (clr_temperatureClass req) else Inr ''''))) (\<lambda>temperatureClass.
     andthen (attempt K r (lift (case clr_dotHazardClass req of
       None \<Rightarrow> Inr DOTHazardClassUnspecified | Some n \<Rightarrow> ParseDOTHazardClass n))) (\<lambda>dotHazardClass.
     andthen (attempt K r (cr_find cr sk)) (\<lambda>existing.
     andthen (attempt K r (ClassifyProduct_Execute cr P sk tags temperatureClass dotHazardClass)) (\<lambda>c.
     ret (writeJSON K [] (if existing = None then 201 else 200)
       (Classification_body (toProductClassificationResponse c))))))))))"

definition handleGetProductClassification :: "codec \<Rightarrow> 'w classification_repo \<Rightarrow> 'w handler" where
  "handleGetProductClassification K cr r =
     andthen (attempt K r (lift (NewSKU (rq_param r)))) (\<lambda>sk.
     andthen (attempt K r (cr_find cr sk)) (\<lambda>found.
     case found of
       None \<Rightarrow> throw (writeError K (rq_path r) (UsecaseErr ErrProductClassificationNotFound))
     | Some c \<Rightarrow> ret (writeJSON K [] 200 (Classification_body (toProductClassificationResponse c)))))"

section \<open>Readiness\<close>

text \<open>A nil gate is always ready; otherwise the value of \<open>notReady\<close>.\<close>

type_synonym readiness = "int option"

definition SetNotReady :: "readiness \<Rightarrow> readiness" where
  "SetNotReady g = map_option (\<lambda>_. 1) g"

definition Ready :: "readiness \<Rightarrow> bool" where
  "Ready g = (case g of None \<Rightarrow> True | Some n \<Rightarrow> n = 0)"

definition handleReadyz :: "codec \<Rightarrow> readiness \<Rightarrow> 'w handler" where
  "handleReadyz K g r =
     (if \<not> Ready g then ret (writeJSON K [] 503 (Status_body ''not_ready''))
      else ret (writeJSON K [] 200 (Status_body ''ready'')))"

section \<open>The router\<close>

datatype endpoint =
  E_healthz | E_readyz | E_receive | E_stow | E_reserve | E_by_demand | E_revoke | E_confirm | E_usable
| E_register | E_bin | E_count | E_classify | E_classification

definition serve :: "'w handler \<Rightarrow> request \<Rightarrow> 'w \<Rightarrow> response \<times> 'w" where
  "serve h r w = (case h r w of (Inl resp, w') \<Rightarrow> (resp, w') | (Inr resp, w') \<Rightarrow> (resp, w'))"

text \<open>
  The routes registered with chi. \<open>chi\<close> is its choice among them for a request, nothing when no route
  matches; \<open>wrap\<close> is the idempotency middleware, when a pool is wired.
\<close>

definition api_routes :: "((string \<times> string) \<times> endpoint) list" where
  "api_routes =
     [((''GET'', ''/healthz''), E_healthz),
      ((''GET'', ''/readyz''), E_readyz),
      ((''POST'', ''/stock/receive''), E_receive),
      ((''POST'', ''/stock/stow''), E_stow),
      ((''POST'', ''/reservations''), E_reserve),
      ((''GET'', ''/reservations''), E_by_demand),
      ((''DELETE'', ''/reservations/{id}''), E_revoke),
      ((''POST'', ''/reservations/{id}/confirm-pick''), E_confirm),
      ((''GET'', ''/inventory/{sku}/usable''), E_usable),
      ((''PUT'', ''/bins/{binId}''), E_register),
      ((''GET'', ''/bins/{binId}''), E_bin),
      ((''POST'', ''/bins/{binId}/cycle-count''), E_count),
      ((''PUT'', ''/products/{sku}/classification''), E_classify),
      ((''GET'', ''/products/{sku}/classification''), E_classification)]"

definition routed :: "(request \<Rightarrow> (string \<times> string) option) \<Rightarrow> request \<Rightarrow> endpoint option" where
  "routed chi r = (case chi r of None \<Rightarrow> None | Some route \<Rightarrow> map_of api_routes route)"

fun endpoint_handler :: "codec \<Rightarrow> 'w ports \<Rightarrow> 'w classification_repo \<Rightarrow> readiness \<Rightarrow> endpoint \<Rightarrow> 'w handler" where
  "endpoint_handler K P cr g E_healthz = handleHealthz K"
| "endpoint_handler K P cr g E_readyz = handleReadyz K g"
| "endpoint_handler K P cr g E_receive = handleReceiveStock K P"
| "endpoint_handler K P cr g E_stow = handleStowStock K P"
| "endpoint_handler K P cr g E_reserve = handleReserveStock K P"
| "endpoint_handler K P cr g E_by_demand = handleGetReservationsByDemandRef K P"
| "endpoint_handler K P cr g E_revoke = handleRevokeReservation K P"
| "endpoint_handler K P cr g E_confirm = handleConfirmPick K P"
| "endpoint_handler K P cr g E_usable = handleGetUsable K P"
| "endpoint_handler K P cr g E_register = handleRegisterBin K P"
| "endpoint_handler K P cr g E_bin = handleGetBin K P"
| "endpoint_handler K P cr g E_count = handleRunCycleCount K P"
| "endpoint_handler K P cr g E_classify = handleClassifyProduct K cr P"
| "endpoint_handler K P cr g E_classification = handleGetProductClassification K cr"

definition NewRouter ::
  "((request \<Rightarrow> 'w \<Rightarrow> response \<times> 'w) \<Rightarrow> request \<Rightarrow> 'w \<Rightarrow> response \<times> 'w) option \<Rightarrow>
   (request \<Rightarrow> (string \<times> string) option) \<Rightarrow> codec \<Rightarrow> 'w ports \<Rightarrow> 'w classification_repo \<Rightarrow> readiness \<Rightarrow>
   request \<Rightarrow> 'w \<Rightarrow> (response \<times> 'w) option" where
  "NewRouter wrap chi K P cr g r w =
     map_option (\<lambda>e.
       let h = serve (endpoint_handler K P cr g e)
       in case wrap of
            None \<Rightarrow> h r w
          | Some middleware \<Rightarrow> if e \<in> {E_receive, E_reserve} then middleware h r w else h r w) (routed chi r)"

section \<open>What the handlers answer\<close>

text \<open>The category a problem names is the one its status is for, and unknown errors are internal ones.\<close>

lemma find_split: "List.find p (xs @ ys) = (case List.find p xs of None \<Rightarrow> List.find p ys | Some x \<Rightarrow> Some x)"
  by (induction xs) auto

lemma find_group:
  assumes "list_all (\<lambda>(t, i). statusFor t = st) C"
  shows "(List.find (\<lambda>(t, i). errors_is e t) C = None \<and> \<not> list_ex (errors_is e) (map fst C)) \<or>
    (\<exists>t i. List.find (\<lambda>(t, i). errors_is e t) C = Some (t, i) \<and> list_ex (errors_is e) (map fst C) \<and>
       (t, i) \<in> set C \<and> errors_is e t \<and> statusFor t = st)"
  using assms by (induction C) auto

definition catalog_group :: "nat \<Rightarrow> nat \<Rightarrow> (err \<times> problem_info) list" where
  "catalog_group m n = take n (drop m problemCatalog)"

lemma catalog_groups: "problemCatalog = catalog_group 0 4 @ catalog_group 4 11 @ catalog_group 15 3 @ catalog_group 18 15"
  by (simp add: catalog_group_def problemCatalog_def)

lemma group_status:
  "list_all (\<lambda>(t, i). statusFor t = 404) (catalog_group 0 4)"
  "list_all (\<lambda>(t, i). statusFor t = 400) (catalog_group 4 11)"
  "list_all (\<lambda>(t, i). statusFor t = 422) (catalog_group 15 3)"
  "list_all (\<lambda>(t, i). statusFor t = 409) (catalog_group 18 15)"
  by code_simp+

lemma status_groups:
  "statusFor e =
     (if list_ex (errors_is e) (map fst (catalog_group 0 4)) then 404
      else if list_ex (errors_is e) (map fst (catalog_group 4 11)) then 400
      else if list_ex (errors_is e) (map fst (catalog_group 15 3)) then 422
      else if list_ex (errors_is e) (map fst (catalog_group 18 15)) then 409 else 500)"
  unfolding statusFor_def by (simp add: catalog_group_def problemCatalog_def)

text \<open>
  The status of an error response and the problem in its body agree: an error that no entry of the
  catalog matches is answered 500 and as an internal error, and any other one with the title of an error
  that it wraps and whose own status is the status of the response.
\<close>

theorem problem_agrees_with_status:
  "statusFor e = 500 \<and> problemFor e = internalErrorProblem \<or>
   statusFor e \<noteq> 500 \<and> (\<exists>t. (t, problemFor e) \<in> set problemCatalog \<and> errors_is e t \<and> statusFor t = statusFor e)"
proof -
  note g = find_group [OF group_status(1), where e = e] find_group [OF group_status(2), where e = e]
    find_group [OF group_status(3), where e = e] find_group [OF group_status(4), where e = e]
  let ?f = "List.find (\<lambda>(t, i). errors_is e t)"
  have sub: "set (catalog_group m n) \<subseteq> set problemCatalog" for m n
    by (auto simp: catalog_group_def dest: in_set_takeD in_set_dropD)
  have all: "?f problemCatalog = (case ?f (catalog_group 0 4) of Some x \<Rightarrow> Some x | None \<Rightarrow>
      (case ?f (catalog_group 4 11) of Some x \<Rightarrow> Some x | None \<Rightarrow>
      (case ?f (catalog_group 15 3) of Some x \<Rightarrow> Some x | None \<Rightarrow> ?f (catalog_group 18 15))))"
    by (subst catalog_groups) (simp add: find_split split: option.split)
  have found: ?thesis if "?f problemCatalog = Some (t, i)" "(t, i) \<in> set (catalog_group m n)" "errors_is e t"
      "statusFor t = st" "statusFor e = st" "st \<noteq> 500" for t i m n st
    using that sub [of m n] by (auto simp: problemFor_def)
  consider (none) "?f problemCatalog = None" "statusFor e = 500"
    | (one) t i m n st where "?f problemCatalog = Some (t, i)" "(t, i) \<in> set (catalog_group m n)" "errors_is e t"
        "statusFor t = st" "statusFor e = st" "st \<noteq> 500"
    using g(1)
  proof
    assume n1: "?f (catalog_group 0 4) = None \<and> \<not> list_ex (errors_is e) (map fst (catalog_group 0 4))"
    show thesis using g(2)
    proof
      assume n2: "?f (catalog_group 4 11) = None \<and> \<not> list_ex (errors_is e) (map fst (catalog_group 4 11))"
      show thesis using g(3)
      proof
        assume n3: "?f (catalog_group 15 3) = None \<and> \<not> list_ex (errors_is e) (map fst (catalog_group 15 3))"
        show thesis using g(4) n1 n2 n3
          by (elim disjE exE conjE; intro none one [of _ _ 18 15 409]) (simp_all add: all status_groups [of e])
      qed (use n1 n2 in \<open>elim exE conjE, intro one [of _ _ 15 3 422], simp_all add: all status_groups [of e]\<close>)
    qed (use n1 in \<open>elim exE conjE, intro one [of _ _ 4 11 400], simp_all add: all status_groups [of e]\<close>)
  qed (elim exE conjE, intro one [of _ _ 0 4 404], simp_all add: all status_groups [of e])
  then show ?thesis
  proof cases
    case none
    then show ?thesis by (simp add: problemFor_def)
  qed (rule found)
qed

end
