(* ===== verification/Frames.thy ===== *)
theory Frames
  imports Http Postgres
begin

text \<open>
  What no use case touches: the idempotency keys and, once inside a transaction, whether there is one.
  A program \<open>frames\<close> when it leaves both alone whatever it returns; the property is closed under the
  ways programs are composed, so each use case frames because the adapters' statements do.
\<close>

named_theorems frame_rule \<open>programs that frame\<close>

definition frames :: "(pg_world, 'e, 'a) prog \<Rightarrow> bool" where
  "frames m \<longleftrightarrow> (\<forall>w. idem (snd (m w)) = idem w \<and> in_tx (snd (m w)) = in_tx w)"

lemma framesD: "frames m \<Longrightarrow> m w = (r, w') \<Longrightarrow> idem w' = idem w \<and> in_tx w' = in_tx w"
  unfolding frames_def by (metis snd_conv)

lemma framesI: "(\<And>w r w'. m w = (r, w') \<Longrightarrow> idem w' = idem w \<and> in_tx w' = in_tx w) \<Longrightarrow> frames m"
  unfolding frames_def by (metis surjective_pairing)

lemma frames_ret [frame_rule]: "frames (ret x)" "frames (throw e)" "frames (lift r)"
  by (simp_all add: frames_def ret_def throw_def lift_def)

lemma frames_andthen [frame_rule]:
  assumes m: "frames m" and f: "\<And>x. frames (f x)"
  shows "frames (andthen m f)"
proof (rule framesI)
  fix w r w' assume r: "andthen m f w = (r, w')"
  show "idem w' = idem w \<and> in_tx w' = in_tx w"
  proof (cases "m w")
    case (Pair v w1)
    show ?thesis
    proof (cases v)
      case (Inl e)
      then show ?thesis using r Pair framesD [OF m Pair] by (simp add: andthen_def)
    next
      case (Inr x)
      then have "f x w1 = (r, w')" using r Pair by (simp add: andthen_def)
      then show ?thesis using framesD [OF m Pair] framesD [OF f] by simp
    qed
  qed
qed

lemma frames_maperr [frame_rule]: "frames m \<Longrightarrow> frames (maperr g m)"
  by (rule framesI) (auto simp: maperr_def dest: framesD split: prod.splits sum.splits)

lemma frames_if [frame_rule]: "frames m \<Longrightarrow> frames n \<Longrightarrow> frames (if c then m else n)"
  by simp

lemma frames_option [frame_rule]:
  "frames m \<Longrightarrow> (\<And>x. frames (f x)) \<Longrightarrow> frames (case z of None \<Rightarrow> m | Some x \<Rightarrow> f x)"
  by (cases z) simp_all

lemma frames_sum [frame_rule]:
  "(\<And>x. frames (f x)) \<Longrightarrow> (\<And>x. frames (g x)) \<Longrightarrow> frames (case z of Inl x \<Rightarrow> f x | Inr x \<Rightarrow> g x)"
  by (cases z) simp_all

lemma frames_prod [frame_rule]: "(\<And>x y. frames (f x y)) \<Longrightarrow> frames (case z of (x, y) \<Rightarrow> f x y)"
  by (cases z) simp

lemma frames_captured [frame_rule]:
  "frames m \<Longrightarrow> (\<And>r. frames (f r)) \<Longrightarrow>
   frames (case c of Captured_reservation r \<Rightarrow> f r | _ \<Rightarrow> m)"
  by (cases c) simp_all

lemma frames_each [frame_rule]: "(\<And>x. frames (f x)) \<Longrightarrow> frames (each f xs)"
  by (induction xs) (auto intro: frame_rule)

lemma frames_attempt [frame_rule]: "frames m \<Longrightarrow> frames (attempt K r m)"
  by (rule framesI) (auto simp: attempt_def dest: framesD split: prod.splits sum.splits)

lemma frames_decode [frame_rule]: "frames (decodeJSON K r d)"
  unfolding decodeJSON_def by (intro frame_rule)

section \<open>The adapters\<close>

lemma frames_sql [frame_rule]: "frames m \<Longrightarrow> frames (sql E m)"
  by (rule framesI) (auto simp: sql_def next_tick_def dest: framesD split: if_splits)

lemma frames_atom [frame_rule]:
  "(\<And>w. idem (g w) = idem w \<and> in_tx (g w) = in_tx w) \<Longrightarrow> frames (\<lambda>w. (f w, g w))"
  by (simp add: frames_def)

lemma frames_statement:
  "(\<And>w. idem (snd (m w)) = idem w \<and> in_tx (snd (m w)) = in_tx w) \<Longrightarrow> frames (sql E m)"
  by (intro frames_sql) (simp add: frames_def)

lemma rolled_back_sel [simp]: "idem (rolled_back w w') = idem w" "in_tx (rolled_back w w') = False"
  by (simp_all add: rolled_back_def)

lemma begin_frame: "begin_tx E w = (r, w') \<Longrightarrow> idem w' = idem w \<and> (isl r \<longrightarrow> in_tx w' = in_tx w)"
  by (auto simp: begin_tx_def next_tick_def split: if_splits)

lemma commit_frame:
  "commit_tx E w0 w = (r, w') \<Longrightarrow> idem w' = (if isl r then idem w0 else idem w) \<and> \<not> in_tx w'"
  by (auto simp: commit_tx_def next_tick_def split: if_splits)

text \<open>Both ways of running in a transaction: joining one, and one of its own that ends here.\<close>

lemma frames_joined:
  assumes f: "frames f" and joined: "\<And>w. in_tx w \<Longrightarrow> g w = f w"
    and own: "\<And>w. \<not> in_tx w \<Longrightarrow> idem (snd (g w)) = idem w \<and> \<not> in_tx (snd (g w))"
  shows "frames g"
proof (rule framesI)
  fix w r w' assume r: "g w = (r, w')"
  show "idem w' = idem w \<and> in_tx w' = in_tx w"
    using framesD [OF f] joined own r by (cases "in_tx w") (simp, metis snd_conv)
qed

lemma commit_joined:
  assumes f: "frames f" and b: "begin_tx E w = (Inr x, w1)" and r: "f w1 = (y, w2)"
  shows "idem (snd (commit_tx E w w2)) = idem w \<and> \<not> in_tx (snd (commit_tx E w w2))"
  using commit_frame [of E w w2 "fst (commit_tx E w w2)" "snd (commit_tx E w w2)"] begin_frame [OF b] framesD [OF f r]
  by simp

lemma frames_uow [frame_rule]:
  assumes f: "frames f"
  shows "frames (UnitOfWork_Execute E f)"
proof (rule frames_joined [OF f])
  fix w :: pg_world
  assume w: "\<not> in_tx w"
  show "idem (snd (UnitOfWork_Execute E f w)) = idem w \<and> \<not> in_tx (snd (UnitOfWork_Execute E f w))"
    using w begin_frame [of E w] commit_joined [OF f]
    by (fastforce simp: UnitOfWork_Execute_def split: prod.splits sum.splits)
qed (simp add: UnitOfWork_Execute_def)

lemma frames_join [frame_rule]:
  assumes f: "frames f"
  shows "frames (beginOrJoin E f)"
proof (rule frames_joined [OF f])
  fix w :: pg_world
  assume w: "\<not> in_tx w"
  show "idem (snd (beginOrJoin E f w)) = idem w \<and> \<not> in_tx (snd (beginOrJoin E f w))"
    using w begin_frame [of E w] commit_joined [OF f]
    by (fastforce simp: beginOrJoin_def split: prod.splits sum.splits)
qed (simp add: beginOrJoin_def)

lemma frames_reject: "idem (snd (reject c w)) = idem w" "in_tx (snd (reject c w)) = in_tx w"
  by (simp_all add: reject_def)

lemma frames_repos [frame_rule]:
  "frames (StockRepo_Save E u)" "frames (StockRepo_FindByID E i)" "frames (StockRepo_FindBySKU E k)"
  "frames (StockRepo_FindByBin E b)" "frames (LocationRepo_Save E bn)"
  "frames (LocationRepo_FindByID E b)" "frames (save_reservation_row E r)" "frames (save_allocation E i a)"
  "frames (loadAllocations E i)" "frames (ClassificationRepo_Save E c)"
  "frames (ClassificationRepo_FindBySKU E k)" "frames (insert_outbox E m)"
  unfolding StockRepo_Save_def StockRepo_FindByID_def StockRepo_FindBySKU_def StockRepo_FindByBin_def
    LocationRepo_Save_def LocationRepo_FindByID_def save_reservation_row_def save_allocation_def
    loadAllocations_def ClassificationRepo_Save_def ClassificationRepo_FindBySKU_def insert_outbox_def
  by (rule frames_statement; simp add: frames_reject split: option.split)+

lemma frames_next [frame_rule]: "frames (StockRepo_NextID E)" "frames (ReservationRepo_NextID E)"
  by (simp_all add: frames_def StockRepo_NextID_def ReservationRepo_NextID_def next_tick_def)

lemma frames_load_all [frame_rule]: "frames (load_all E rows)"
  by (induction rows) (auto intro!: frame_rule)

lemma frames_res_repo [frame_rule]:
  "frames (ReservationRepo_Save E r)" "frames (ReservationRepo_FindByID E i)"
  "frames (ReservationRepo_FindByDemandRef E ref)"
  unfolding ReservationRepo_Save_def ReservationRepo_FindByID_def ReservationRepo_FindByDemandRef_def
  by (auto intro!: frame_rule)

lemma frames_new_id [frame_rule]: "frames (new_id (pg_deps E))" "frames (trace_headers D)"
  by (auto simp: frames_def new_id_def pg_deps_def pg_newID_def next_tick_def trace_headers_def)

lemma frames_sku [frame_rule]: "frames (reservation_sku (Some (pg_deps E)) rid)"
  using framesD [OF frames_res_repo(2), of E rid]
  by (fastforce simp: frames_def reservation_sku_def reservationSKU_def pg_deps_def split: prod.splits sum.splits option.splits)

lemma deps_find [simp]: "pd_find (pg_deps E) = ReservationRepo_FindByID E"
  by (simp add: pg_deps_def)

lemma frames_payload [frame_rule]:
  "frames (integration_payload (pg_deps E) e)" "frames (analyticsEventFor (Some (pg_deps E)) e)"
  by (cases e; simp; intro frame_rule)+

lemma frames_publish [frame_rule]: "frames (OutboxPublisher_Publish E (pg_encoders E) e)"
  unfolding OutboxPublisher_Publish_def publish_one_def pg_encoders_def Publisher_Encode_def Analytics_Encode_def
  by (simp, intro frame_rule)

section \<open>The use cases behind the middleware\<close>

lemma pg_ports_sel [simp]:
  "sr_save (p_stock (pg_ports E t)) = StockRepo_Save E" "sr_find (p_stock (pg_ports E t)) = StockRepo_FindByID E"
  "sr_find_sku (p_stock (pg_ports E t)) = StockRepo_FindBySKU E"
  "rr_save (p_reservations (pg_ports E t)) = ReservationRepo_Save E"
  "rr_find (p_reservations (pg_ports E t)) = ReservationRepo_FindByID E"
  "rr_find_demand (p_reservations (pg_ports E t)) = ReservationRepo_FindByDemandRef E"
  "rr_next (p_reservations (pg_ports E t)) = ReservationRepo_NextID E"
  "p_publish (pg_ports E t) = OutboxPublisher_Publish E (pg_encoders E)"
  "p_uow (pg_ports E t) = Some (UnitOfWork_Execute E)" "p_timeout (pg_ports E t) = t"
  by (simp_all add: pg_ports_def)

lemma frames_ports [frame_rule]:
  "frames (sr_save (p_stock (pg_ports E t)) u)" "frames (sr_find (p_stock (pg_ports E t)) i)"
  "frames (sr_find_sku (p_stock (pg_ports E t)) k)" "frames (rr_save (p_reservations (pg_ports E t)) r)"
  "frames (rr_find (p_reservations (pg_ports E t)) i)" "frames (rr_find_demand (p_reservations (pg_ports E t)) d)"
  "frames (rr_next (p_reservations (pg_ports E t)))" "frames (p_publish (pg_ports E t) e)"
  by (simp_all add: frame_rule)

lemma frames_now [frame_rule]: "frames (now (pg_ports E t))"
  by (simp add: frames_def now_def pg_ports_def next_tick_def)

lemma frames_metric [frame_rule]: "frames (created_metric (pg_ports E t))"
  by (simp add: frames_def created_metric_def pg_ports_def)

lemma frames_atomically [frame_rule]: "frames f \<Longrightarrow> frames (atomically (pg_ports E t) f)"
  by (simp add: atomically_def frames_uow)

lemma frames_uncaptured [frame_rule]: "frames m \<Longrightarrow> frames (uncaptured m)"
  unfolding uncaptured_def by (intro frame_rule)

lemma frames_release [frame_rule]: "frames (releaseAllocations (pg_ports E t) res)"
  unfolding releaseAllocations_def release_one_def by (intro frame_rule)

lemma frames_expire [frame_rule]: "frames (expireIfDue (pg_ports E t) res)"
  unfolding expireIfDue_def expire_scope_def by (intro frame_rule)

lemma frames_expire_all [frame_rule]: "frames (expireAllIfDue (pg_ports E t) rs)"
  by (induction rs) (simp_all add: frame_rule)

lemma frames_receive [frame_rule]: "frames (ReceiveStock_Execute (pg_ports E t) sk qty)"
  unfolding ReceiveStock_Execute_def by (intro frame_rule)

lemma frames_reserve [frame_rule]: "frames (ReserveStock_Execute (pg_ports E t) sk qty ref)"
  unfolding ReserveStock_Execute_def activeReservationFor_def reserve_scope_def
  by (intro frame_rule)

lemma frames_placement [frame_rule]: "frames (checkPlacement (pg_ports E t) sk b)"
  unfolding checkPlacement_def
  by (simp add: pg_ports_def, intro frame_rule) (simp add: frames_def next_tick_def)

lemma frames_segregation_loop [frame_rule]:
  "(\<And>k. frames (cr_find cr k)) \<Longrightarrow> frames (segregation_loop cr d sk seen us)"
  by (induction us arbitrary: seen) (simp_all add: Let_def frame_rule)

lemma frames_more_ports [frame_rule]:
  "frames (lr_save (p_locations (pg_ports E t)) b)" "frames (lr_find (p_locations (pg_ports E t)) i)"
  "frames (sr_next (p_stock (pg_ports E t)))" "frames (sr_find_bin (p_stock (pg_ports E t)) i)"
  "frames (revoked_metric (pg_ports E t))"
  by (simp_all add: pg_ports_def frame_rule) (simp add: frames_def revoked_metric_def)

lemma frames_segregation [frame_rule]: "frames (checkSegregation (pg_ports E t) sk b)"
proof -
  obtain cr where cr: "p_classifications (pg_ports E t) = Some cr" "\<And>k. frames (cr_find cr k)"
    by (simp add: pg_ports_def frame_rule)
  then show ?thesis unfolding checkSegregation_def by (simp, intro frame_rule cr)
qed

lemma frames_shortfall [frame_rule]: "frames (markShortfallUnlocated (pg_ports E t) b us q tm)"
  by (induction us arbitrary: q) (simp_all add: Let_def frame_rule)

lemma frames_count_case [frame_rule]:
  "frames m \<Longrightarrow> (\<And>r. frames (f r)) \<Longrightarrow> frames (case c of Captured_count r \<Rightarrow> f r | _ \<Rightarrow> m)"
  "frames m \<Longrightarrow> (\<And>b o'. frames (g b o')) \<Longrightarrow> frames (case c of Captured_bin b o' \<Rightarrow> g b o' | _ \<Rightarrow> m)"
  by (cases c; simp)+

lemma frames_use_cases [frame_rule]:
  "frames (StowStock_Execute (pg_ports E t) sk qty b)" "frames (RevokeReservation_Execute (pg_ports E t) rid)"
  "frames (ConfirmPick_Execute (pg_ports E t) rid)" "frames (RunCycleCount_Execute (pg_ports E t) b qty)"
  "frames (RegisterBin_Execute (pg_ports E t) b qty)" "frames (GetBin_Execute (pg_ports E t) b)"
  "frames (GetUsable_Execute (pg_ports E t) sk)"
  "frames (GetReservationsByDemandRef_Execute (pg_ports E t) ref)"
  unfolding StowStock_Execute_def stow_scope_def RevokeReservation_Execute_def revoke_scope_def
    ConfirmPick_Execute_def pick_scope_def pickFromBin_def RunCycleCount_Execute_def count_scope_def
    complete_def RegisterBin_Execute_def register_scope_def GetBin_Execute_def GetUsable_Execute_def
    GetReservationsByDemandRef_Execute_def Let_def
  by (intro frame_rule)+

lemma frames_classify [frame_rule]:
  "(\<And>c. frames (cr_save cr c)) \<Longrightarrow> frames (ClassifyProduct_Execute cr (pg_ports E t) sk tags tc dot)"
  unfolding ClassifyProduct_Execute_def by (intro frame_rule)

text \<open>Every endpoint of the API.\<close>

definition pg_classifications :: "pg_env \<Rightarrow> pg_world classification_repo" where
  "pg_classifications E = \<lparr>cr_save = ClassificationRepo_Save E, cr_find = ClassificationRepo_FindBySKU E\<rparr>"

lemma frames_classifications [frame_rule]:
  "frames (cr_save (pg_classifications E) c)" "frames (cr_find (pg_classifications E) k)"
  by (simp_all add: pg_classifications_def frame_rule)

lemma frames_register [frame_rule]: "frames (handleRegisterBin K (pg_ports E t) r)"
  unfolding handleRegisterBin_def by (intro frame_rule)

lemma frames_count [frame_rule]: "frames (handleRunCycleCount K (pg_ports E t) r)"
  unfolding handleRunCycleCount_def by (intro frame_rule)

lemma frames_endpoint: "frames (endpoint_handler K (pg_ports E t) (pg_classifications E) g e r)"
  by (cases e) (simp_all add: handleHealthz_def handleReadyz_def handleReceiveStock_def handleStowStock_def
    handleReserveStock_def handleGetReservationsByDemandRef_def handleRevokeReservation_def
    handleConfirmPick_def handleGetUsable_def handleGetBin_def handleClassifyProduct_def
    handleGetProductClassification_def frame_rule)

lemma framesS: "frames (h r) \<Longrightarrow> serve h r w = (resp, w') \<Longrightarrow> idem w' = idem w \<and> in_tx w' = in_tx w"
  by (auto simp: serve_def dest: framesD split: prod.splits sum.splits)

end
