(* ===== verification/Idempotency.thy ===== *)
theory Idempotency
  imports Frames Demo
begin

text \<open>
  internal/adapters/inbound/http/idempotency.go: the middleware that makes a creation endpoint safe to
  retry. It runs the handler inside the transaction that inserts the key, stores the response in that
  transaction, and answers a later request that has the key from the stored response.

  \<open>read_all\<close> is what reading the request's body gives and \<open>digest\<close> the hexadecimal SHA-256 of it.
\<close>

section \<open>The middleware\<close>

record reader =
  read_all :: "request \<Rightarrow> string + string"
  digest :: "string \<Rightarrow> string"

definition internal :: "codec \<Rightarrow> request \<Rightarrow> detail \<Rightarrow> response" where
  "internal K r d = writeProblem K 500 internalErrorProblem d (rq_path r)"

definition tx_rollback :: "pg_world \<Rightarrow> pg_world \<Rightarrow> pg_world" where
  "tx_rollback w0 w = rolled_back w0 (next_tick w)"

text \<open>\<open>INSERT ... ON CONFLICT (key) DO NOTHING\<close>, with the number of rows it affected.\<close>

definition insert_key :: "pg_env \<Rightarrow> request \<Rightarrow> string \<Rightarrow> (pg_world, err, nat) prog" where
  "insert_key E r h = sql E (\<lambda>w.
     case find_row ik_key (rq_key r) (idem w) of
       Some _ \<Rightarrow> (Inr 0, w)
     | None \<Rightarrow> (Inr 1, w\<lparr>idem := idem w @ [\<lparr>ik_key = rq_key r, ik_method = rq_method r, ik_path = rq_path r,
                                            ik_hash = h, ik_outcome = None\<rparr>]\<rparr>))"

definition select_key :: "pg_env \<Rightarrow> string \<Rightarrow> (pg_world, err, idem_row) prog" where
  "select_key E key = sql E (\<lambda>w.
     case find_row ik_key key (idem w) of
       None \<Rightarrow> (Inl (InfraErr ''no rows in result set''), w)
     | Some row \<Rightarrow> (Inr row, w))"

definition record_outcome :: "pg_env \<Rightarrow> string \<Rightarrow> response \<Rightarrow> (pg_world, err, unit) prog" where
  "record_outcome E key resp = sql E (\<lambda>w.
     (Inr (), w\<lparr>idem := map (\<lambda>row. if ik_key row = key
        then row\<lparr>ik_outcome := Some (rs_status resp, rs_body resp, rs_headers resp)\<rparr> else row) (idem w)\<rparr>))"

definition stored_response :: "int \<times> string \<times> (string \<times> string) list \<Rightarrow> response" where
  "stored_response out = \<lparr>rs_status = fst out, rs_headers = snd (snd out), rs_body = fst (snd out)\<rparr>"

definition replayCachedResponse ::
  "pg_env \<Rightarrow> codec \<Rightarrow> request \<Rightarrow> string \<Rightarrow> pg_world \<Rightarrow> response \<times> pg_world" where
  "replayCachedResponse E K r requestHash w =
     (case select_key E (rq_key r) w of
        (Inl e, w') \<Rightarrow> (internal K r (Error_text e), w')
      | (Inr row, w') \<Rightarrow>
          (if ik_hash row \<noteq> requestHash then
             (writeProblem K 422 (''idempotency-key-reused'', ''Idempotency-Key was already used with a different request'')
                (Text (''The Idempotency-Key header on this request was already used with a request that had a different body. '' @
                       ''Use a new Idempotency-Key for a genuinely different request.'')) (rq_path r), w')
           else case ik_outcome row of
             None \<Rightarrow> (internal K r (Text ''idempotency row committed with no recorded outcome - this should be impossible''), w')
           | Some out \<Rightarrow> (stored_response out, w')))"

definition runFreshRequest ::
  "pg_env \<Rightarrow> codec \<Rightarrow> (request \<Rightarrow> pg_world \<Rightarrow> response \<times> pg_world) \<Rightarrow> request \<Rightarrow> pg_world \<Rightarrow> pg_world \<Rightarrow>
   response \<times> pg_world" where
  "runFreshRequest E K next_handler r w0 w =
     (let (rec, w1) = next_handler r w in
      case record_outcome E (rq_key r) rec w1 of
        (Inl e, w2) \<Rightarrow> (internal K r (Error_text e), tx_rollback w0 w2)
      | (Inr _, w2) \<Rightarrow>
          (case commit_tx E w0 w2 of
             (Inl e, w3) \<Rightarrow> (internal K r (Error_text e), w3)
           | (Inr _, w3) \<Rightarrow> (rec, w3)))"

definition RequireIdempotencyKey ::
  "pg_env \<Rightarrow> codec \<Rightarrow> reader \<Rightarrow> (request \<Rightarrow> pg_world \<Rightarrow> response \<times> pg_world) \<Rightarrow> request \<Rightarrow> pg_world \<Rightarrow>
   response \<times> pg_world" where
  "RequireIdempotencyKey E K R next_handler r w =
     (if rq_key r = '''' then
        (writeProblem K 400 (''idempotency-key-required'', ''Idempotency-Key header is required'')
           (Text (''This endpoint creates a new resource on every call and requires a caller-supplied '' @
                  ''Idempotency-Key header so a retried request is never applied twice.'')) (rq_path r), w)
      else case read_all R r of
        Inl msg \<Rightarrow>
          (writeProblem K 400 (''malformed-request-body'', ''The request body could not be read'') (Text msg) (rq_path r), w)
      | Inr bodyBytes \<Rightarrow>
          (case begin_tx E w of
             (Inl e, w1) \<Rightarrow> (internal K r (Error_text e), w1)
           | (Inr _, w1) \<Rightarrow>
               (case insert_key E r (digest R bodyBytes) w1 of
                  (Inl e, w2) \<Rightarrow> (internal K r (Error_text e), tx_rollback w w2)
                | (Inr n, w2) \<Rightarrow>
                    if n = 0 then replayCachedResponse E K r (digest R bodyBytes) (tx_rollback w w2)
                    else runFreshRequest E K next_handler (r\<lparr>rq_body := bodyBytes\<rparr>) w w2)))"

text \<open>The API with the middleware wired.\<close>

definition api ::
  "pg_env \<Rightarrow> codec \<Rightarrow> reader \<Rightarrow> (request \<Rightarrow> (string \<times> string) option) \<Rightarrow> int \<Rightarrow> readiness \<Rightarrow> request \<Rightarrow> pg_world \<Rightarrow>
   (response \<times> pg_world) option" where
  "api E K R chi t g =
     NewRouter (Some (RequireIdempotencyKey E K R)) chi K (pg_ports E t) (pg_classifications E) g"

definition answered ::
  "pg_env \<Rightarrow> codec \<Rightarrow> reader \<Rightarrow> (request \<Rightarrow> (string \<times> string) option) \<Rightarrow> int \<Rightarrow> readiness \<Rightarrow> request list \<Rightarrow> pg_world \<Rightarrow> pg_world"
  where
  "answered E K R chi t g rs w =
     foldl (\<lambda>w r. case api E K R chi t g r w of None \<Rightarrow> w | Some (resp, w') \<Rightarrow> w') w rs"

section \<open>What a request does to the keys\<close>

definition same_store :: "pg_world \<Rightarrow> pg_world \<Rightarrow> bool" where
  "same_store w w' \<longleftrightarrow> tables w' = tables w \<and> outbox w' = outbox w \<and> idem w' = idem w \<and> in_tx w' = in_tx w"

definition row_of :: "reader \<Rightarrow> request \<Rightarrow> string \<Rightarrow> response \<Rightarrow> idem_row" where
  "row_of R r bytes resp = \<lparr>ik_key = rq_key r, ik_method = rq_method r, ik_path = rq_path r, ik_hash = digest R bytes,
     ik_outcome = Some (rs_status resp, rs_body resp, rs_headers resp)\<rparr>"

lemma same_store_refl [intro]: "same_store w w"
  and same_store_trans [trans]: "same_store w w1 \<Longrightarrow> same_store w1 w2 \<Longrightarrow> same_store w w2"
  by (simp_all add: same_store_def)

lemma same_store_rollback: "\<not> in_tx w \<Longrightarrow> same_store w (tx_rollback w w')"
  by (simp add: same_store_def tx_rollback_def rolled_back_def)

lemma stored_row [simp]: "stored_response (rs_status resp, rs_body resp, rs_headers resp) = resp"
  by (simp add: stored_response_def)

lemma replay_keeps: "replayCachedResponse E K r h w = (resp, w') \<Longrightarrow> \<not> in_tx w \<Longrightarrow> same_store w w'"
  by (auto simp: replayCachedResponse_def select_key_def sql_def next_tick_def same_store_def
      split: if_splits option.splits)

lemma record_last:
  assumes "i \<notin> ik_key ` set rows"
  shows "map (\<lambda>row. if ik_key row = i then f row else row) (rows @ [row]) =
    rows @ [if ik_key row = i then f row else row]"
  using assms by (induction rows) auto

text \<open>A new key, once its row is inserted.\<close>

lemma fresh_run:
  assumes r: "runFreshRequest E K h r w0 w = (resp, w')" and f: "\<And>v resp v'. h r v = (resp, v') \<Longrightarrow> idem v' = idem v"
    and w0: "\<not> in_tx w0" and rows: "idem w = idem w0 @ [row]" and key: "ik_key row = rq_key r"
    and new: "rq_key r \<notin> ik_key ` set (idem w0)"
  shows "same_store w0 w' \<and> rs_status resp = 500 \<or>
    \<not> in_tx w' \<and> idem w' = idem w0 @ [row\<lparr>ik_outcome := Some (rs_status resp, rs_body resp, rs_headers resp)\<rparr>]"
proof -
  obtain rec w1 where h: "h r w = (rec, w1)" by force
  show ?thesis
  proof (cases "record_outcome E (rq_key r) rec w1")
    case (Pair v w2)
    show ?thesis
    proof (cases v)
      case (Inl e)
      then show ?thesis using r h Pair same_store_rollback [OF w0]
        by (auto simp: runFreshRequest_def internal_def writeProblem_def)
    next
      case (Inr u)
      then have w2: "idem w2 = idem w0 @ [row\<lparr>ik_outcome := Some (rs_status rec, rs_body rec, rs_headers rec)\<rparr>]"
        using Pair f [OF h] rows key new record_last [of "rq_key r" "idem w0"]
        by (auto simp: record_outcome_def sql_def next_tick_def split: if_splits)
      show ?thesis using r h Pair Inr w2 w0
        by (auto simp: runFreshRequest_def internal_def writeProblem_def commit_tx_def rolled_back_def same_store_def
            next_tick_def split: if_splits)
    qed
  qed
qed

text \<open>
  The three ways the middleware answers: it does nothing to the store and its own problem is the answer,
  it replays, or the handler has run and its outcome is stored with what it did.
\<close>

lemma middleware_cases:
  assumes r: "RequireIdempotencyKey E K R h r w = (resp, w')" and w: "\<not> in_tx w"
    and f: "\<And>q v resp v'. h q v = (resp, v') \<Longrightarrow> idem v' = idem v"
  obtains (same_store) "same_store w w'" "rs_status resp \<in> {400, 500} \<or> rq_key r \<in> ik_key ` set (idem w)"
  | (stored) bytes where "rq_key r \<noteq> ''''" "read_all R r = Inr bytes" "rq_key r \<notin> ik_key ` set (idem w)"
      "\<not> in_tx w'" "idem w' = idem w @ [row_of R r bytes resp]"
proof (cases "rq_key r = ''''")
  case True
  then show ?thesis using r by (intro same_store) (auto simp: RequireIdempotencyKey_def writeProblem_def)
next
  case key: False
  show ?thesis
  proof (cases "read_all R r")
    case (Inl m)
    then show ?thesis using r key by (intro same_store) (auto simp: RequireIdempotencyKey_def writeProblem_def)
  next
    case bytes: (Inr bytes)
    obtain x w1 where b: "begin_tx E w = (x, w1)" by force
    show ?thesis
    proof (cases x)
      case (Inl e)
      then show ?thesis using r key bytes b w
        by (intro same_store) (auto simp: RequireIdempotencyKey_def internal_def writeProblem_def begin_tx_def
            next_tick_def same_store_def split: if_splits)
    next
      case began: (Inr u)
      obtain y w2 where i: "insert_key E r (digest R bytes) w1 = (y, w2)" by force
      have w1: "idem w1 = idem w" using begin_frame [OF b] by simp
      show ?thesis
      proof (cases y)
        case (Inl e)
        then show ?thesis using r key bytes b began i same_store_rollback [OF w, of w2]
          by (intro same_store) (auto simp: RequireIdempotencyKey_def internal_def writeProblem_def)
      next
        case (Inr n)
        show ?thesis
        proof (cases "rq_key r \<in> ik_key ` set (idem w)")
          case True
          then have "n = 0" using i Inr w1 find_row_None [of ik_key "rq_key r" "idem w"]
            by (auto simp: insert_key_def sql_def next_tick_def split: if_splits option.splits)
          then have "replayCachedResponse E K r (digest R bytes) (tx_rollback w w2) = (resp, w')"
            using r key bytes b began i Inr by (simp add: RequireIdempotencyKey_def)
          from replay_keeps [OF this] True same_store_rollback [OF w, of w2] show ?thesis
            using w by (intro same_store) (auto simp: same_store_def)
        next
          case new: False
          then have "n \<noteq> 0" and rows: "idem w2 = idem w @ [\<lparr>ik_key = rq_key r, ik_method = rq_method r,
              ik_path = rq_path r, ik_hash = digest R bytes, ik_outcome = None\<rparr>]"
            using i Inr w1 find_row_None [of ik_key "rq_key r" "idem w"]
            by (auto simp: insert_key_def sql_def next_tick_def split: if_splits)
          then have run: "runFreshRequest E K h (r\<lparr>rq_body := bytes\<rparr>) w w2 = (resp, w')"
            using r key bytes b began i Inr by (simp add: RequireIdempotencyKey_def)
          have "same_store w w' \<and> rs_status resp = 500 \<or> \<not> in_tx w' \<and> idem w' = idem w @ [row_of R r bytes resp]"
            using fresh_run [OF run _ w rows] f new by (simp add: row_of_def)
          then show ?thesis using key bytes new by (auto intro: same_store stored)
        qed
      qed
    qed
  qed
qed

section \<open>Any sequence of requests\<close>

text \<open>Between two requests: no transaction is open, a key has one row, and every row has its outcome.\<close>

definition idem_ok :: "pg_world \<Rightarrow> bool" where
  "idem_ok w \<longleftrightarrow> \<not> in_tx w \<and> distinct (map ik_key (idem w)) \<and> (\<forall>row \<in> set (idem w). ik_outcome row \<noteq> None)"

lemma endpoint_idem:
  "serve (endpoint_handler K (pg_ports E t) (pg_classifications E) g e) q v = (resp, v') \<Longrightarrow>
   idem v' = idem v \<and> in_tx v' = in_tx v"
  using framesS [where h = "endpoint_handler K (pg_ports E t) (pg_classifications E) g e"] frames_endpoint by blast

lemma api_Some:
  assumes "api E K R chi t g r w = Some (resp, w')"
  obtains (wrapped) e where "routed chi r = Some e" "e \<in> {E_receive, E_reserve}"
      "RequireIdempotencyKey E K R (serve (endpoint_handler K (pg_ports E t) (pg_classifications E) g e)) r w = (resp, w')"
  | (plain) e where "routed chi r = Some e" "e \<notin> {E_receive, E_reserve}"
      "serve (endpoint_handler K (pg_ports E t) (pg_classifications E) g e) r w = (resp, w')"
  using assms by (auto simp: api_def NewRouter_def Let_def split: if_splits)

lemma api_keys:
  assumes r: "api E K R chi t g r w = Some (resp, w')" and w: "idem_ok w"
  shows "idem_ok w' \<and> (\<exists>more. idem w' = idem w @ more)"
  using r
proof (cases rule: api_Some)
  case (wrapped e)
  have "\<not> in_tx w" using w by (simp add: idem_ok_def)
  from wrapped(3) this endpoint_idem [THEN conjunct1] show ?thesis
  proof (rule middleware_cases)
    assume same_store: "same_store w w'"
    then show ?thesis using w by (auto simp: same_store_def idem_ok_def)
  next
    fix bytes assume "rq_key r \<notin> ik_key ` set (idem w)" "\<not> in_tx w'" "idem w' = idem w @ [row_of R r bytes resp]"
    then show ?thesis using w by (auto simp: idem_ok_def row_of_def)
  qed
next
  case (plain e)
  then show ?thesis using endpoint_idem [OF plain(3)] w by (simp add: idem_ok_def)
qed

lemma answered_keys:
  "idem_ok w \<Longrightarrow> idem_ok (answered E K R chi t g rs w) \<and> (\<exists>more. idem (answered E K R chi t g rs w) = idem w @ more)"
proof (induction rs rule: rev_induct)
  case Nil
  then show ?case by (simp add: answered_def)
next
  case (snoc r rs)
  let ?w = "answered E K R chi t g rs w"
  have step: "answered E K R chi t g (rs @ [r]) w =
      (case api E K R chi t g r ?w of None \<Rightarrow> ?w | Some (resp, w') \<Rightarrow> w')"
    unfolding answered_def by simp
  show ?case
  proof (cases "api E K R chi t g r ?w")
    case None
    then show ?thesis using snoc step by simp
  next
    case (Some z)
    obtain resp w' where z: "z = (resp, w')" by force
    show ?thesis using api_keys [OF Some [unfolded z]] snoc Some step z by auto
  qed
qed

text \<open>The database answers the next \<open>k\<close> interactions.\<close>

definition available :: "pg_env \<Rightarrow> pg_world \<Rightarrow> nat \<Rightarrow> bool" where
  "available E w k \<longleftrightarrow> (\<forall>n < k. \<not> fails E (tick w + n))"

lemma availableD: "available E w k \<Longrightarrow> n < k \<Longrightarrow> \<not> fails E (tick w + n)"
  by (simp add: available_def)

lemma known_key:
  assumes w: "\<not> in_tx w" and a: "available E w 4" and key: "rq_key r \<noteq> ''''" "read_all R r = Inr bytes"
    and row: "find_row ik_key (rq_key r) (idem w) = Some row"
  shows "RequireIdempotencyKey E K R h r w = replayCachedResponse E K r (digest R bytes)
      (rolled_back w (w\<lparr>tick := tick w + 3\<rparr>))"
proof -
  have "\<not> fails E (tick w)" "\<not> fails E (Suc (tick w))" "\<not> fails E (Suc (Suc (tick w)))"
    using availableD [OF a, of 0] availableD [OF a, of 1] availableD [OF a, of 2] by (simp_all add: numeral_2_eq_2)
  then show ?thesis using w key row
    by (simp add: RequireIdempotencyKey_def begin_tx_def insert_key_def sql_def next_tick_def tx_rollback_def
        rolled_back_def numeral_3_eq_3)
qed

lemma known_key_replies:
  assumes w: "\<not> in_tx w" and a: "available E w 4" and key: "rq_key r \<noteq> ''''" "read_all R r = Inr bytes"
    and row: "find_row ik_key (rq_key r) (idem w) = Some row"
    and run: "RequireIdempotencyKey E K R h r w = (resp, w')"
  shows "same_store w w'" "ik_hash row = digest R bytes \<Longrightarrow> ik_outcome row = Some out \<Longrightarrow> resp = stored_response out"
    "ik_hash row \<noteq> digest R bytes \<Longrightarrow> rs_status resp = 422"
proof -
  have f: "\<not> fails E (tick w + 3)" using availableD [OF a, of 3] by simp
  have k: "same_store w (rolled_back w (w\<lparr>tick := tick w + 3\<rparr>))" using w by (simp add: same_store_def rolled_back_def)
  note known = known_key [OF w a key row, of K h] run
  show "same_store w w'" using known replay_keeps [of E K r "digest R bytes" _ resp w'] k same_store_trans
    by (metis (mono_tags, lifting) same_store_def w)
  show "ik_hash row = digest R bytes \<Longrightarrow> ik_outcome row = Some out \<Longrightarrow> resp = stored_response out"
    "ik_hash row \<noteq> digest R bytes \<Longrightarrow> rs_status resp = 422"
    using known f row w
    by (simp_all add: replayCachedResponse_def select_key_def sql_def next_tick_def rolled_back_def writeProblem_def)
qed

section \<open>A client of the API\<close>

definition demo_codec :: codec where
  "demo_codec =
     \<lparr>dec_receive = (\<lambda>s. if s = '''' then Inl ''EOF'' else Inr \<lparr>rcv_sku = ''S'', rcv_quantity = 5\<rparr>),
      dec_stow = (\<lambda>_. Inl ''EOF''),
      dec_reserve = (\<lambda>s. if s = '''' then Inl ''EOF'' else Inr \<lparr>rsv_sku = ''S'',
        rsv_quantity = (if s = ''all'' then 4294967294 else 3), rsv_demandRef = ''D''\<rparr>),
      dec_count = (\<lambda>_. Inl ''EOF''), dec_register = (\<lambda>_. Inl ''EOF''), dec_classify = (\<lambda>_. Inl ''EOF''),
      enc = (\<lambda>b. case b of Reservation_body v \<Rightarrow> rer_id v | Receipt_body v \<Rightarrow> rcp_sku v
                       | Problem_body v \<Rightarrow> pbd_type v | _ \<Rightarrow> '''')\<rparr>"

definition demo_reader :: reader where
  "demo_reader = \<lparr>read_all = (\<lambda>r. Inr (rq_body r)), digest = (\<lambda>s. s)\<rparr>"

definition demo_chi :: "request \<Rightarrow> (string \<times> string) option" where
  "demo_chi r = Some (rq_method r, rq_path r)"

definition post :: "string \<Rightarrow> string \<Rightarrow> string \<Rightarrow> request" where
  "post path key bdy = \<lparr>rq_method = ''POST'', rq_path = path, rq_param = '''', rq_query = '''', rq_key = key, rq_body = bdy\<rparr>"

definition demo_api :: "request \<Rightarrow> pg_world \<Rightarrow> (response \<times> pg_world) option" where
  "demo_api = api demo_env demo_codec demo_reader demo_chi 0 None"

text \<open>Two bins as full as a Postgres INTEGER can count.\<close>

definition demo_full :: pg_world where
  "demo_full = demo_run [Register_bin ''A'' 2147483647, Stow ''S'' 2147483647 ''A'',
                         Register_bin ''B'' 2147483647, Stow ''S'' 2147483647 ''B'']"

lemma demo_full_at_rest: "env_ok E \<Longrightarrow> at_rest E demo_full"
  unfolding demo_full_def by (rule demo_at_rest, simp_all add: in64_def max_int4_def)

definition reserved_column :: "pg_world \<Rightarrow> quantity list" where
  "reserved_column w = map u_reserved (units (tables w))"

lemma demo_receive:
  "(case demo_api (post ''/reservations'' ''k'' ''b'') demo_stocked of None \<Rightarrow> False
    | Some (resp, w) \<Rightarrow> rs_status resp = 201 \<and> map ik_key (idem w) = [''k''] \<and> reserved_column w = [3])"
  by code_simp

lemma demo_cross:
  "(case demo_api (post ''/stock/receive'' ''k'' ''b'') demo_stocked of None \<Rightarrow> False
    | Some (resp, w) \<Rightarrow> (case demo_api (post ''/reservations'' ''k'' ''b'') w of None \<Rightarrow> False
      | Some (resp2, w2) \<Rightarrow> rs_status resp = 202 \<and> resp2 = resp \<and> ress (tables w2) = []))"
  by code_simp


lemma known_retry:
  assumes w: "idem_ok w" and row: "row \<in> set (idem w)" and key: "rq_key r = ik_key row" "rq_key r \<noteq> ''''"
    and pick: "routed chi r = Some e" "e \<in> {E_receive, E_reserve}"
    and bytes: "read_all R r = Inr bytes" and a: "available E w 4"
  obtains resp w' where "api E K R chi t g r w = Some (resp, w')" "same_store w w'"
    "ik_hash row = digest R bytes \<Longrightarrow> (case ik_outcome row of Some out \<Rightarrow> resp = stored_response out | None \<Rightarrow> True)"
    "ik_hash row \<noteq> digest R bytes \<Longrightarrow> rs_status resp = 422"
proof -
  have f: "find_row ik_key (rq_key r) (idem w) = Some row"
    using w row key(1) find_row_distinct by (auto simp: idem_ok_def)
  have w': "\<not> in_tx w" using w by (simp add: idem_ok_def)
  obtain resp w1 where run: "RequireIdempotencyKey E K R
      (serve (endpoint_handler K (pg_ports E t) (pg_classifications E) g e)) r w = (resp, w1)" by force
  then have "api E K R chi t g r w = Some (resp, w1)" using pick by (simp add: api_def NewRouter_def Let_def)
  from that [OF this] known_key_replies [OF w' a key(2) bytes f run] show ?thesis
    by (auto split: option.splits)
qed

lemma demo_idem: "idem_ok demo_stocked" "idem demo_stocked = []"
proof -
  have "idem demo_stocked = [] \<and> \<not> in_tx demo_stocked" by code_simp
  then show "idem_ok demo_stocked" "idem demo_stocked = []" by (simp_all add: idem_ok_def)
qed

lemma demo_available: "available demo_env w n"
  by (simp add: available_def demo_env_def)

lemmas demo_simps = demo_available demo_reader_def demo_chi_def post_def routed_def api_routes_def

section \<open>The properties\<close>

text \<open>
  C15. Once a request to create something has been committed under a fresh idempotency key, then after any
  further requests to the API a retry with that key and an equal digest of the body is answered with the
  very same response, and leaves the inventory, the outbox and the keys as they are.
\<close>

theorem retry_replays:
  assumes "idem_ok w" "api E K R chi t g r w = Some (resp, w1)"
    and "rq_key r \<notin> ik_key ` set (idem w)" "rq_key r \<in> ik_key ` set (idem w1)" "read_all R r = Inr bytes"
    and "routed chi r' = Some e" "e \<in> {E_receive, E_reserve}" "rq_key r' = rq_key r"
    and "read_all R r' = Inr bytes'" "digest R bytes' = digest R bytes"
    and "available E (answered E K R chi t g rs w1) 4"
  shows "\<exists>w'. api E K R chi t g r' (answered E K R chi t g rs w1) = Some (resp, w') \<and>
    same_store (answered E K R chi t g rs w1) w'"
proof -
  let ?w2 = "answered E K R chi t g rs w1"
  have nokeep: "idem w1 \<noteq> idem w" using assms(3,4) by auto
  have "\<not> in_tx w" using assms(1) by (simp add: idem_ok_def)
  have stored: "rq_key r \<noteq> '''' \<and> row_of R r bytes resp \<in> set (idem w1)"
    using assms(2)
  proof (cases rule: api_Some)
    case (wrapped e)
    from wrapped(3) \<open>\<not> in_tx w\<close> endpoint_idem [THEN conjunct1] show ?thesis
      by (rule middleware_cases) (use nokeep assms(5) in \<open>auto simp: same_store_def\<close>)
  next
    case (plain e)
    then show ?thesis using endpoint_idem nokeep by blast
  qed
  have ok: "idem_ok ?w2" "row_of R r bytes resp \<in> set (idem ?w2)"
    using answered_keys api_keys [OF assms(2,1)] stored by (metis, metis Un_iff set_append)
  show ?thesis
    by (rule known_retry [OF ok, of r' chi e R bytes' E K t g])
      (use stored assms(6-11) in \<open>auto simp: row_of_def\<close>)
qed

theorem retry_replays_witness:
  "\<exists>resp w1 w'. demo_api (post ''/reservations'' ''k'' ''b'') demo_stocked = Some (resp, w1) \<and> rs_status resp = 201 \<and>
     demo_api (post ''/reservations'' ''k'' ''b'')
       (answered demo_env demo_codec demo_reader demo_chi 0 None [post ''/stock/receive'' ''k2'' ''b''] w1) =
     Some (resp, w')"
proof -
  obtain resp w1 where r: "demo_api (post ''/reservations'' ''k'' ''b'') demo_stocked = Some (resp, w1)"
    "rs_status resp = 201" "map ik_key (idem w1) = [''k'']" using demo_receive by (auto split: option.splits)
  have k: "ik_key ` set (idem w1) = {''k''}" using r(3) by (metis list.set(1,2) set_map)
  show ?thesis
    using r(1,2) retry_replays [OF demo_idem(1), where r' = "post ''/reservations'' ''k'' ''b''" and
        rs = "[post ''/stock/receive'' ''k2'' ''b'']", OF r(1) [unfolded demo_api_def]] k demo_idem(2)
    by (simp add: demo_api_def demo_simps) blast
qed

text \<open>
  C19. A request to create something whose idempotency key is already in use for a body of another digest is
  refused with status 422 and changes nothing.
\<close>

theorem reused_key_refused:
  assumes "idem_ok w" "row \<in> set (idem w)" "rq_key r = ik_key row" "rq_key r \<noteq> ''''"
    and "routed chi r = Some e" "e \<in> {E_receive, E_reserve}" "read_all R r = Inr bytes" "available E w 4"
    and "ik_hash row \<noteq> digest R bytes"
  shows "\<exists>resp w'. api E K R chi t g r w = Some (resp, w') \<and> rs_status resp = 422 \<and> same_store w w'"
  by (rule known_retry [of w row r chi e R bytes E K t g]) (use assms in auto)

theorem reused_key_refused_witness:
  "\<exists>w1 resp w'. demo_api (post ''/reservations'' ''k'' ''b'') demo_stocked \<noteq> None \<and>
     demo_api (post ''/reservations'' ''k'' ''c'') w1 = Some (resp, w') \<and> rs_status resp = 422 \<and> same_store w1 w'"
proof -
  let ?row = "row_of demo_reader (post ''/reservations'' ''k'' ''b'') ''b'' no_content"
  let ?w = "demo_stocked\<lparr>idem := [?row]\<rparr>"
  have "idem_ok ?w" using demo_idem(1) by (simp add: idem_ok_def row_of_def)
  from reused_key_refused [OF this, of ?row "post ''/reservations'' ''k'' ''c''" demo_chi E_reserve demo_reader "''c''"
      demo_env demo_codec 0 None] demo_receive
  show ?thesis by (auto simp: demo_api_def demo_simps row_of_def split: option.splits)
qed

text \<open>
  C16. A request to create something under a key not yet in use does all of its work or none: either the
  store keeps the response that the client receives under that key, or the client receives a problem
  with status 400 or 500 and the inventory, the outbox and the keys are unchanged.
\<close>

theorem creation_all_or_nothing:
  assumes "idem_ok w" "api E K R chi t g r w = Some (resp, w')" "routed chi r = Some e" "e \<in> {E_receive, E_reserve}"
    and "rq_key r \<notin> ik_key ` set (idem w)"
  shows "same_store w w' \<and> rs_status resp \<in> {400, 500} \<or>
    (\<exists>bytes. read_all R r = Inr bytes \<and> idem w' = idem w @ [row_of R r bytes resp])"
  using assms(2)
proof (cases rule: api_Some)
  case (wrapped e)
  have "\<not> in_tx w" using assms(1) by (simp add: idem_ok_def)
  from wrapped(3) this endpoint_idem [THEN conjunct1] show ?thesis
    by (rule middleware_cases) (use assms(5) in auto)
next
  case (plain e)
  then show ?thesis using assms(3,4) by simp
qed

theorem creation_all_or_nothing_witness:
  "\<exists>resp w'. demo_api (post ''/reservations'' ''k'' ''b'') demo_stocked = Some (resp, w') \<and>
     idem w' = [row_of demo_reader (post ''/reservations'' ''k'' ''b'') ''b'' resp]"
proof -
  obtain resp w1 where r: "demo_api (post ''/reservations'' ''k'' ''b'') demo_stocked = Some (resp, w1)"
    "rs_status resp = 201" using demo_receive by (auto split: option.splits)
  show ?thesis
    using r creation_all_or_nothing [OF demo_idem(1) r(1) [unfolded demo_api_def], of E_reserve] demo_idem(2)
    by (simp add: demo_simps)
qed

text \<open>
  C20. No request finds a key without its outcome: after any sequence of requests, whatever fails on the
  way, no transaction is left open, every key has one row and every row holds the response of its request.
\<close>

theorem keys_have_outcomes:
  assumes "idem w = []" "\<not> in_tx w"
  shows "\<not> in_tx (answered E K R chi t g rs w) \<and> distinct (map ik_key (idem (answered E K R chi t g rs w))) \<and>
    list_all (\<lambda>row. ik_outcome row \<noteq> None) (idem (answered E K R chi t g rs w))"
  using answered_keys [of w E K R chi t g rs] assms by (simp add: idem_ok_def list_all_iff)

theorem keys_have_outcomes_witness:
  "list_all (\<lambda>row. ik_outcome row \<noteq> None)
     (idem (answered demo_env demo_codec demo_reader demo_chi 0 None [post ''/reservations'' ''k'' ''b''] demo_stocked))"
  using keys_have_outcomes [of demo_stocked] demo_idem by (simp add: idem_ok_def)


text \<open>
  The key and the body alone identify a request: a reservation sent with the key and the body of a
  receipt is answered with the receipt, and nothing is reserved.
\<close>

theorem key_shared_by_endpoints:
  "\<exists>resp w w'. demo_api (post ''/stock/receive'' ''k'' ''b'') demo_stocked = Some (resp, w) \<and>
     demo_api (post ''/reservations'' ''k'' ''b'') w = Some (resp, w') \<and>
     rs_status resp = 202 \<and> ress (tables w') = []"
  using demo_cross by (auto split: option.splits)

end
