(* ===== verification/FacilityCache.thy ===== *)
theory FacilityCache
  imports CloudEvents "HOL-Library.AList"
begin

text \<open>
  internal/adapters/outbound/facilitycache: the local view of facility-layout's locations that is rebuilt
  from the topic of that context. The two maps of the consumer are association lists with one entry for a
  key, as Go's maps are. Kafka, the CloudEvents SDK and encoding/json are the fields of \<open>fc_env\<close>.
\<close>

section \<open>Messages, errors and the outside\<close>

definition FacilityTopic :: string where "FacilityTopic = ''warehouse.facility.events''"
definition dlqTopicSuffix :: string where "dlqTopicSuffix = ''.dlq''"

definition typeZoneRegistered :: string where
  "typeZoneRegistered = ''com.warehouse.wms.facility-layout.zone.ZoneRegistered''"
definition typeLocationSlotRegistered :: string where
  "typeLocationSlotRegistered = ''com.warehouse.wms.facility-layout.locationslot.LocationSlotRegistered''"
definition typeLocationSlotDecommissioned :: string where
  "typeLocationSlotDecommissioned = ''com.warehouse.wms.facility-layout.locationslot.LocationSlotDecommissioned''"

record zone_data =
  zd_zoneId :: string
  zd_temperatureClass :: string
  zd_hazmat :: bool

record slot_data =
  sd_locationCode :: string
  sd_zoneId :: string

record message =
  km_partition :: int
  km_offset :: int
  km_key :: string
  km_value :: string
  km_headers :: "(string \<times> string) list"

datatype kafka_err =
  UnknownTopicOrPartition | LeaderNotAvailable | WriteErrors "kafka_err option list"
| Kafka_other string | Kafka_joined kafka_err kafka_err

record fc_env =
  fc_sdk :: sdk
  as_zone :: "cloud_event \<Rightarrow> string + zone_data"
  as_slot :: "cloud_event \<Rightarrow> string + slot_data"
  err_text :: "err \<Rightarrow> string"
  failed_at :: "nat \<Rightarrow> string"
  dlq_answer :: "nat \<Rightarrow> kafka_err option"
  dlq_stored :: "nat \<Rightarrow> bool"
  cancelled :: "nat \<Rightarrow> bool"

section \<open>The consumer\<close>

record consumer =
  zones :: "(string \<times> slot_attributes) list"
  location_slots :: "(string \<times> string) list"
  ready :: bool
  target :: "(int \<times> int) list"
  source_topic :: string
  has_dlqWriter :: bool

text \<open>The consumer, what it has written to the dead-letter topic, and how many writes it has tried.\<close>

record fc_world =
  fc_consumer :: consumer
  dead_letters :: "message list"
  fc_writes :: nat

definition markReady :: "consumer \<Rightarrow> consumer" where
  "markReady c = c\<lparr>ready := True\<rparr>"

definition Consumer_Ready :: "consumer \<Rightarrow> bool" where "Consumer_Ready c = ready c"
definition Consumer_Slots :: "consumer \<Rightarrow> nat" where "Consumer_Slots c = length (location_slots c)"
definition Consumer_Zones :: "consumer \<Rightarrow> nat" where "Consumer_Zones c = length (zones c)"

definition GetSlotAttributes :: "consumer \<Rightarrow> bin_id \<Rightarrow> slot_attributes result" where
  "GetSlotAttributes c binID =
     (case map_of (location_slots c) binID of
        None \<Rightarrow> Inr unknown_slot
      | Some zoneID \<Rightarrow>
          (case map_of (zones c) zoneID of None \<Rightarrow> Inr unknown_slot | Some attrs \<Rightarrow> Inr attrs))"

text \<open>\<open>strings.Split\<close> and \<open>strings.Join\<close> with a separator of one character.\<close>

fun split_at :: "char \<Rightarrow> string \<Rightarrow> string list" where
  "split_at c [] = [[]]"
| "split_at c (x # xs) = (if x = c then [] # split_at c xs
     else case split_at c xs of [] \<Rightarrow> [[x]] | y # ys \<Rightarrow> (x # y) # ys)"

fun join_with :: "char \<Rightarrow> string list \<Rightarrow> string" where
  "join_with c [] = []"
| "join_with c [x] = x"
| "join_with c (x # y # ys) = x @ c # join_with c (y # ys)"

definition zoneIDFromLocationCode :: "string \<Rightarrow> string" where
  "zoneIDFromLocationCode code =
     (let parts = split_at (CHR ''-'') code
      in if length parts < 3 then '''' else join_with (CHR ''-'') (take 3 parts))"

definition applyZoneRegistered :: "string + zone_data \<Rightarrow> consumer \<Rightarrow> consumer result" where
  "applyZoneRegistered dataAs c =
     (case dataAs of
        Inl e \<Rightarrow> Inl (Wrapped (''facilitycache: decode '' @ typeZoneRegistered) (InfraErr e))
      | Inr d \<Rightarrow>
          if zd_zoneId d = '''' then Inl (InfraErr (''facilitycache: '' @ typeZoneRegistered @ '' with empty zoneId''))
          else
            let temperatureClass = (case ParseTemperatureClass (zd_temperatureClass d) of Inl _ \<Rightarrow> '''' | Inr t \<Rightarrow> t)
            in Inr (c\<lparr>zones := AList.update (zd_zoneId d)
                 \<lparr>sa_hazmat = zd_hazmat d, sa_temperatureClass = temperatureClass, sa_known = True\<rparr> (zones c)\<rparr>))"

definition applySlotRegistered :: "string + slot_data \<Rightarrow> consumer \<Rightarrow> consumer result" where
  "applySlotRegistered dataAs c =
     (case dataAs of
        Inl e \<Rightarrow> Inl (Wrapped (''facilitycache: decode '' @ typeLocationSlotRegistered) (InfraErr e))
      | Inr d \<Rightarrow>
          if sd_locationCode d = ''''
            then Inl (InfraErr (''facilitycache: '' @ typeLocationSlotRegistered @ '' with empty locationCode''))
          else
            let zoneID = (if sd_zoneId d = '''' then zoneIDFromLocationCode (sd_locationCode d) else sd_zoneId d)
            in Inr (c\<lparr>location_slots := AList.update (sd_locationCode d) zoneID (location_slots c)\<rparr>))"

definition apply_event :: "fc_env \<Rightarrow> string \<Rightarrow> consumer \<Rightarrow> consumer result" where
  "apply_event V value c =
     (case ce_Decode (fc_sdk V) value of
        Inl e \<Rightarrow> Inl (Wrapped ''facilitycache'' e)
      | Inr e \<Rightarrow>
          if ce_type e = typeZoneRegistered then applyZoneRegistered (as_zone V e) c
          else if ce_type e = typeLocationSlotRegistered then applySlotRegistered (as_slot V e) c
          else if ce_type e = typeLocationSlotDecommissioned then
            (case as_slot V e of
               Inl e \<Rightarrow> Inl (Wrapped (''facilitycache: decode '' @ typeLocationSlotDecommissioned) (InfraErr e))
             | Inr d \<Rightarrow> Inr (c\<lparr>location_slots := AList.delete (sd_locationCode d) (location_slots c)\<rparr>))
          else Inr c)"

definition observe :: "int \<Rightarrow> int \<Rightarrow> consumer \<Rightarrow> consumer" where
  "observe part offset c =
     (let c1 = (case map_of (target c) part of
            None \<Rightarrow> c
          | Some t \<Rightarrow> if offset + 1 \<ge> t then c\<lparr>target := AList.delete part (target c)\<rparr> else c)
      in if target c1 = [] then markReady c1 else c1)"

section \<open>The dead-letter topic\<close>

text \<open>\<open>Count\<close> of \<open>WriteErrors\<close> counts the writes that failed.\<close>

fun isTopicNotReady :: "kafka_err \<Rightarrow> bool" where
  "isTopicNotReady (WriteErrors es) =
     (list_all (\<lambda>x. case x of None \<Rightarrow> True | Some e \<Rightarrow> isTopicNotReady e) es \<and> list_ex (\<lambda>x. x \<noteq> None) es)"
| "isTopicNotReady (Kafka_joined e1 e2) = (isTopicNotReady e1 \<or> isTopicNotReady e2)"
| "isTopicNotReady e = (e = UnknownTopicOrPartition \<or> e = LeaderNotAvailable)"

definition dlqTopicReadyAttempts :: nat where "dlqTopicReadyAttempts = 40"

text \<open>One \<open>WriteMessages\<close>. A write that reports an error may have been stored all the same.\<close>

definition WriteMessages :: "fc_env \<Rightarrow> message \<Rightarrow> fc_world \<Rightarrow> kafka_err option \<times> fc_world" where
  "WriteMessages V msg w =
     (let n = fc_writes w; w' = w\<lparr>fc_writes := Suc n\<rparr>
      in case dlq_answer V n of
        None \<Rightarrow> (None, w'\<lparr>dead_letters := dead_letters w @ [msg]\<rparr>)
      | Some e \<Rightarrow> (Some e, if dlq_stored V n then w'\<lparr>dead_letters := dead_letters w @ [msg]\<rparr> else w'))"

fun write_attempts :: "fc_env \<Rightarrow> message \<Rightarrow> nat \<Rightarrow> kafka_err option \<Rightarrow> fc_world \<Rightarrow> kafka_err option \<times> fc_world" where
  "write_attempts V msg 0 err w = (err, w)"
| "write_attempts V msg (Suc left) err w =
     (case WriteMessages V msg w of
        (None, w') \<Rightarrow> (None, w')
      | (Some e, w') \<Rightarrow>
          if \<not> isTopicNotReady e then (Some e, w')
          else if cancelled V (fc_writes w') then (Some (Kafka_joined e (Kafka_other ''context canceled'')), w')
          else write_attempts V msg left (Some e) w')"

definition writeDLQ :: "fc_env \<Rightarrow> message \<Rightarrow> fc_world \<Rightarrow> kafka_err option \<times> fc_world" where
  "writeDLQ V msg = write_attempts V msg dlqTopicReadyAttempts None"

definition dead_letter :: "fc_env \<Rightarrow> string \<Rightarrow> nat \<Rightarrow> message \<Rightarrow> err \<Rightarrow> message" where
  "dead_letter V topic n msg cause =
     \<lparr>km_partition = 0, km_offset = 0, km_key = km_key msg, km_value = km_value msg,
      km_headers = km_headers msg @ [(''x-dlq-source-topic'', topic), (''x-dlq-error'', err_text V cause),
                                     (''x-dlq-failed-at'', failed_at V n)]\<rparr>"

definition dlqPublish :: "fc_env \<Rightarrow> message \<Rightarrow> err \<Rightarrow> fc_world \<Rightarrow> kafka_err option \<times> fc_world" where
  "dlqPublish V msg cause w =
     (if \<not> has_dlqWriter (fc_consumer w) then (None, w)
      else writeDLQ V (dead_letter V (source_topic (fc_consumer w)) (fc_writes w) msg cause) w)"

section \<open>The loop\<close>

definition handle :: "fc_env \<Rightarrow> message \<Rightarrow> fc_world \<Rightarrow> fc_world" where
  "handle V msg w =
     (let w1 = (case apply_event V (km_value msg) (fc_consumer w) of
            Inl e \<Rightarrow> snd (dlqPublish V msg e w)
          | Inr c \<Rightarrow> w\<lparr>fc_consumer := c\<rparr>)
      in w1\<lparr>fc_consumer := observe (km_partition msg) (km_offset msg) (fc_consumer w1)\<rparr>)"

text \<open>What \<open>ReadMessage\<close> returns until it fails: messages, and then the error.\<close>

fun Consumer_Run :: "fc_env \<Rightarrow> message list \<Rightarrow> kafka_err \<Rightarrow> fc_world \<Rightarrow> kafka_err \<times> fc_world" where
  "Consumer_Run V [] e w = (e, w)"
| "Consumer_Run V (msg # msgs) e w = Consumer_Run V msgs e (handle V msg w)"

section \<open>Construction\<close>

text \<open>
  The cluster as the constructor finds it: whether a broker can be dialled, the partitions of a topic, and
  for each of them the outcome of dialling its leader, reading its offsets and closing the connection.
\<close>

record cluster =
  dial :: "string \<Rightarrow> kafka_err option"
  partitions_of :: "string \<Rightarrow> kafka_err + int list"
  dial_leader :: "int \<Rightarrow> kafka_err option"
  offsets_of :: "int \<Rightarrow> kafka_err + int \<times> int"
  close_leader :: "int \<Rightarrow> kafka_err option"

datatype start_err =
  No_brokers | Dial_failed string kafka_err | Read_partitions string kafka_err | Dial_leader int kafka_err
| Read_offsets int kafka_err | Close_leader int kafka_err

fun isUnknownTopic :: "kafka_err \<Rightarrow> bool" where
  "isUnknownTopic (Kafka_joined e1 e2) = (isUnknownTopic e1 \<or> isUnknownTopic e2)"
| "isUnknownTopic e = (e = UnknownTopicOrPartition)"

fun partition_targets :: "cluster \<Rightarrow> int list \<Rightarrow> (int \<times> int) list \<Rightarrow> start_err + (int \<times> int) list" where
  "partition_targets C [] out = Inr out"
| "partition_targets C (p # ps) out =
     (case dial_leader C p of
        Some e \<Rightarrow> Inl (Dial_leader p e)
      | None \<Rightarrow>
          (case offsets_of C p of
             Inl e \<Rightarrow> Inl (Read_offsets p e)
           | Inr (first, next_offset) \<Rightarrow>
               (case close_leader C p of
                  Some e \<Rightarrow> Inl (Close_leader p e)
                | None \<Rightarrow> partition_targets C ps (if next_offset > first then AList.update p next_offset out else out))))"

definition newTargetOffsets :: "cluster \<Rightarrow> string list \<Rightarrow> string \<Rightarrow> start_err + (int \<times> int) list" where
  "newTargetOffsets C brokers topic =
     (case brokers of
        [] \<Rightarrow> Inl No_brokers
      | b # _ \<Rightarrow>
          (case dial C b of
             Some e \<Rightarrow> Inl (Dial_failed b e)
           | None \<Rightarrow>
               (case partitions_of C topic of
                  Inl e \<Rightarrow> if isUnknownTopic e then Inr [] else Inl (Read_partitions topic e)
                | Inr ps \<Rightarrow> partition_targets C ps [])))"

definition NewConsumerForTopic :: "cluster \<Rightarrow> string list \<Rightarrow> string \<Rightarrow> start_err + consumer" where
  "NewConsumerForTopic C brokers topic =
     (case newTargetOffsets C brokers topic of
        Inl e \<Rightarrow> Inl e
      | Inr t \<Rightarrow>
          let c = \<lparr>zones = [], location_slots = [], ready = False, target = t, source_topic = topic, has_dlqWriter = True\<rparr>
          in Inr (if t = [] then markReady c else c))"

definition NewConsumer :: "cluster \<Rightarrow> string list \<Rightarrow> start_err + consumer" where
  "NewConsumer C brokers = NewConsumerForTopic C brokers FacilityTopic"

section \<open>What the topic says\<close>

text \<open>
  The specification of the view: the facts a message states of a zone or a location, and, of a list of facts,
  the last word on each of them.
\<close>

datatype fact = Zone_is string slot_attributes | Slot_in string string | Slot_gone string

definition zone_fact :: "zone_data \<Rightarrow> fact option" where
  "zone_fact d = (if zd_zoneId d = '''' then None else Some (Zone_is (zd_zoneId d)
     \<lparr>sa_hazmat = zd_hazmat d,
      sa_temperatureClass = (if zd_temperatureClass d \<in> {Ambient, Chilled, Frozen} then zd_temperatureClass d else ''''),
      sa_known = True\<rparr>))"

definition slot_fact :: "slot_data \<Rightarrow> fact option" where
  "slot_fact d = (if sd_locationCode d = '''' then None else Some (Slot_in (sd_locationCode d)
     (if sd_zoneId d = '''' then zoneIDFromLocationCode (sd_locationCode d) else sd_zoneId d)))"

definition meaning :: "fc_env \<Rightarrow> message \<Rightarrow> fact option" where
  "meaning V m = (case ce_Decode (fc_sdk V) (km_value m) of
     Inl _ \<Rightarrow> None
   | Inr e \<Rightarrow>
       if ce_type e = typeZoneRegistered then (case as_zone V e of Inl _ \<Rightarrow> None | Inr d \<Rightarrow> zone_fact d)
       else if ce_type e = typeLocationSlotRegistered then (case as_slot V e of Inl _ \<Rightarrow> None | Inr d \<Rightarrow> slot_fact d)
       else if ce_type e = typeLocationSlotDecommissioned then
         (case as_slot V e of Inl _ \<Rightarrow> None | Inr d \<Rightarrow> Some (Slot_gone (sd_locationCode d)))
       else None)"

definition facts :: "fc_env \<Rightarrow> message list \<Rightarrow> fact list" where
  "facts V ms = List.map_filter (meaning V) ms"

fun about_zone :: "string \<Rightarrow> fact \<Rightarrow> bool" where
  "about_zone z (Zone_is y a) = (y = z)"
| "about_zone z _ = False"

fun about_slot :: "string \<Rightarrow> fact \<Rightarrow> bool" where
  "about_slot b (Zone_is y a) = False"
| "about_slot b (Slot_in c z) = (c = b)"
| "about_slot b (Slot_gone c) = (c = b)"

definition last_word :: "(fact \<Rightarrow> bool) \<Rightarrow> fact list \<Rightarrow> fact option" where
  "last_word P fs = (case rev (filter P fs) of [] \<Rightarrow> None | f # _ \<Rightarrow> Some f)"

definition zone_now :: "fact list \<Rightarrow> string \<Rightarrow> slot_attributes option" where
  "zone_now fs z = (case last_word (about_zone z) fs of Some (Zone_is y a) \<Rightarrow> Some a | _ \<Rightarrow> None)"

definition slot_now :: "fact list \<Rightarrow> string \<Rightarrow> string option" where
  "slot_now fs b = (case last_word (about_slot b) fs of Some (Slot_in c z) \<Rightarrow> Some z | _ \<Rightarrow> None)"

definition attributes_now :: "fact list \<Rightarrow> bin_id \<Rightarrow> slot_attributes" where
  "attributes_now fs b = (case slot_now fs b of None \<Rightarrow> unknown_slot
     | Some z \<Rightarrow> (case zone_now fs z of None \<Rightarrow> unknown_slot | Some a \<Rightarrow> a))"

lemma last_word_snoc [simp]: "last_word P (fs @ [f]) = (if P f then Some f else last_word P fs)"
  by (simp add: last_word_def)

lemma last_word_append: "last_word P (fs @ gs) = (case last_word P gs of None \<Rightarrow> last_word P fs | Some f \<Rightarrow> Some f)"
  by (auto simp: last_word_def split: list.splits)

lemma zone_now_snoc: "zone_now (fs @ [f]) z = (case f of Zone_is y a \<Rightarrow> if y = z then Some a else zone_now fs z | _ \<Rightarrow> zone_now fs z)"
  by (cases f) (simp_all add: zone_now_def)

lemma slot_now_snoc: "slot_now (fs @ [f]) b = (case f of
    Zone_is y a \<Rightarrow> slot_now fs b
  | Slot_in c z \<Rightarrow> if c = b then Some z else slot_now fs b
  | Slot_gone c \<Rightarrow> if c = b then None else slot_now fs b)"
  by (cases f) (simp_all add: slot_now_def)

lemma facts_append: "facts V (ms @ ns) = facts V ms @ facts V ns"
  by (induction ms) (simp_all add: facts_def List.map_filter_def)

lemma facts_one: "facts V [m] = (case meaning V m of None \<Rightarrow> [] | Some f \<Rightarrow> [f])"
  by (simp add: facts_def List.map_filter_def split: option.split)

text \<open>The consumer's maps say what the facts say.\<close>

definition tells :: "fact list \<Rightarrow> consumer \<Rightarrow> bool" where
  "tells fs c \<longleftrightarrow> map_of (zones c) = zone_now fs \<and> map_of (location_slots c) = slot_now fs"

lemma parse_temperature:
  "(case ParseTemperatureClass t of Inl _ \<Rightarrow> '''' | Inr x \<Rightarrow> x) = (if t \<in> {Ambient, Chilled, Frozen} then t else '''')"
  by (simp add: ParseTemperatureClass_def)

lemma tells_observe [simp]: "tells fs (observe p n c) = tells fs c"
  by (simp add: observe_def markReady_def tells_def Let_def split: option.split)

lemma tells_step:
  assumes c: "tells fs c"
  shows "case apply_event V (km_value m) c of Inl _ \<Rightarrow> meaning V m = None | Inr c' \<Rightarrow> tells (fs @ facts V [m]) c'"
proof (cases "ce_Decode (fc_sdk V) (km_value m)")
  case (Inl e)
  then show ?thesis by (simp add: apply_event_def meaning_def)
next
  case (Inr e)
  have upd: "map_of (AList.update k v xs) = (map_of xs)(k \<mapsto> v)" "map_of (AList.delete k xs) = (map_of xs)(k := None)"
    for k :: string and v :: 'x and xs by (simp_all add: update_conv' delete_conv')
  show ?thesis
    using c Inr
    by (auto simp: apply_event_def meaning_def applyZoneRegistered_def applySlotRegistered_def zone_fact_def
        slot_fact_def facts_one tells_def zone_now_snoc slot_now_snoc parse_temperature Let_def fun_eq_iff
        upd split: sum.splits)
qed

lemma dlq_consumer [simp]:
  "fc_consumer (snd (dlqPublish V m e w)) = fc_consumer w"
proof -
  have "fc_consumer (snd (write_attempts V d n err w)) = fc_consumer w" for d n err w
    by (induction n arbitrary: err w)
      (auto simp: WriteMessages_def Let_def split: option.splits prod.splits if_splits)
  then show ?thesis by (simp add: dlqPublish_def writeDLQ_def)
qed

lemma tells_handle: "tells fs (fc_consumer w) \<Longrightarrow> tells (fs @ facts V [m]) (fc_consumer (handle V m w))"
  using tells_step [of fs "fc_consumer w" V m] by (auto simp: handle_def Let_def facts_one split: sum.splits)

lemma tells_run: "tells fs (fc_consumer w) \<Longrightarrow> tells (fs @ facts V ms) (fc_consumer (snd (Consumer_Run V ms e w)))"
proof (induction ms arbitrary: fs w)
  case (Cons m ms)
  show ?case using Cons.IH [OF tells_handle [OF Cons.prems, of V m]] facts_append [of V "[m]" ms] by simp
qed (simp add: facts_def List.map_filter_def)

lemma tells_lookup: "tells fs c \<Longrightarrow> GetSlotAttributes c b = Inr (attributes_now fs b)"
  by (auto simp: GetSlotAttributes_def attributes_now_def tells_def split: option.split)

section \<open>Readiness\<close>

definition reached :: "message list \<Rightarrow> int \<times> int \<Rightarrow> bool" where
  "reached ms pt \<longleftrightarrow> (\<exists>m \<in> set ms. km_partition m = fst pt \<and> snd pt \<le> km_offset m + 1)"

text \<open>What is left of the targets after some messages.\<close>

definition awaits :: "(int \<times> int) list \<Rightarrow> message list \<Rightarrow> consumer \<Rightarrow> bool" where
  "awaits t0 ms c \<longleftrightarrow> target c = filter (\<lambda>pt. \<not> reached ms pt) t0 \<and> (ready c \<longleftrightarrow> target c = [])"

lemma delete_filter: "AList.delete p t = filter (\<lambda>pt. p \<noteq> fst pt) t"
  by (simp add: AList.delete_eq case_prod_unfold)

lemma reached_snoc: "reached (ms @ [m]) pt \<longleftrightarrow> reached ms pt \<or> km_partition m = fst pt \<and> snd pt \<le> km_offset m + 1"
  by (auto simp: reached_def)

lemma apply_target: "apply_event V v c = Inr c' \<Longrightarrow> target c' = target c \<and> ready c' = ready c"
  by (auto simp: apply_event_def applyZoneRegistered_def applySlotRegistered_def Let_def
      split: sum.splits if_splits)

lemma awaits_observe:
  assumes c: "awaits t0 ms c" and d: "distinct (map fst t0)"
  shows "awaits t0 (ms @ [m]) (observe (km_partition m) (km_offset m) c)"
proof -
  let ?left = "filter (\<lambda>pt. \<not> reached ms pt) t0" and ?p = "km_partition m"
  have d': "distinct (map fst ?left)" using d by (simp add: distinct_map_filter)
  have out: "filter (\<lambda>pt. \<not> reached (ms @ [m]) pt) t0 =
      filter (\<lambda>pt. \<not> (?p = fst pt \<and> snd pt \<le> km_offset m + 1)) ?left"
    by (simp add: reached_snoc conj_commute)
  show ?thesis
  proof (cases "map_of ?left ?p")
    case None
    then have "filter (\<lambda>pt. \<not> (?p = fst pt \<and> snd pt \<le> km_offset m + 1)) ?left = ?left"
      by (intro filter_True) (auto simp: map_of_eq_None_iff image_iff)
    then show ?thesis using None c out by (auto simp: awaits_def observe_def Let_def markReady_def)
  next
    case (Some t)
    have only: "pt \<in> set ?left \<Longrightarrow> fst pt = ?p \<Longrightarrow> snd pt = t" for pt
      using Some d' by (metis map_of_is_SomeI option.inject prod.collapse)
    have "filter (\<lambda>pt. \<not> (?p = fst pt \<and> snd pt \<le> km_offset m + 1)) ?left =
        (if t \<le> km_offset m + 1 then AList.delete ?p ?left else ?left)"
      unfolding delete_filter using only by (auto intro!: filter_cong simp: filter_id_conv simp del: filter_filter)
    then show ?thesis using Some c out by (auto simp: awaits_def observe_def Let_def markReady_def)
  qed
qed

lemma awaits_handle:
  assumes "awaits t0 ms (fc_consumer w)" "distinct (map fst t0)"
  shows "awaits t0 (ms @ [m]) (fc_consumer (handle V m w))"
proof -
  obtain c where c: "fc_consumer (handle V m w) = observe (km_partition m) (km_offset m) c" "target c = target (fc_consumer w)"
      "ready c = ready (fc_consumer w)"
    using apply_target [of V "km_value m" "fc_consumer w"] by (auto simp: handle_def Let_def split: sum.splits)
  show ?thesis unfolding c(1) by (rule awaits_observe) (use assms c in \<open>auto simp: awaits_def\<close>)
qed

lemma awaits_run:
  "awaits t0 ms (fc_consumer w) \<Longrightarrow> distinct (map fst t0) \<Longrightarrow>
   awaits t0 (ms @ ns) (fc_consumer (snd (Consumer_Run V ns e w)))"
proof (induction ns arbitrary: ms w)
  case (Cons m ns)
  show ?case using Cons.IH [OF awaits_handle [OF Cons.prems] Cons.prems(2)] by simp
qed simp

lemma targets_distinct: "partition_targets C ps out = Inr t \<Longrightarrow> distinct (map fst out) \<Longrightarrow> distinct (map fst t)"
  by (induction ps arbitrary: out)
    (auto simp: distinct_update split: option.splits sum.splits prod.splits if_splits)

text \<open>A consumer as the constructor returns it.\<close>

definition fresh_consumer :: "consumer \<Rightarrow> bool" where
  "fresh_consumer c \<longleftrightarrow> zones c = [] \<and> location_slots c = [] \<and> distinct (map fst (target c)) \<and>
     (ready c \<longleftrightarrow> target c = []) \<and> has_dlqWriter c"

lemma NewConsumer_fresh: "NewConsumerForTopic C brokers topic = Inr c \<Longrightarrow> fresh_consumer c"
  by (auto simp: NewConsumerForTopic_def newTargetOffsets_def markReady_def fresh_consumer_def Let_def
      split: sum.splits list.splits option.splits if_splits dest: targets_distinct)

lemma fresh_tells: "fresh_consumer c \<Longrightarrow> tells [] c"
  by (auto simp: fresh_consumer_def tells_def zone_now_def slot_now_def last_word_def)

lemma fresh_awaits: "fresh_consumer c \<Longrightarrow> awaits (target c) [] c"
  by (auto simp: fresh_consumer_def awaits_def reached_def)

section \<open>Dead letters\<close>












lemma redelivered: "last_word P (facts V (ms @ drop k ms)) = last_word P (facts V ms)"
proof -
  have "facts V ms = facts V (take k ms) @ facts V (drop k ms)" by (simp flip: facts_append)
  then show ?thesis by (simp add: facts_append last_word_append split: option.split)
qed

section \<open>A topic of three messages\<close>

definition demo_fc :: fc_env where
  "demo_fc =
     \<lparr>fc_sdk = \<lparr>sdk_marshal = (\<lambda>_. Inr ''''),
        sdk_unmarshal = (\<lambda>v. if v = ''?'' then None else Some
          \<lparr>ce_specversion = ''1.0'', ce_id = v, ce_source = '''',
           ce_type = (if v = ''zone'' then typeZoneRegistered else if v = ''slot'' then typeLocationSlotRegistered
             else typeLocationSlotDecommissioned),
           ce_subject = v, ce_time = 0, ce_dataschema = '''', ce_data = []\<rparr>),
        sdk_valid = (\<lambda>_. True)\<rparr>,
      as_zone = (\<lambda>_. Inr \<lparr>zd_zoneId = ''W-S-A'', zd_temperatureClass = ''Chilled'', zd_hazmat = True\<rparr>),
      as_slot = (\<lambda>_. Inr \<lparr>sd_locationCode = ''W-S-A-7'', sd_zoneId = ''''\<rparr>),
      err_text = (\<lambda>_. ''bad''), failed_at = (\<lambda>_. ''now''),
      dlq_answer = (\<lambda>n. if n = 0 then Some LeaderNotAvailable else None), dlq_stored = (\<lambda>_. False),
      cancelled = (\<lambda>_. False)\<rparr>"

definition demo_cluster :: cluster where
  "demo_cluster = \<lparr>dial = (\<lambda>_. None), partitions_of = (\<lambda>_. Inr [0, 1]), dial_leader = (\<lambda>_. None),
     offsets_of = (\<lambda>p. Inr (0, if p = 0 then 2 else 0)), close_leader = (\<lambda>_. None)\<rparr>"

definition demo_message :: "int \<Rightarrow> string \<Rightarrow> message" where
  "demo_message n v = \<lparr>km_partition = 0, km_offset = n, km_key = v, km_value = v, km_headers = []\<rparr>"

definition started :: "consumer \<Rightarrow> fc_world" where
  "started c = \<lparr>fc_consumer = c, dead_letters = [], fc_writes = 0\<rparr>"

definition after :: "fc_env \<Rightarrow> message list \<Rightarrow> consumer \<Rightarrow> consumer" where
  "after V ms c = fc_consumer (snd (Consumer_Run V ms (Kafka_other ''closed'') (started c)))"

lemma after_tells: "fresh_consumer c \<Longrightarrow> tells (facts V ms) (after V ms c)"
  using tells_run [of "[]" "started c" V ms] fresh_tells by (simp add: after_def started_def)

lemma demo_new: "NewConsumerForTopic demo_cluster [''b''] ''t'' =
  Inr \<lparr>zones = [], location_slots = [], ready = False, target = [(0, 2)], source_topic = ''t'', has_dlqWriter = True\<rparr>"
  by code_simp


section \<open>The properties\<close>

lemma ready_reached:
  assumes f: "fresh_consumer c"
  shows "Consumer_Ready (after V ms c) \<longleftrightarrow> list_all (reached ms) (target c)"
proof -
  have "awaits (target c) ([] @ ms) (after V ms c)"
    using f awaits_run [of "target c" "[]" "started c" ms V] fresh_awaits
    by (simp add: after_def started_def fresh_consumer_def)
  then show ?thesis by (auto simp: awaits_def Consumer_Ready_def list_all_iff filter_empty_conv)
qed

text \<open>
  C26. Whatever messages a new consumer has read, malformed ones among them, a lookup answers with the
  attributes the topic last stated for the zone of the slot, when the last word on the slot places it in one,
  and with an unknown slot otherwise; it never fails.
\<close>

theorem cache_tells_last_word:
  assumes "NewConsumerForTopic C brokers topic = Inr c"
  shows "GetSlotAttributes (after V ms c) b = Inr (attributes_now (facts V ms) b)"
  using tells_lookup [OF after_tells [OF NewConsumer_fresh [OF assms]]] .

lemma cache_tells_last_word_witness:
  "\<exists>c. NewConsumerForTopic demo_cluster [''b''] ''t'' = Inr c \<and>
     GetSlotAttributes (after demo_fc [demo_message 0 ''slot'', demo_message 1 ''?'', demo_message 2 ''zone''] c) ''W-S-A-7'' =
     Inr \<lparr>sa_hazmat = True, sa_temperatureClass = ''Chilled'', sa_known = True\<rparr>"
proof -
  have "attributes_now (facts demo_fc [demo_message 0 ''slot'', demo_message 1 ''?'', demo_message 2 ''zone'']) ''W-S-A-7'' =
      \<lparr>sa_hazmat = True, sa_temperatureClass = ''Chilled'', sa_known = True\<rparr>" by code_simp
  then show ?thesis using cache_tells_last_word [OF demo_new] demo_new by auto
qed

text \<open>
  C27. Events of different zones and locations may arrive in any order, and messages may be delivered again
  from any offset on: two deliveries in which every zone and every location sees the same events in the
  same order answer every lookup alike, and so does a delivery followed by a redelivery of its rest.
\<close>

theorem cache_order_and_redelivery:
  assumes "NewConsumerForTopic C brokers topic = Inr c"
    and "\<And>z. filter (about_zone z) (facts V ms) = filter (about_zone z) (facts V ms')"
    and "\<And>s. filter (about_slot s) (facts V ms) = filter (about_slot s) (facts V ms')"
  shows "GetSlotAttributes (after V (ms' @ drop k ms') c) b = GetSlotAttributes (after V ms c) b"
proof -
  have "zone_now (facts V (ms' @ drop k ms')) = zone_now (facts V ms)"
    "slot_now (facts V (ms' @ drop k ms')) = slot_now (facts V ms)"
    unfolding zone_now_def slot_now_def redelivered using assms(2,3) by (simp_all add: last_word_def fun_eq_iff)
  then have "attributes_now (facts V (ms' @ drop k ms')) b = attributes_now (facts V ms) b"
    unfolding attributes_now_def by (simp only:)
  then show ?thesis using tells_lookup [OF after_tells [OF NewConsumer_fresh [OF assms(1)]]] by simp
qed

lemma cache_order_and_redelivery_witness:
  "\<exists>c. NewConsumerForTopic demo_cluster [''b''] ''t'' = Inr c \<and>
     GetSlotAttributes (after demo_fc ([demo_message 0 ''slot'', demo_message 1 ''zone''] @ [demo_message 1 ''zone'']) c) ''W-S-A-7'' =
     GetSlotAttributes (after demo_fc [demo_message 0 ''zone'', demo_message 1 ''slot''] c) ''W-S-A-7''"
proof -
  let ?ms = "[demo_message 0 ''zone'', demo_message 1 ''slot'']" and ?ms' = "[demo_message 0 ''slot'', demo_message 1 ''zone'']"
  obtain a where a: "facts demo_fc ?ms = [Zone_is ''W-S-A'' a, Slot_in ''W-S-A-7'' ''W-S-A'']"
    "facts demo_fc ?ms' = [Slot_in ''W-S-A-7'' ''W-S-A'', Zone_is ''W-S-A'' a]"
  proof
    show "facts demo_fc ?ms = [Zone_is ''W-S-A'' \<lparr>sa_hazmat = True, sa_temperatureClass = ''Chilled'', sa_known = True\<rparr>,
        Slot_in ''W-S-A-7'' ''W-S-A'']" by code_simp
    show "facts demo_fc ?ms' = [Slot_in ''W-S-A-7'' ''W-S-A'',
        Zone_is ''W-S-A'' \<lparr>sa_hazmat = True, sa_temperatureClass = ''Chilled'', sa_known = True\<rparr>]" by code_simp
  qed
  show ?thesis
    using cache_order_and_redelivery [OF demo_new, of demo_fc ?ms ?ms' 1 "''W-S-A-7''"] a demo_new by simp
qed

text \<open>
  The consumer is ready exactly when, in every partition that held messages when it was constructed, it
  has read the last of them or a later one.
\<close>

theorem ready_when_caught_up:
  assumes "NewConsumerForTopic C brokers topic = Inr c"
  shows "Consumer_Ready (after V ms c) \<longleftrightarrow> list_all (reached ms) (target c)"
  by (rule ready_reached [OF NewConsumer_fresh [OF assms]])

lemma ready_when_caught_up_witness:
  "\<exists>c. NewConsumerForTopic demo_cluster [''b''] ''t'' = Inr c \<and>
     \<not> Consumer_Ready (after demo_fc [demo_message 0 ''slot''] c) \<and>
     Consumer_Ready (after demo_fc [demo_message 0 ''slot'', demo_message 1 ''?''] c)"
  using demo_new ready_when_caught_up [OF demo_new] by (simp add: reached_def demo_message_def)



end
