(* ===== verification/Lookup.thy ===== *)
theory Lookup
  imports Complex_Main FacilityCache "HOL-Library.Word"
begin

text \<open>
  The other ways of looking a location up (internal/adapters/outbound/facilitylayout, internal/resilience),
  the retry of the first dial (internal/adapters/outbound/bootretry), and the choice among the lookups that
  cmd/inventory makes. net/http, gobreaker and backoff are not part of the repository: what the code calls of
  them is in \<open>lk_env\<close>.
\<close>

section \<open>The HTTP client\<close>

text \<open>The requests that were sent, and what the libraries keep to themselves.\<close>

record 'b lk_world =
  requests :: "string list"
  hidden :: 'b

type_synonym ('b, 'a) lk_prog = "('b lk_world, err, 'a) prog"

record 'b lk_env =
  new_request :: "string \<Rightarrow> err option"
  respond :: "nat \<Rightarrow> string \<Rightarrow> err + int \<times> string"
  dec_attributes :: "string \<Rightarrow> string + bool \<times> string"
  execute :: "('b, slot_attributes) lk_prog \<Rightarrow> ('b, slot_attributes) lk_prog"
  retry_data :: "nat \<Rightarrow> ('b, slot_attributes) lk_prog \<Rightarrow> ('b, slot_attributes) lk_prog"

definition ErrUnexpectedStatus :: err where
  "ErrUnexpectedStatus = InfraErr ''facility-layout: unexpected response status''"

text \<open>\<open>strings.TrimRight\<close> and \<open>url.PathEscape\<close>.\<close>

definition trim_right :: "char \<Rightarrow> string \<Rightarrow> string" where
  "trim_right c s = rev (dropWhile (\<lambda>x. x = c) (rev s))"

definition kept_in_path :: "char \<Rightarrow> bool" where
  "kept_in_path c \<longleftrightarrow> (let n = of_char c :: nat in
     48 \<le> n \<and> n \<le> 57 \<or> 65 \<le> n \<and> n \<le> 90 \<or> 97 \<le> n \<and> n \<le> 122) \<or> c \<in> set ''-_.~$&+:=@''"

definition hex_digit :: "nat \<Rightarrow> char" where
  "hex_digit n = ''0123456789ABCDEF'' ! (n mod 16)"

definition PathEscape :: "string \<Rightarrow> string" where
  "PathEscape s = concat (map (\<lambda>c. if kept_in_path c then [c]
     else [CHR ''%'', hex_digit (of_char c div 16), hex_digit (of_char c)]) s)"

definition NewClient :: "string \<Rightarrow> string" where
  "NewClient baseURL = trim_right (CHR ''/'') baseURL"

definition endpoint_of :: "string \<Rightarrow> bin_id \<Rightarrow> string" where
  "endpoint_of baseURL binID = baseURL @ ''/locations/'' @ PathEscape binID @ ''/classification''"

definition Client_GetSlotAttributes :: "'b lk_env \<Rightarrow> string \<Rightarrow> bin_id \<Rightarrow> ('b, slot_attributes) lk_prog" where
  "Client_GetSlotAttributes V baseURL binID w =
     (let url = endpoint_of baseURL binID in
      case new_request V url of
        Some e \<Rightarrow> (Inl e, w)
      | None \<Rightarrow>
          let w' = w\<lparr>requests := requests w @ [url]\<rparr> in
          (case respond V (length (requests w)) url of
             Inl e \<Rightarrow> (Inl e, w')
           | Inr (status, bdy) \<Rightarrow>
               if status = 200 then
                 (case dec_attributes V bdy of
                    Inl e \<Rightarrow> (Inl (InfraErr e), w')
                  | Inr (hazmat, temp) \<Rightarrow>
                      (Inr \<lparr>sa_hazmat = hazmat,
                            sa_temperatureClass = (case ParseTemperatureClass temp of Inl _ \<Rightarrow> '''' | Inr t \<Rightarrow> t),
                            sa_known = True\<rparr>, w'))
               else if status = 404 then (Inr unknown_slot, w')
               else (Inl (Wrapped (itoa status) ErrUnexpectedStatus), w')))"

section \<open>The permissive lookup and the circuit breaker\<close>

definition PermissiveLookup_GetSlotAttributes :: "bin_id \<Rightarrow> ('b, slot_attributes) lk_prog" where
  "PermissiveLookup_GetSlotAttributes binID = ret unknown_slot"

definition ErrOpenState :: err where "ErrOpenState = InfraErr ''circuit breaker is open''"
definition ErrTooManyRequests :: err where "ErrTooManyRequests = InfraErr ''too many requests''"

definition isBreakerRejection :: "err \<Rightarrow> bool" where
  "isBreakerRejection e \<longleftrightarrow> errors_is e ErrOpenState \<or> errors_is e ErrTooManyRequests"

definition maxRetryAttempts :: nat where "maxRetryAttempts = 3"

definition retryingFetch :: "'b lk_env \<Rightarrow> string \<Rightarrow> bin_id \<Rightarrow> ('b, slot_attributes) lk_prog" where
  "retryingFetch V baseURL binID = retry_data V (maxRetryAttempts - 1) (Client_GetSlotAttributes V baseURL binID)"

definition BreakerClient_GetSlotAttributes :: "'b lk_env \<Rightarrow> string \<Rightarrow> bin_id \<Rightarrow> ('b, slot_attributes) lk_prog" where
  "BreakerClient_GetSlotAttributes V baseURL binID w =
     (case execute V (retryingFetch V baseURL binID) w of
        (Inl e, w') \<Rightarrow>
          if isBreakerRejection e then PermissiveLookup_GetSlotAttributes binID w' else (Inl e, w')
      | (Inr attrs, w') \<Rightarrow> (Inr attrs, w'))"

text \<open>\<open>gobreaker.Counts\<close>, and when a closed breaker opens. The quotient is of two unsigned 32-bit counters.\<close>

record counts =
  Requests :: "32 word"
  TotalFailures :: "32 word"
  ConsecutiveFailures :: "32 word"

definition minRequestVolumeForErrorRate :: "32 word" where "minRequestVolumeForErrorRate = 10"

definition ReadyToTrip :: "counts \<Rightarrow> bool" where
  "ReadyToTrip c =
     (if ConsecutiveFailures c \<ge> 5 then True
      else if Requests c < minRequestVolumeForErrorRate then False
      else
        let failureRate = (of_int (uint (TotalFailures c)) / of_int (uint (Requests c)) :: real)
        in failureRate > 1 / 2)"

text \<open>\<open>CallTimeout\<close>: the deadline of the derived context, in nanoseconds.\<close>

definition CallTimeout :: "time option \<Rightarrow> time \<Rightarrow> int \<Rightarrow> time" where
  "CallTimeout deadline t maxPerCall =
     (case deadline of
        Some d \<Rightarrow> if d - t \<le> maxPerCall then d else min d (t + maxPerCall)
      | None \<Rightarrow> t + maxPerCall)"

text \<open>The gauge is set to the state the breaker goes to; without a recorder nothing is.\<close>

definition RecordStateChange :: "string \<Rightarrow> (string \<times> int) list option \<Rightarrow> int \<Rightarrow> int \<Rightarrow> (string \<times> int) list option" where
  "RecordStateChange dependency recorder from to = map_option (\<lambda>g. g @ [(dependency, to)]) recorder"

section \<open>The retry of the first dial\<close>

definition BootRetries :: nat where "BootRetries = 5"
definition BootRetryDelay :: int where "BootRetryDelay = 1000000000"

text \<open>
  The loop of \<open>RetryWithDelay\<close> from an attempt on; \<open>stopped\<close> says whether the context is cancelled during a
  wait. The world is threaded through \<open>op\<close>, and the waits are collected.
\<close>

fun retry_from ::
  "string \<Rightarrow> ('w \<Rightarrow> err option) \<Rightarrow> ('w, err, 'a) prog \<Rightarrow> nat \<Rightarrow> int \<Rightarrow> 'w \<Rightarrow> ((err + 'a) \<times> 'w) \<times> int list" where
  "retry_from what stopped op 0 delay w = (op w, [])"
| "retry_from what stopped op (Suc left) delay w =
     (case op w of
        (Inr x, w') \<Rightarrow> ((Inr x, w'), [])
      | (Inl e, w') \<Rightarrow>
          if left = 0 then ((Inl (Wrapped (what @ '' (after 5 attempts)'') e), w'), [])
          else (case stopped w' of
              Some ce \<Rightarrow> ((Inl (Wrapped what ce), w'), [delay])
            | None \<Rightarrow> let (r, waits) = retry_from what stopped op left (wrap64 (delay * 2)) w' in (r, delay # waits)))"

definition RetryWithDelay ::
  "string \<Rightarrow> ('w \<Rightarrow> err option) \<Rightarrow> int \<Rightarrow> ('w, err, 'a) prog \<Rightarrow> 'w \<Rightarrow> ((err + 'a) \<times> 'w) \<times> int list" where
  "RetryWithDelay what stopped base op = retry_from what stopped op BootRetries base"

definition Retry :: "string \<Rightarrow> ('w \<Rightarrow> err option) \<Rightarrow> ('w, err, 'a) prog \<Rightarrow> 'w \<Rightarrow> ((err + 'a) \<times> 'w) \<times> int list" where
  "Retry what stopped = RetryWithDelay what stopped BootRetryDelay"

section \<open>The choice of the lookup\<close>

text \<open>\<open>strings.EqualFold\<close>, for ASCII.\<close>

definition fold_char :: "char \<Rightarrow> char" where
  "fold_char c = (let n = of_char c :: nat in if 65 \<le> n \<and> n \<le> 90 then char_of (n + 32) else c)"

definition EqualFold :: "string \<Rightarrow> string \<Rightarrow> bool" where
  "EqualFold s t \<longleftrightarrow> map fold_char s = map fold_char t"

text \<open>
  The cache once it is ready, the breaker over the HTTP client, or the permissive lookup. For the cache,
  \<open>clusters\<close> is what each attempt to construct it finds, and \<open>replay\<close> the messages read until the wait for its
  readiness is over.
\<close>

datatype lookup_choice = Kafka_cache consumer | Http_client string | Permissive

definition new_consumer :: "(nat \<Rightarrow> cluster) \<Rightarrow> string list \<Rightarrow> (nat, err, consumer) prog" where
  "new_consumer clusters brokers n =
     (case NewConsumer (clusters n) brokers of
        Inl e \<Rightarrow> (Inl (InfraErr ''facilitycache: determine readiness target''), Suc n)
      | Inr c \<Rightarrow> (Inr c, Suc n))"

definition buildLocationLookup ::
  "string \<Rightarrow> string \<Rightarrow> string list \<Rightarrow> (nat \<Rightarrow> cluster) \<Rightarrow> (nat \<Rightarrow> err option) \<Rightarrow> fc_env \<Rightarrow> message list \<Rightarrow>
   lookup_choice result" where
  "buildLocationLookup mode facilityLayoutBaseURL brokers clusters stopped V replay =
     (if EqualFold mode ''kafka'' then
        if brokers = [] then Inl (InfraErr ''LOCATION_LOOKUP_MODE=kafka requires KAFKA_BROKERS to be set'')
        else (case fst (fst (Retry ''dial facility-layout kafka topic'' stopped (new_consumer clusters brokers) 0)) of
          Inl e \<Rightarrow> Inl (Wrapped ''failed to start the Kafka-sourced location cache'' e)
        | Inr c \<Rightarrow>
            if Consumer_Ready (after V replay c) then Inr (Kafka_cache (after V replay c))
            else Inl (InfraErr ''facility location cache did not become ready within 1m0s''))
      else if EqualFold mode ''http'' then Inr (Http_client (NewClient facilityLayoutBaseURL))
      else Inr Permissive)"

text \<open>What a stow asks, whichever was chosen.\<close>

definition chosen_lookup :: "'b lk_env \<Rightarrow> lookup_choice \<Rightarrow> bin_id \<Rightarrow> ('b, slot_attributes) lk_prog" where
  "chosen_lookup V ch binID = (case ch of
     Kafka_cache c \<Rightarrow> lift (GetSlotAttributes c binID)
   | Http_client url \<Rightarrow> BreakerClient_GetSlotAttributes V url binID
   | Permissive \<Rightarrow> PermissiveLookup_GetSlotAttributes binID)"

section \<open>What the libraries document\<close>

text \<open>
  \<open>tries f k w r w'\<close>: running \<open>f\<close> at most \<open>k\<close> times, again only after an error, ends with \<open>r\<close>, which is the
  result of the last run or the error of a context that ended the waiting.
\<close>

inductive tries :: "('w, err, 'a) prog \<Rightarrow> nat \<Rightarrow> 'w \<Rightarrow> err + 'a \<Rightarrow> 'w \<Rightarrow> bool" for f where
  tries_last: "f w = (r, w') \<Longrightarrow> tries f (Suc k) w r w'"
| tries_cancelled: "f w = (Inl e, w') \<Longrightarrow> tries f (Suc k) w (Inl e') w'"
| tries_again: "f w = (Inl e, w1) \<Longrightarrow> tries f k w1 r w' \<Longrightarrow> tries f (Suc k) w r w'"



lemma tries_value: "tries f k w r w' \<Longrightarrow> r = Inr x \<Longrightarrow> \<exists>v. f v = (Inr x, w')"
  by (induction rule: tries.induct) auto



text \<open>The loop of the retry: what it returns, how often it waited and how long.\<close>

lemma retry_from_tries:
  assumes "retry_from what stopped op n delay w = ((r, w'), waits)" "0 < n"
  shows "\<exists>r0. tries op n w r0 w' \<and> (case r of Inr x \<Rightarrow> r0 = Inr x | Inl _ \<Rightarrow> isl r0) \<and> length waits < n"
  using assms
proof (induction what stopped op n delay w arbitrary: r w' waits rule: retry_from.induct)
  case (2 what stopped op left delay w)
  obtain x w1 where x: "op w = (x, w1)" by force
  show ?case
  proof (cases x)
    case (Inr a)
    then show ?thesis using 2 x tries_last [of op w "Inr a" w1 left] by auto
  next
    case (Inl e)
    show ?thesis
    proof (cases "left = 0 \<or> stopped w1 \<noteq> None")
      case True
      then have "w' = w1 \<and> isl r \<and> length waits < Suc left" using 2(2) x Inl by (auto split: if_splits)
      moreover have "tries op (Suc left) w (Inl e) w1" using tries_last [of op w "Inl e" w1 left] x Inl by simp
      ultimately show ?thesis by (intro exI [of _ "Inl e"]) (auto split: sum.split)
    next
      case False
      obtain ws where ws: "retry_from what stopped op left (wrap64 (delay * 2)) w1 = ((r, w'), ws)" "waits = delay # ws"
        using 2(2) x Inl False by (auto split: prod.splits)
      from 2(1) [OF x [symmetric] Inl _ _ ws(1)] False
      obtain r0 where "tries op left w1 r0 w'" "case r of Inr x \<Rightarrow> r0 = Inr x | Inl _ \<Rightarrow> isl r0" "length ws < left"
        by auto
      then show ?thesis using tries_again [of op w e w1 left r0 w'] x Inl ws by auto
    qed
  qed
qed simp

definition demo_lk :: "unit lk_env" where
  "demo_lk = \<lparr>new_request = (\<lambda>_. None), respond = (\<lambda>n _. Inr (if n = 0 then 503 else 200, '''')),
     dec_attributes = (\<lambda>_. Inr (True, ''Tepid'')), execute = (\<lambda>f. f),
     retry_data = (\<lambda>n f w. case f w of (Inl e, w') \<Rightarrow> if n = 0 then (Inl e, w') else f w'
                                     | (Inr x, w') \<Rightarrow> (Inr x, w'))\<rparr>"


section \<open>The properties\<close>



text \<open>
  A closed breaker opens after five failures in a row, or when of at least ten requests more than half
  failed; a single early failure never opens it.
\<close>

theorem trips_when:
  "ReadyToTrip c \<longleftrightarrow> 5 \<le> uint (ConsecutiveFailures c) \<or>
     10 \<le> uint (Requests c) \<and> uint (Requests c) < 2 * uint (TotalFailures c)"
proof -
  have five: "5 \<le> ConsecutiveFailures c \<longleftrightarrow> 5 \<le> uint (ConsecutiveFailures c)"
    by (simp add: word_le_def)
  have ten: "Requests c < 10 \<longleftrightarrow> \<not> 10 \<le> uint (Requests c)"
    by (simp add: word_less_def not_le)
  have half: "real_of_int t / real_of_int r > 1 / 2 \<longleftrightarrow> r < 2 * t" if "10 \<le> r" for r t :: int
  proof -
    have "real_of_int t / real_of_int r > 1 / 2 \<longleftrightarrow> real_of_int r < real_of_int (2 * t)"
      using that by (simp add: field_simps)
    then show ?thesis by (simp only: of_int_less_iff)
  qed
  show ?thesis
    unfolding ReadyToTrip_def minRequestVolumeForErrorRate_def five ten Let_def
    using half [of "uint (Requests c)" "uint (TotalFailures c)"] by auto
qed

text \<open>
  The boot retry runs its operation at least once and at most five times, waiting fewer than five times
  in between; it returns a value only when the last run returned it, and an error only when that run failed.
\<close>

theorem boot_retry_bounded:
  assumes "RetryWithDelay what stopped base op w = ((r, w'), waits)"
  shows "\<exists>r0. tries op 5 w r0 w' \<and> (case r of Inr x \<Rightarrow> r0 = Inr x | Inl _ \<Rightarrow> isl r0) \<and> length waits < 5"
  using retry_from_tries [of what stopped op BootRetries base w r w' waits] assms
  by (simp add: RetryWithDelay_def BootRetries_def)

lemma boot_retry_bounded_witness:
  "\<exists>r0. tries (\<lambda>n :: nat. (if n < 2 then Inl (InfraErr ''reset'') else Inr (), Suc n)) 5 0 r0 3"
proof -
  let ?op = "\<lambda>n :: nat. (if n < 2 then Inl (InfraErr ''reset'') else Inr (), Suc n)"
  have "RetryWithDelay ''ping'' (\<lambda>_. None) 1 ?op 0 = ((Inr (), 3), [1, 2])" by code_simp
  from boot_retry_bounded [OF this] show ?thesis by blast
qed

text \<open>
  The whole budget of the boot retry is 15 seconds of waiting: an operation that always fails is run five
  times with 1, 2, 4 and 8 seconds in between, not the 31 seconds that its comment counts.
\<close>

theorem boot_retry_budget:
  "let ((r, runs), waits) = Retry ''ping'' (\<lambda>_. None) (\<lambda>n :: nat. (Inl (InfraErr ''reset'') :: unit result, Suc n)) 0
   in runs = 5 \<and> waits = [1000000000, 2000000000, 4000000000, 8000000000] \<and> isl r"
  by code_simp

text \<open>
  C35. When the composition root returns the Kafka-fed lookup, it was constructed within five attempts and has
  read, in every partition that held messages then, up to the last of them; a stow that asks it gets the last
  word of the topic, and never an error.
\<close>

theorem kafka_lookup_is_caught_up:
  assumes "buildLocationLookup mode url brokers clusters stopped V replay = Inr (Kafka_cache c)"
  shows "\<exists>n c0. NewConsumer (clusters n) brokers = Inr c0 \<and> list_all (reached replay) (target c0) \<and>
    (\<forall>b w. chosen_lookup L (Kafka_cache c) b w = (Inr (attributes_now (facts V replay) b), w))"
proof -
  obtain c0 n' waits where r: "Retry ''dial facility-layout kafka topic'' stopped (new_consumer clusters brokers) 0 =
      ((Inr c0, n'), waits)" and c: "Consumer_Ready (after V replay c0)" "c = after V replay c0"
    using assms by (cases "Retry ''dial facility-layout kafka topic'' stopped (new_consumer clusters brokers) 0")
      (auto simp: buildLocationLookup_def split: if_splits sum.splits prod.splits)
  obtain r0 where "tries (new_consumer clusters brokers) 5 0 r0 n'" "r0 = Inr c0"
    using retry_from_tries [OF r [unfolded Retry_def RetryWithDelay_def BootRetries_def]] by auto
  then obtain n where n: "NewConsumer (clusters n) brokers = Inr c0"
    using tries_value [of "new_consumer clusters brokers"] by (fastforce simp: new_consumer_def split: sum.splits)
  note new = n [unfolded NewConsumer_def]
  show ?thesis
    using n c ready_reached [OF NewConsumer_fresh [OF new]] tells_lookup [OF after_tells [OF NewConsumer_fresh [OF new]]]
    by (intro exI [of _ n] exI [of _ c0]) (simp add: chosen_lookup_def lift_def)
qed

lemma kafka_lookup_is_caught_up_witness:
  "\<exists>c w. chosen_lookup demo_lk (Kafka_cache c) ''W-S-A-7'' w =
     (Inr (attributes_now (facts demo_fc [demo_message 0 ''slot'', demo_message 1 ''zone'']) ''W-S-A-7''), w)"
proof -
  have "case buildLocationLookup ''Kafka'' '''' [''b''] (\<lambda>_. demo_cluster) (\<lambda>_. None) demo_fc
      [demo_message 0 ''slot'', demo_message 1 ''zone''] of Inr (Kafka_cache c) \<Rightarrow> True | _ \<Rightarrow> False" by code_simp
  then obtain c where "buildLocationLookup ''Kafka'' '''' [''b''] (\<lambda>_. demo_cluster) (\<lambda>_. None) demo_fc
      [demo_message 0 ''slot'', demo_message 1 ''zone''] = Inr (Kafka_cache c)"
    by (auto split: sum.splits lookup_choice.splits)
  from kafka_lookup_is_caught_up [OF this, of demo_lk] show ?thesis by blast
qed

end
