(* ===== verification/Boot.thy ===== *)
theory Boot
  imports Lookup
begin

text \<open>
  How the four processes start (cmd/inventory, cmd/mcp, cmd/inventory-projector, cmd/inventory-reports): the
  environment they read, the migrations, connection pools and pings with their retries (postgres/pool.go,
  postgres/migrate.go, analyticsstore/pool.go), the telemetry providers (telemetry/telemetry.go), and the
  adapters they choose. What the drivers, the migration tool and the OpenTelemetry SDK do is the parameter
  \<open>replies\<close>: every call of them is recorded with its answer, which may depend on all calls before it.
\<close>

section \<open>The environment and the calls\<close>

record pool_config =
  pc_url :: string
  pc_maxConns :: int
  pc_statementTimeout :: string
  pc_readOnly :: bool

datatype boot_call =
  Migrate_new string string | Migrate_up | Migrate_close
| Open_pool pool_config | Ping | Close_pool
| New_resource string string string | New_trace_exporter string | New_metric_exporter string | Start_runtime
| Shutdown_tracer | Shutdown_meter

type_synonym boot_trace = "(boot_call \<times> err option) list"
type_synonym 'a boot = "(boot_trace, err, 'a) prog"

record boot_env =
  os_getenv :: "string \<Rightarrow> string"
  replies :: "boot_trace \<Rightarrow> boot_call \<Rightarrow> err option"
  cancelled :: "boot_trace \<Rightarrow> err option"
  parse_url :: "string \<Rightarrow> err option"
  parse_duration :: "string \<Rightarrow> err + int"

definition call :: "boot_env \<Rightarrow> boot_call \<Rightarrow> unit boot" where
  "call V c tr = (case replies V tr c of
     None \<Rightarrow> (Inr (), tr @ [(c, None)])
   | Some e \<Rightarrow> (Inl e, tr @ [(c, Some e)]))"

definition getenv :: "boot_env \<Rightarrow> string \<Rightarrow> string \<Rightarrow> string" where
  "getenv V key fallback = (let v = os_getenv V key in if v \<noteq> '''' then v else fallback)"

text \<open>The operation of a boot retry, with the waits in between left out.\<close>

definition retried :: "boot_env \<Rightarrow> string \<Rightarrow> 'a boot \<Rightarrow> 'a boot" where
  "retried V what op tr = fst (Retry what (cancelled V) op tr)"

section \<open>The pools\<close>

definition ErrNoChange :: err where "ErrNoChange = InfraErr ''no change''"

text \<open>The migration is closed whether or not it succeeded, and what closing it says is dropped.\<close>

definition RunMigrations :: "boot_env \<Rightarrow> string \<Rightarrow> string \<Rightarrow> unit boot" where
  "RunMigrations V databaseURL migrationsPath =
     andthen (call V (Migrate_new (''file://'' @ migrationsPath) databaseURL)) (\<lambda>_ tr.
       case call V Migrate_up tr of
         (Inl e, tr1) \<Rightarrow>
           (if errors_is e ErrNoChange then Inr () else Inl e, snd (call V Migrate_close tr1))
       | (Inr _, tr1) \<Rightarrow> (Inr (), snd (call V Migrate_close tr1)))"

text \<open>
  The limits are set on the configuration that the URL parses to; the statement timeout is applied by the hook
  that runs on every new connection.
\<close>

definition open_pool :: "boot_env \<Rightarrow> pool_config \<Rightarrow> pool_config boot" where
  "open_pool V cfg =
     (case parse_url V (pc_url cfg) of
        Some e \<Rightarrow> throw e
      | None \<Rightarrow> andthen (call V (Open_pool cfg)) (\<lambda>_. ret cfg))"

definition NewPoolWithLimits :: "boot_env \<Rightarrow> string \<Rightarrow> int \<Rightarrow> string \<Rightarrow> pool_config boot" where
  "NewPoolWithLimits V databaseURL maxConns statementTimeout =
     open_pool V \<lparr>pc_url = databaseURL, pc_maxConns = maxConns, pc_statementTimeout = statementTimeout,
       pc_readOnly = False\<rparr>"

definition MaxConns :: int where "MaxConns = 10"
definition StatementTimeout :: string where "StatementTimeout = ''5s''"

definition NewPool :: "boot_env \<Rightarrow> string \<Rightarrow> pool_config boot" where
  "NewPool V databaseURL = NewPoolWithLimits V databaseURL MaxConns StatementTimeout"

definition an_newPoolWithLimits :: "boot_env \<Rightarrow> string \<Rightarrow> int \<Rightarrow> string \<Rightarrow> bool \<Rightarrow> pool_config boot" where
  "an_newPoolWithLimits V databaseURL maxConns statementTimeout readOnly =
     open_pool V \<lparr>pc_url = databaseURL, pc_maxConns = maxConns, pc_statementTimeout = statementTimeout,
       pc_readOnly = readOnly\<rparr>"

definition an_MaxConns :: int where "an_MaxConns = 5"
definition ReportsMaxConns :: int where "ReportsMaxConns = 5"
definition an_StatementTimeout :: string where "an_StatementTimeout = ''10s''"
definition ReportsStatementTimeout :: string where "ReportsStatementTimeout = ''15s''"

definition an_NewPool :: "boot_env \<Rightarrow> string \<Rightarrow> pool_config boot" where
  "an_NewPool V databaseURL = an_newPoolWithLimits V databaseURL an_MaxConns an_StatementTimeout False"

definition NewReadOnlyPool :: "boot_env \<Rightarrow> string \<Rightarrow> pool_config boot" where
  "NewReadOnlyPool V databaseURL = an_newPoolWithLimits V databaseURL ReportsMaxConns ReportsStatementTimeout True"

text \<open>A pool that does not answer the ping is closed, unless nobody does.\<close>

definition pinged :: "boot_env \<Rightarrow> string \<Rightarrow> bool \<Rightarrow> pool_config \<Rightarrow> pool_config boot" where
  "pinged V what closing pool tr =
     (case retried V what (call V Ping) tr of
        (Inl e, tr1) \<Rightarrow> (Inl e, if closing then snd (call V Close_pool tr1) else tr1)
      | (Inr _, tr1) \<Rightarrow> (Inr pool, tr1))"

definition openPostgresPool :: "boot_env \<Rightarrow> string \<Rightarrow> string \<Rightarrow> string \<Rightarrow> pool_config boot" where
  "openPostgresPool V databaseURL migrationsDatabaseURL migrationsPath =
     andthen (retried V ''run migrations'' (RunMigrations V migrationsDatabaseURL migrationsPath)) (\<lambda>_.
     andthen (NewPool V databaseURL) (pinged V ''ping database'' True))"

definition openAnalyticsPool :: "boot_env \<Rightarrow> string \<Rightarrow> string \<Rightarrow> pool_config boot" where
  "openAnalyticsPool V analyticsURL migrationsPath =
     andthen (retried V ''run analytics migrations'' (RunMigrations V analyticsURL migrationsPath)) (\<lambda>_.
     andthen (an_NewPool V analyticsURL) (pinged V ''ping analytics database'' False))"

section \<open>The adapters a process chooses\<close>

datatype repos = Memory_repos | Postgres_repos pool_config
datatype event_publisher = Log_publisher | Direct_kafka "string list" | Outbox_publisher

datatype close_step = Stop_relay | Close_sink | Close_writers | Close_repos

text \<open>
  \<open>ad_uow\<close>: the unit of work is not nil. \<open>ad_pool\<close>: the pool of the idempotency middleware. \<open>ad_relay\<close>: the
  brokers and the interval of the outbox relay, when one is started. \<open>ad_close\<close>: what closing the adapters
  does, in its order; an error of it is only logged.
\<close>

record adapters =
  ad_repos :: repos
  ad_publisher :: event_publisher
  ad_uow :: bool
  ad_pool :: "pool_config option"
  ad_relay :: "(string list \<times> int) option"
  ad_close :: "close_step list"

definition outboxRelayInterval :: "boot_env \<Rightarrow> int" where
  "outboxRelayInterval V =
     (case parse_duration V (getenv V ''OUTBOX_RELAY_INTERVAL'' ''1s'') of Inl _ \<Rightarrow> 1000000000 | Inr d \<Rightarrow> d)"

definition memoryAdapters :: adapters where
  "memoryAdapters = \<lparr>ad_repos = Memory_repos, ad_publisher = Log_publisher, ad_uow = False, ad_pool = None, ad_relay = None,
     ad_close = []\<rparr>"

definition postgresAdapters :: "pool_config \<Rightarrow> adapters" where
  "postgresAdapters pool = \<lparr>ad_repos = Postgres_repos pool, ad_publisher = Log_publisher, ad_uow = True,
     ad_pool = Some pool, ad_relay = None, ad_close = [Close_repos]\<rparr>"

definition buildAdapters :: "boot_env \<Rightarrow> string \<Rightarrow> string \<Rightarrow> string \<Rightarrow> string \<Rightarrow> adapters boot" where
  "buildAdapters V databaseURL migrationsDatabaseURL migrationsPath eventPublisher =
     andthen (if databaseURL = '''' then ret memoryAdapters
              else andthen (openPostgresPool V databaseURL migrationsDatabaseURL migrationsPath)
                (\<lambda>pool. ret (postgresAdapters pool))) (\<lambda>a.
     if \<not> EqualFold eventPublisher ''kafka'' then ret a
     else
       let brokers = split_at (CHR '','') (getenv V ''KAFKA_BROKERS'' ''localhost:9092'') in
       case ad_pool a of
         None \<Rightarrow> ret (a\<lparr>ad_publisher := Direct_kafka brokers, ad_uow := False, ad_close := [Close_writers]\<rparr>)
       | Some _ \<Rightarrow> ret (a\<lparr>ad_publisher := Outbox_publisher, ad_relay := Some (brokers, outboxRelayInterval V),
           ad_close := [Stop_relay, Close_sink, Close_writers, Close_repos]\<rparr>))"

text \<open>What \<open>run\<close> of cmd/inventory gives to \<open>buildAdapters\<close>.\<close>

definition inventory_adapters :: "boot_env \<Rightarrow> adapters boot" where
  "inventory_adapters V =
     (let databaseURL = os_getenv V ''DATABASE_URL'' in
      buildAdapters V databaseURL (getenv V ''MIGRATIONS_DATABASE_URL'' databaseURL)
        (getenv V ''MIGRATIONS_PATH'' ''migrations'') (getenv V ''EVENT_PUBLISHER'' ''log''))"

definition mcp_buildAdapters :: "boot_env \<Rightarrow> string \<Rightarrow> string \<Rightarrow> string \<Rightarrow> repos boot" where
  "mcp_buildAdapters V databaseURL migrationsDatabaseURL migrationsPath =
     (if databaseURL = '''' then ret Memory_repos
      else
        andthen (retried V ''run migrations'' (RunMigrations V migrationsDatabaseURL migrationsPath)) (\<lambda>_.
        andthen (NewPool V databaseURL) (\<lambda>p.
        andthen (pinged V ''ping database'' True p) (\<lambda>pool. ret (Postgres_repos pool)))))"

definition errMissingAnalyticsURL :: err where
  "errMissingAnalyticsURL = InfraErr ''ANALYTICS_DATABASE_URL is required''"

definition projector_pool :: "boot_env \<Rightarrow> pool_config boot" where
  "projector_pool V =
     (let analyticsURL = os_getenv V ''ANALYTICS_DATABASE_URL'' in
      if analyticsURL = '''' then throw errMissingAnalyticsURL
      else openAnalyticsPool V analyticsURL (getenv V ''ANALYTICS_MIGRATIONS_PATH'' ''migrations/analytics''))"

text \<open>The reports process closes its pool when it returns.\<close>

definition reports_pool :: "boot_env \<Rightarrow> pool_config boot" where
  "reports_pool V =
     (let analyticsURL = os_getenv V ''ANALYTICS_DATABASE_URL'' in
      if analyticsURL = '''' then throw errMissingAnalyticsURL
      else andthen (NewReadOnlyPool V analyticsURL) (pinged V ''ping analytics database'' True))"

section \<open>Telemetry\<close>

definition DefaultEndpoint :: string where "DefaultEndpoint = ''localhost:4317''"
definition DefaultServiceVersion :: string where "DefaultServiceVersion = ''dev''"
definition DefaultEnvironment :: string where "DefaultEnvironment = ''local''"

text \<open>\<open>strings.Contains(s, "://")\<close>.\<close>

fun has_scheme :: "string \<Rightarrow> bool" where
  "has_scheme [] = False"
| "has_scheme (c # cs) \<longleftrightarrow> take 3 (c # cs) = ''://'' \<or> has_scheme cs"

text \<open>The endpoint, and the variable of the environment when it was rewritten; \<open>None\<close> is a variable that is not set.\<close>

definition normalizeEndpoint :: "string \<Rightarrow> string option \<Rightarrow> string \<times> string option" where
  "normalizeEndpoint endpoint0 var =
     (let endpoint = (if endpoint0 = '''' then DefaultEndpoint else endpoint0) in
      if has_scheme endpoint then (endpoint, var)
      else let normalized = ''http://'' @ endpoint in
        (normalized, case var of Some raw \<Rightarrow> if has_scheme raw then var else Some normalized | None \<Rightarrow> None))"

definition environment :: "boot_env \<Rightarrow> string" where
  "environment V = (let v = os_getenv V ''ENVIRONMENT'' in if v \<noteq> '''' then v else DefaultEnvironment)"

text \<open>\<open>errors.Join\<close>, which drops nil errors.\<close>

fun join_errors :: "err option list \<Rightarrow> err option" where
  "join_errors [] = None"
| "join_errors (None # es) = join_errors es"
| "join_errors (Some e # es) = (case join_errors es of None \<Rightarrow> Some e | Some e' \<Rightarrow> Some (Joined e e'))"

text \<open>What a call answered, whichever it was.\<close>

definition answer :: "boot_env \<Rightarrow> boot_call \<Rightarrow> boot_trace \<Rightarrow> err option \<times> boot_trace" where
  "answer V c tr = (replies V tr c, tr @ [(c, replies V tr c)])"

definition newResource :: "boot_env \<Rightarrow> string \<Rightarrow> string \<Rightarrow> unit boot" where
  "newResource V serviceName serviceVersion = call V (New_resource serviceName serviceVersion (environment V))"

definition Setup :: "boot_env \<Rightarrow> string \<Rightarrow> string \<Rightarrow> string \<Rightarrow> string option \<Rightarrow> unit boot" where
  "Setup V serviceName serviceVersion0 otlpEndpoint var =
     (let serviceVersion = (if serviceVersion0 = '''' then DefaultServiceVersion else serviceVersion0);
          endpoint = fst (normalizeEndpoint otlpEndpoint var) in
      andthen (newResource V serviceName serviceVersion) (\<lambda>_.
      andthen (call V (New_trace_exporter endpoint)) (\<lambda>_ tr.
        case call V (New_metric_exporter endpoint) tr of
          (Inl e, tr1) \<Rightarrow>
            let (s, tr2) = answer V Shutdown_tracer tr1 in
            (Inl (case join_errors [Some e, s] of Some e' \<Rightarrow> e' | None \<Rightarrow> e), tr2)
        | (Inr _, tr1) \<Rightarrow>
            (case call V Start_runtime tr1 of
               (Inl e, tr2) \<Rightarrow>
                 let (s, tr3) = answer V Shutdown_meter tr2; (s', tr4) = answer V Shutdown_tracer tr3 in
                 (Inl (case join_errors [Some e, s, s'] of Some e' \<Rightarrow> e' | None \<Rightarrow> e), tr4)
             | (Inr _, tr2) \<Rightarrow> (Inr (), tr2)))))"

text \<open>The function \<open>Setup\<close> returns.\<close>

definition shutdownTelemetry :: "boot_env \<Rightarrow> boot_trace \<Rightarrow> err option \<times> boot_trace" where
  "shutdownTelemetry V tr =
     (let (s, tr1) = answer V Shutdown_tracer tr; (s', tr2) = answer V Shutdown_meter tr1 in (join_errors [s, s'], tr2))"

text \<open>The span identifiers that are stamped on a record, and the level a process logs at.\<close>

definition traceHandler_Handle ::
  "(string \<times> string) option \<Rightarrow> (string \<times> string) list \<Rightarrow> (string \<times> string) list" where
  "traceHandler_Handle sp attrs = (case sp of
     Some (trace, s) \<Rightarrow> attrs @ [(''trace_id'', trace), (''span_id'', s)] | None \<Rightarrow> attrs)"

datatype log_level = LevelDebug | LevelInfo | LevelWarn | LevelError

definition newLogger :: "string \<Rightarrow> log_level" where
  "newLogger level =
     (let l = map fold_char level in
      if l = ''debug'' then LevelDebug else if l = ''warn'' then LevelWarn
      else if l = ''error'' then LevelError else LevelInfo)"

definition an_newLogger :: "string \<Rightarrow> log_level" where
  "an_newLogger level =
     (let l = map fold_char level in
      if l = ''debug'' then LevelDebug else if l = ''warn'' \<or> l = ''warning'' then LevelWarn
      else if l = ''error'' then LevelError else LevelInfo)"

end
