(* ===== verification/BootProofs.thy ===== *)
theory BootProofs
  imports Boot
begin

text \<open>
  What a process may rely on when it has started, and what it leaves open when it has not.
\<close>

section \<open>Retried calls\<close>

text \<open>
  An operation whose every run appends a segment to the trace, of which \<open>S\<close> holds: a retry of it appends at
  most five, and when it succeeds the last of them is that of a success.
\<close>

lemma tries_segments:
  assumes "tries op k tr r tr'" "\<forall>v x v'. op v = (x, v') \<longrightarrow> (\<exists>seg. v' = v @ seg \<and> S x seg)"
  shows "\<exists>segs. tr' = tr @ concat segs \<and> length segs \<le> k \<and> (\<forall>seg \<in> set segs. \<exists>x. S x seg) \<and>
    (\<forall>a. r = Inr a \<longrightarrow> segs \<noteq> [] \<and> S (Inr a) (last segs))"
  using assms(1)
proof induction
  case (tries_last w r w' k)
  then obtain seg where "w' = w @ seg" "S r seg" using assms(2) by blast
  then show ?case by (intro exI [of _ "[seg]"]) auto
next
  case (tries_cancelled w e w' k e')
  then obtain seg where "w' = w @ seg" "S (Inl e) seg" using assms(2) by blast
  then show ?case by (intro exI [of _ "[seg]"]) auto
next
  case (tries_again w e w1 k r w')
  obtain seg where "w1 = w @ seg" "S (Inl e) seg" using assms(2) tries_again.hyps(1) by blast
  moreover obtain segs where "w' = w1 @ concat segs" "length segs \<le> k" "\<forall>seg \<in> set segs. \<exists>x. S x seg"
    "\<forall>a. r = Inr a \<longrightarrow> segs \<noteq> [] \<and> S (Inr a) (last segs)" using tries_again.IH by blast
  ultimately show ?case by (intro exI [of _ "seg # segs"]) auto
qed

lemma retried_segments:
  assumes "retried V what op tr = (r, tr')" "\<forall>v x v'. op v = (x, v') \<longrightarrow> (\<exists>seg. v' = v @ seg \<and> S x seg)"
  shows "\<exists>segs. tr' = tr @ concat segs \<and> length segs \<le> 5 \<and> (\<forall>seg \<in> set segs. \<exists>x. S x seg) \<and>
    (\<forall>a. r = Inr a \<longrightarrow> segs \<noteq> [] \<and> S (Inr a) (last segs))"
proof -
  obtain waits where "retry_from what (cancelled V) op 5 BootRetryDelay tr = ((r, tr'), waits)"
    using assms(1) by (cases "retry_from what (cancelled V) op 5 BootRetryDelay tr")
      (simp add: retried_def Retry_def RetryWithDelay_def BootRetries_def)
  from retry_from_tries [OF this] obtain r0 where "tries op 5 tr r0 tr'" "\<And>a. r = Inr a \<Longrightarrow> r0 = Inr a"
    by (cases r) auto
  with tries_segments [OF this(1) assms(2)] show ?thesis by blast
qed

lemma call_run: "call V c tr = (r, tr') \<Longrightarrow> \<exists>x. tr' = tr @ [(c, x)] \<and> (isl r \<longleftrightarrow> x \<noteq> None)"
  by (auto simp: call_def split: option.splits)

lemma call_trace: "\<exists>x. snd (call V c tr) = tr @ [(c, x)]"
  using call_run [of V c tr] by (metis surjective_pairing)

section \<open>Opening a pool\<close>

definition pools_left :: "boot_trace \<Rightarrow> int" where
  "pools_left tr = total (\<lambda>(c, x). case c of
     Open_pool _ \<Rightarrow> if x = None then 1 else 0 | Close_pool \<Rightarrow> - 1 | _ \<Rightarrow> 0) tr"

lemma pools_left_simps [simp]:
  "pools_left [] = 0" "pools_left (tr @ tr') = pools_left tr + pools_left tr'"
  "pools_left (p # tr) = pools_left [p] + pools_left tr"
  by (simp_all add: pools_left_def)

lemma pools_left_none: "(\<And>c. c \<in> fst ` set tr \<Longrightarrow> c \<noteq> Close_pool \<and> (\<forall>cfg. c \<noteq> Open_pool cfg)) \<Longrightarrow> pools_left tr = 0"
  unfolding pools_left_def by (rule total_zero) (force split: boot_call.split)

definition migration :: "string \<Rightarrow> string \<Rightarrow> err + unit \<Rightarrow> boot_trace \<Rightarrow> bool" where
  "migration url path r seg \<longleftrightarrow>
     fst ` set seg \<subseteq> {Migrate_new (''file://'' @ path) url, Migrate_up, Migrate_close} \<and>
     (\<not> isl r \<longrightarrow> (\<exists>x. (Migrate_up, x) \<in> set seg \<and> (\<forall>e. x = Some e \<longrightarrow> errors_is e ErrNoChange)))"

lemma RunMigrations_run:
  "\<forall>tr r tr'. RunMigrations V url path tr = (r, tr') \<longrightarrow> (\<exists>seg. tr' = tr @ seg \<and> migration url path r seg)"
  by (auto simp: RunMigrations_def andthen_def call_def migration_def split: prod.splits sum.splits option.splits if_splits)

lemma migrated:
  assumes "retried V what (RunMigrations V url path) tr = (r, tr')"
  shows "\<exists>ms. tr' = tr @ ms \<and> fst ` set ms \<subseteq> {Migrate_new (''file://'' @ path) url, Migrate_up, Migrate_close} \<and>
    (\<not> isl r \<longrightarrow> (\<exists>x. (Migrate_up, x) \<in> set ms \<and> (\<forall>e. x = Some e \<longrightarrow> errors_is e ErrNoChange)))"
proof -
  obtain segs where s: "tr' = tr @ concat segs" "\<forall>seg \<in> set segs. \<exists>x. migration url path x seg"
    "\<forall>a. r = Inr a \<longrightarrow> segs \<noteq> [] \<and> migration url path (Inr a) (last segs)"
    using retried_segments [where S = "migration url path", OF assms RunMigrations_run] by blast
  have "fst ` set (concat segs) \<subseteq> {Migrate_new (''file://'' @ path) url, Migrate_up, Migrate_close}"
    using s(2) by (fastforce simp: migration_def)
  moreover have "\<exists>x. (Migrate_up, x) \<in> set (concat segs) \<and> (\<forall>e. x = Some e \<longrightarrow> errors_is e ErrNoChange)" if ok: "\<not> isl r"
  proof -
    obtain a where "r = Inr a" using ok by (cases r) auto
    with s(3) have "last segs \<in> set segs" "migration url path (Inr a) (last segs)" by simp_all
    then show ?thesis unfolding migration_def by auto
  qed
  ultimately show ?thesis using s(1) by blast
qed

definition ping :: "err + unit \<Rightarrow> boot_trace \<Rightarrow> bool" where
  "ping r seg \<longleftrightarrow> (\<exists>x. seg = [(Ping, x)] \<and> (isl r \<longleftrightarrow> x \<noteq> None))"

lemma ping_run: "\<forall>v x v'. call V Ping v = (x, v') \<longrightarrow> (\<exists>seg. v' = v @ seg \<and> ping x seg)"
  by (auto simp: call_def ping_def split: option.splits)

lemma ping_answered:
  assumes "retried V what (call V Ping) tr = (r, tr')"
  shows "\<exists>ps. tr' = tr @ ps \<and> length ps \<le> 5 \<and> fst ` set ps \<subseteq> {Ping} \<and> (\<not> isl r \<longrightarrow> ps \<noteq> [] \<and> last ps = (Ping, None))"
proof -
  obtain segs where s: "tr' = tr @ concat segs" "length segs \<le> 5" "\<forall>seg \<in> set segs. \<exists>x. ping x seg"
    "\<forall>a. r = Inr a \<longrightarrow> segs \<noteq> [] \<and> ping (Inr a) (last segs)"
    using retried_segments [where S = ping, OF assms ping_run] by blast
  have len: "length (concat segs) = length segs" using s(3) by (induction segs) (auto simp: ping_def)
  have pings: "fst ` set (concat segs) \<subseteq> {Ping}" using s(3) by (fastforce simp: ping_def)
  have "concat segs \<noteq> [] \<and> last (concat segs) = (Ping, None)" if ok: "\<not> isl r"
  proof -
    obtain a where "r = Inr a" using ok by (cases r) auto
    with s(4) have l: "segs \<noteq> []" "last segs = [(Ping, None)]" by (auto simp: ping_def)
    then have "concat segs = concat (butlast segs) @ [(Ping, None)]"
      by (metis append_butlast_last_id append_Nil2 concat.simps concat_append)
    then show ?thesis by simp
  qed
  then show ?thesis using s(1,2) len pings by (intro exI [of _ "concat segs"]) simp
qed

text \<open>The pool of the service, and what was called to get it.\<close>

definition service_pool :: "string \<Rightarrow> pool_config" where
  "service_pool url = \<lparr>pc_url = url, pc_maxConns = 10, pc_statementTimeout = ''5s'', pc_readOnly = False\<rparr>"

lemma pool_trace:
  assumes "openPostgresPool V url direct path tr = (r, tr')"
  shows "\<exists>new. tr' = tr @ new \<and>
    (case r of
       Inl _ \<Rightarrow> pools_left new = 0
     | Inr pool \<Rightarrow> pool = service_pool url \<and>
         (\<exists>ms ps. new = ms @ (Open_pool pool, None) # ps \<and>
            fst ` set ms \<subseteq> {Migrate_new (''file://'' @ path) direct, Migrate_up, Migrate_close} \<and>
            (\<exists>x. (Migrate_up, x) \<in> set ms \<and> (\<forall>e. x = Some e \<longrightarrow> errors_is e ErrNoChange)) \<and>
            length ps \<le> 5 \<and> fst ` set ps \<subseteq> {Ping} \<and> ps \<noteq> [] \<and> last ps = (Ping, None)))"
proof -
  obtain r1 tr1 where m: "retried V ''run migrations'' (RunMigrations V direct path) tr = (r1, tr1)" by force
  obtain ms where ms: "tr1 = tr @ ms" "fst ` set ms \<subseteq> {Migrate_new (''file://'' @ path) direct, Migrate_up, Migrate_close}"
    "\<not> isl r1 \<longrightarrow> (\<exists>x. (Migrate_up, x) \<in> set ms \<and> (\<forall>e. x = Some e \<longrightarrow> errors_is e ErrNoChange))"
    using migrated [OF m] by blast
  have none: "pools_left ms = 0" by (rule pools_left_none) (use ms(2) in auto)
  have P: "NewPool V url = open_pool V (service_pool url)"
    by (simp add: NewPool_def NewPoolWithLimits_def MaxConns_def StatementTimeout_def service_pool_def)
  show ?thesis
  proof (cases "isl r1 \<or> parse_url V url \<noteq> None \<or> replies V tr1 (Open_pool (service_pool url)) \<noteq> None")
    case True
    then have "isl r \<and> (tr' = tr1 \<or> (\<exists>e. tr' = tr1 @ [(Open_pool (service_pool url), Some e)]))"
      using assms m
      by (auto simp: openPostgresPool_def P open_pool_def service_pool_def andthen_def call_def throw_def
          split: sum.splits option.splits)
    then show ?thesis using ms(1) none by (auto simp: pools_left_def split: sum.split)
  next
    case False
    let ?tr2 = "tr1 @ [(Open_pool (service_pool url), None)]"
    have p: "pinged V ''ping database'' True (service_pool url) ?tr2 = (r, tr')"
      using False assms m
      by (auto simp: openPostgresPool_def P open_pool_def service_pool_def andthen_def call_def ret_def
          split: sum.splits option.splits)
    obtain r2 tr3 where q: "retried V ''ping database'' (call V Ping) ?tr2 = (r2, tr3)" by force
    obtain ps where ps: "tr3 = ?tr2 @ ps" "length ps \<le> 5" "fst ` set ps \<subseteq> {Ping}"
      "\<not> isl r2 \<longrightarrow> ps \<noteq> [] \<and> last ps = (Ping, None)" using ping_answered [OF q] by blast
    have "pools_left ps = 0" by (rule pools_left_none) (use ps(3) in auto)
    then show ?thesis
    proof (cases r2)
      case (Inl e)
      obtain x where "tr' = tr3 @ [(Close_pool, x)]" "isl r"
        using p q Inl call_trace [of V Close_pool tr3] by (auto simp: pinged_def)
      then show ?thesis using ms(1) ps(1) none \<open>pools_left ps = 0\<close> by (auto simp: pools_left_def split: sum.split)
    next
      case (Inr u)
      then have "r = Inr (service_pool url)" "tr' = tr3" using p q by (auto simp: pinged_def)
      then show ?thesis
        using ms ps False Inr
        by (intro exI [of _ "ms @ (Open_pool (service_pool url), None) # ps"]) (simp, intro exI [of _ ms] exI [of _ ps], simp)
    qed
  qed
qed

text \<open>
  C32. When the service has its pool, the migrations were applied, over the direct connection and nothing else,
  before the pool was opened over the pooled one, with its limits; then nothing but pings was sent, at most
  five, the last of which was answered. When it has no pool, none was left open.
\<close>

theorem pool_opened_or_none_left:
  assumes "openPostgresPool V url direct path tr = (r, tr')"
  shows "\<exists>new. tr' = tr @ new \<and>
    (case r of
       Inl _ \<Rightarrow> pools_left new = 0
     | Inr pool \<Rightarrow> pool = service_pool url \<and>
         (\<exists>ms ps. new = ms @ (Open_pool pool, None) # ps \<and>
            fst ` set ms \<subseteq> {Migrate_new (''file://'' @ path) direct, Migrate_up, Migrate_close} \<and>
            (\<exists>x. (Migrate_up, x) \<in> set ms \<and> (\<forall>e. x = Some e \<longrightarrow> errors_is e ErrNoChange)) \<and>
            length ps \<le> 5 \<and> fst ` set ps \<subseteq> {Ping} \<and> ps \<noteq> [] \<and> last ps = (Ping, None)))"
  using pool_trace [OF assms] .

text \<open>A database whose first dial is reset: no reply to the first migration and to the first ping.\<close>

definition demo_boot :: "string \<Rightarrow> boot_env" where
  "demo_boot publisher =
     \<lparr>os_getenv = (\<lambda>key. if key = ''DATABASE_URL'' then ''db'' else if key = ''MIGRATIONS_DATABASE_URL'' then ''direct''
        else if key = ''EVENT_PUBLISHER'' then publisher else ''''),
      replies = (\<lambda>tr c. if (c = Ping \<or> c = Migrate_new ''file://migrations'' ''direct'') \<and> c \<notin> fst ` set tr
        then Some (InfraErr ''connection reset'') else None),
      cancelled = (\<lambda>_. None), parse_url = (\<lambda>_. None), parse_duration = (\<lambda>_. Inr 1000000000)\<rparr>"

lemma pool_opened_or_none_left_witness:
  "\<exists>ms ps. snd (openPostgresPool (demo_boot ''log'') ''db'' ''direct'' ''migrations'' []) =
     ms @ (Open_pool (service_pool ''db''), None) # ps \<and> Migrate_up \<in> fst ` set ms \<and> last ps = (Ping, None)"
proof -
  have "case fst (openPostgresPool (demo_boot ''log'') ''db'' ''direct'' ''migrations'' []) of
      Inl _ \<Rightarrow> False | Inr pool \<Rightarrow> pool = service_pool ''db''" by code_simp
  then have "openPostgresPool (demo_boot ''log'') ''db'' ''direct'' ''migrations'' [] =
      (Inr (service_pool ''db''), snd (openPostgresPool (demo_boot ''log'') ''db'' ''direct'' ''migrations'' []))"
    by (cases "openPostgresPool (demo_boot ''log'') ''db'' ''direct'' ''migrations'' []") (auto split: sum.splits)
  from pool_opened_or_none_left [OF this] show ?thesis by (force simp: image_iff)
qed

end
