(* ===== verification/Publishers.thy ===== *)
theory Publishers
  imports OutboxRelay FacilityCache
begin

text \<open>
  The event publishers that write to Kafka, or to a log, without the outbox: \<open>Publish\<close> of the two Kafka
  publishers (internal/adapters/outbound/kafka), the publishers of internal/adapters/outbound/events that
  combine, log or buffer, and the carriers that put trace headers on a message and read them back.
\<close>

section \<open>The Kafka publishers\<close>

text \<open>\<open>WriteMessages\<close> of a writer that has a topic of its own.\<close>

type_synonym 'w writer = "string \<times> string \<times> (string \<times> string) list \<Rightarrow> ('w, err, unit) prog"

definition Publisher_Publish ::
  "sdk \<Rightarrow> 'w publisher_deps \<Rightarrow> 'w writer \<Rightarrow> domain_event \<Rightarrow> ('w, err, unit) prog" where
  "Publisher_Publish K D write event =
     (if \<not> isIntegrationEvent event then ret ()
      else andthen (Publisher_Encode K D event)
        (each (\<lambda>m. write (e_key m, e_value m, e_headers m))))"

definition Analytics_Publish ::
  "sdk \<Rightarrow> 'w publisher_deps \<Rightarrow> 'w publisher_deps option \<Rightarrow> 'w writer \<Rightarrow> domain_event \<Rightarrow> ('w, err, unit) prog" where
  "Analytics_Publish K D R write event =
     andthen (Analytics_Encode K D R event)
       (each (\<lambda>m. maperr (Wrapped (''kafka: publish '' @ e_eventType m @ '' analytics event''))
          (write (e_key m, e_value m, e_headers m))))"

section \<open>The publishers of the events package\<close>

text \<open>A nil publisher is skipped.\<close>

definition MultiPublisher_Publish ::
  "(domain_event \<Rightarrow> ('w, err, unit) prog) option list \<Rightarrow> domain_event \<Rightarrow> ('w, err, unit) prog" where
  "MultiPublisher_Publish publishers event =
     each (\<lambda>p. case p of None \<Rightarrow> ret () | Some publish \<Rightarrow> publish event) publishers"

definition LogPublisher_Publish ::
  "(domain_event \<Rightarrow> string result) \<Rightarrow> (string \<Rightarrow> string \<Rightarrow> 'w \<Rightarrow> 'w) \<Rightarrow> domain_event \<Rightarrow> ('w, err, unit) prog" where
  "LogPublisher_Publish marshal info event =
     andthen (lift (marshal event)) (\<lambda>payload w. (Inr (), info (EventName event) payload w))"

definition BufferedPublisher_Publish :: "domain_event \<Rightarrow> (domain_event list, err, unit) prog" where
  "BufferedPublisher_Publish event evs = (Inr (), evs @ [event])"

definition BufferedPublisher_Events :: "domain_event list \<Rightarrow> domain_event list" where
  "BufferedPublisher_Events evs = map (\<lambda>e. e) evs"

section \<open>Trace headers\<close>

fun headerCarrier_Get :: "string \<Rightarrow> (string \<times> string) list \<Rightarrow> string" where
  "headerCarrier_Get key [] = ''''"
| "headerCarrier_Get key ((k, v) # hs) = (if k = key then v else headerCarrier_Get key hs)"

fun headerCarrier_Set :: "string \<Rightarrow> string \<Rightarrow> (string \<times> string) list \<Rightarrow> (string \<times> string) list" where
  "headerCarrier_Set key v [] = [(key, v)]"
| "headerCarrier_Set key v ((k, u) # hs) = (if k = key then (k, v) # hs else (k, u) # headerCarrier_Set key v hs)"

definition headerCarrier_Keys :: "(string \<times> string) list \<Rightarrow> string list" where
  "headerCarrier_Keys hs = map fst hs"

text \<open>The consumer's carrier, which only reads.\<close>

definition consumer_Get :: "string \<Rightarrow> (string \<times> string) list \<Rightarrow> string" where
  "consumer_Get key hs = (case List.find (\<lambda>h. fst h = key) hs of None \<Rightarrow> '''' | Some h \<Rightarrow> snd h)"

definition consumer_Set :: "string \<Rightarrow> string \<Rightarrow> (string \<times> string) list \<Rightarrow> (string \<times> string) list" where
  "consumer_Set key v hs = hs"

lemma consumer_reads: "consumer_Get key hs = headerCarrier_Get key hs"
  by (induction hs) (auto simp: consumer_Get_def)

lemma set_get: "headerCarrier_Get k (headerCarrier_Set key v hs) = (if k = key then v else headerCarrier_Get k hs)"
  by (induction hs) auto

lemma set_keys: "headerCarrier_Keys (headerCarrier_Set key v hs) =
    headerCarrier_Keys hs @ (if key \<in> set (headerCarrier_Keys hs) then [] else [key])"
  by (induction hs) (auto simp: headerCarrier_Keys_def image_iff split: if_splits)

section \<open>The log line of a request\<close>

definition sanitizeForLog :: "string \<Rightarrow> string" where
  "sanitizeForLog s = filter (\<lambda>c. c \<noteq> char_of (10 :: nat) \<and> c \<noteq> char_of (13 :: nat)) s"

section \<open>Trace headers across the broker\<close>

text \<open>What a propagator sets on a message that starts with the content type.\<close>

definition injected :: "(string \<times> string) list \<Rightarrow> (string \<times> string) list" where
  "injected tr = foldl (\<lambda>hs (k, v). headerCarrier_Set k v hs) [ContentTypeHeader] tr"

lemma injected_snoc: "injected (tr @ [(k, v)]) = headerCarrier_Set k v (injected tr)"
  by (simp add: injected_def)

text \<open>
  Trace headers survive the broker: whatever fields a propagator sets on a message, in whatever order and
  however often, the consumer reads of every field the last value that was set, and no header is on the
  message twice; a field that was never set, the content type apart, reads as empty.
\<close>

theorem trace_headers_carried:
  "consumer_Get key (injected tr) =
     (case map_of (rev tr) key of Some v \<Rightarrow> v
      | None \<Rightarrow> if key = fst ContentTypeHeader then snd ContentTypeHeader else '''') \<and>
   distinct (headerCarrier_Keys (injected tr))"
proof (induction tr rule: rev_induct)
  case Nil
  show ?case by (simp add: injected_def consumer_Get_def headerCarrier_Keys_def split_beta)
next
  case (snoc f tr)
  then show ?case
    by (cases f) (auto simp: injected_snoc consumer_reads set_get set_keys)
qed

end
