(* ===== verification/Deployment.thy ===== *)
theory Deployment
  imports BootProofs Publishers Preserves Demo
begin

text \<open>
  The service as cmd/inventory deploys it: the ports that the adapters of \<open>buildAdapters\<close> give to the use
  cases, and a second implementation of the contract of the ports, the one in which events are only logged.
\<close>

section \<open>The ports of a deployment\<close>

text \<open>
  \<open>marshal\<close> is how the log publisher encodes an event, and the two writers are those of the topics when events go
  to Kafka directly.
\<close>

definition publisher_of ::
  "pg_env \<Rightarrow> (domain_event \<Rightarrow> string result) \<Rightarrow> pg_world writer \<Rightarrow> pg_world writer \<Rightarrow> event_publisher \<Rightarrow>
   domain_event \<Rightarrow> (pg_world, err, unit) prog" where
  "publisher_of E marshal integration analytics p = (case p of
     Log_publisher \<Rightarrow> LogPublisher_Publish marshal (\<lambda>name payload w. w)
   | Direct_kafka _ \<Rightarrow> MultiPublisher_Publish [Some (Publisher_Publish (events_sdk E) (pg_deps E) integration),
       Some (Analytics_Publish (events_sdk E) (pg_deps E) (Some (pg_deps E)) analytics)]
   | Outbox_publisher \<Rightarrow> OutboxPublisher_Publish E (pg_encoders E))"

definition deployed_ports ::
  "pg_env \<Rightarrow> (domain_event \<Rightarrow> string result) \<Rightarrow> pg_world writer \<Rightarrow> pg_world writer \<Rightarrow> adapters \<Rightarrow> int \<Rightarrow> pg_world ports" where
  "deployed_ports E marshal integration analytics a timeout =
     (pg_ports E timeout)\<lparr>p_publish := publisher_of E marshal integration analytics (ad_publisher a),
       p_uow := (if ad_uow a then Some (UnitOfWork_Execute E) else None)\<rparr>"

section \<open>The contract of the ports, with a log for a publisher\<close>

text \<open>The view of a world whose outbox is \<open>ob\<close>, and of no other.\<close>

definition logged_view :: "outbox_row list \<Rightarrow> pg_env \<Rightarrow> pg_world \<Rightarrow> encoded snapshot option" where
  "logged_view ob E w = (if outbox w = ob then pg_view E w else None)"

definition logged_failed :: "outbox_row list \<Rightarrow> pg_env \<Rightarrow> encoded snapshot \<Rightarrow> pg_world \<Rightarrow> bool" where
  "logged_failed ob E s w \<longleftrightarrow>
     (\<exists>s'. logged_view ob E w = Some s' \<and> intx s' = intx s \<and> (intx s \<or> inv s' = inv s))"

definition log_ports :: "pg_env \<Rightarrow> (domain_event \<Rightarrow> string result) \<Rightarrow> int \<Rightarrow> pg_world ports" where
  "log_ports E marshal timeout =
     (pg_ports E timeout)\<lparr>p_publish := LogPublisher_Publish marshal (\<lambda>name payload w. w)\<rparr>"

lemma logged_Some: "logged_view ob E w = Some s \<longleftrightarrow> outbox w = ob \<and> pg_view E w = Some s"
  by (simp add: logged_view_def)

lemma logged_failed_eq: "logged_failed ob E s = (\<lambda>w. outbox w = ob \<and> pg_failed E s w)"
  by (rule ext) (auto simp: logged_failed_def pg_failed_def logged_Some)

text \<open>A port that leaves the outbox alone keeps its contract in the smaller view.\<close>

lemma logged:
  assumes "triple (\<lambda>w. pg_view E w = Some s) m Q Er" "preserves same_outbox m"
  shows "triple (\<lambda>w. outbox w = ob \<and> pg_view E w = Some s) m (\<lambda>x w. outbox w = ob \<and> Q x w) (\<lambda>e w. outbox w = ob \<and> Er e w)"
proof (rule tripleI)
  fix w x w' assume a: "outbox w = ob \<and> pg_view E w = Some s" "m w = (Inr x, w')"
  then show "outbox w' = ob \<and> Q x w'"
    using tripleR [OF assms(1) _ a(2)] preservesD [OF assms(2) a(2)]
    by (simp add: logged_Some same_outbox_def stored_part_def)
next
  fix w e w' assume a: "outbox w = ob \<and> pg_view E w = Some s" "m w = (Inl e, w')"
  then show "outbox w' = ob \<and> Er e w'"
    using tripleL [OF assms(1) _ a(2)] preservesD [OF assms(2) a(2)]
    by (simp add: logged_Some same_outbox_def stored_part_def)
qed

lemma logged_publish:
  "triple (\<lambda>w. logged_view ob E w = Some s) (LogPublisher_Publish marshal (\<lambda>name payload w. w) e)
     (\<lambda>_ w. logged_view ob E w = Some s) (\<lambda>_. logged_failed ob E s)"
proof (rule tripleI)
  fix w x w' assume "logged_view ob E w = Some s" "LogPublisher_Publish marshal (\<lambda>name payload w. w) e w = (Inr x, w')"
  then show "logged_view ob E w' = Some s"
    by (auto simp: LogPublisher_Publish_def andthen_def lift_def split: sum.splits)
next
  fix w er w' assume "logged_view ob E w = Some s" "LogPublisher_Publish marshal (\<lambda>name payload w. w) e w = (Inl er, w')"
  then show "logged_failed ob E s w'"
    by (auto simp: LogPublisher_Publish_def andthen_def lift_def logged_failed_def split: sum.splits)
qed

lemma outbox_of: "stored_part w' = stored_part w \<Longrightarrow> outbox w' = outbox w"
  by (simp add: stored_part_def)

lemma logged_commits:
  assumes "\<not> intx s"
    and f: "triple (\<lambda>w. logged_view ob E w = Some (s\<lparr>intx := True\<rparr>)) f
        (\<lambda>a w. \<exists>s'. R a s' \<and> intx s' \<and> logged_view ob E w = Some s') (\<lambda>_ w. \<exists>s'. logged_view ob E w = Some s' \<and> intx s')"
  shows "triple (\<lambda>w. logged_view ob E w = Some s) (UnitOfWork_Execute E f)
        (\<lambda>a w. \<exists>s'. R a s' \<and> intx s' \<and> logged_view ob E w = Some (s'\<lparr>intx := False\<rparr>))
        (\<lambda>_ w. logged_view ob E w = Some s)"
proof (rule tripleI, goal_cases)
  case (1 w a w')
  then have out: "\<not> in_tx w" using assms(1) by (simp add: logged_Some pg_view_Some)
  obtain u w1 w2 u' where b: "begin_tx E w = (Inr u, w1)" and fw: "f w1 = (Inr a, w2)"
      and c: "commit_tx E w w2 = (Inr u', w')"
    using 1(2) out unfolding UnitOfWork_Execute_def by (auto split: prod.splits sum.splits)
  have "logged_view ob E w1 = Some (s\<lparr>intx := True\<rparr>)"
    using 1(1) begin_view [OF b] outbox_of [OF quiet.begun [OF b]] by (simp add: logged_Some)
  from tripleR [OF f this fw] obtain s' where s': "R a s'" "intx s'" "logged_view ob E w2 = Some s'" by blast
  moreover have "outbox w' = outbox w2" using c by (auto simp: commit_tx_def next_tick_def split: if_splits)
  ultimately show ?case using commit_view [OF c] by (auto simp: logged_Some)
next
  case (2 w e w')
  then have out: "\<not> in_tx w" "outbox w = ob" "pg_view E w = Some s" using assms(1) by (simp_all add: logged_Some pg_view_Some)
  have rolled: "logged_view ob E (rolled_back w w2) = Some s" for w2
    using out(2) rolled_back_Some [OF out(3) assms(1)] by (simp add: logged_Some rolled_back_def)
  have begun: "logged_view ob E w1 = Some s" if "begin_tx E w = (Inl e1, w1)" for e1 w1
    using begin_failed [OF that] out outbox_of [OF quiet.begun [OF that]] by (simp add: logged_Some)
  have committed: "logged_view ob E w3 = Some s" if "commit_tx E w w2 = (Inl e1, w3)" for e1 w2 w3
    using that rolled by (auto simp: commit_tx_def split: if_splits)
  show ?case
    using 2(2) out(1) rolled begun committed unfolding UnitOfWork_Execute_def
    by (auto split: prod.splits sum.splits)
qed

lemma quiet_more_repos:
  "preserves same_outbox (LocationRepo_Save E b)" "preserves same_outbox (LocationRepo_FindByID E i)"
  "preserves same_outbox (ClassificationRepo_Save E c)" "preserves same_outbox (ClassificationRepo_FindBySKU E k)"
  unfolding LocationRepo_Save_def LocationRepo_FindByID_def ClassificationRepo_Save_def ClassificationRepo_FindBySKU_def
  by (rule quiet.statement; simp add: preserves_def same_outbox_def reject_def stored_part_def split: option.split)+

lemma quiet_ids:
  "preserves same_outbox (StockRepo_NextID E)" "preserves same_outbox (ReservationRepo_NextID E)"
  "preserves same_outbox (\<lambda>w. (slots E (tick w) b, next_tick w))"
  by (simp_all add: preserves_def same_outbox_def StockRepo_NextID_def ReservationRepo_NextID_def)

lemma quiet_load_all: "preserves same_outbox (load_all E rows)"
  by (induction rows) (auto intro!: quiet_rules)

lemma quiet_by_demand: "preserves same_outbox (ReservationRepo_FindByDemandRef E ref)"
  unfolding ReservationRepo_FindByDemandRef_def
  by (intro quiet_rules quiet_load_all quiet.statement) (simp add: preserves_def)

lemmas logged_ports =
  logged [OF pg_stock_save quiet_repos(1)] logged [OF pg_stock_find quiet_repos(2)]
  logged [OF pg_stock_find_sku quiet_repos(3)] logged [OF pg_stock_find_bin quiet_repos(4)]
  logged [OF pg_stock_next quiet_ids(1)] logged [OF pg_loc_save quiet_more_repos(1)]
  logged [OF pg_loc_find quiet_more_repos(2)] logged [OF pg_res_save quiet_res_repo(1)]
  logged [OF pg_res_find quiet_res_repo(2)] logged [OF pg_res_find_demand quiet_by_demand]
  logged [OF pg_res_next quiet_ids(2)] logged [OF pg_class_find quiet_more_repos(4)]
  logged [OF pg_class_save quiet_more_repos(3)] logged [OF pg_lookup quiet_ids(3)]

lemma outbox_next [simp]: "outbox (next_tick w) = outbox w"
  by (simp add: next_tick_def)

interpretation lg: inventory_ports "log_ports E marshal timeout" "logged_view ob E" "\<lambda>_ _ ms. ms = []" "pg_slot E"
  "logged_failed ob E" "UnitOfWork_Execute E" for E marshal timeout ob
proof (unfold_locales, goal_cases)
  case (1 s w)
  show ?case by (rule logged_failed_def)
next
  case (2 w s)
  then show ?case by (simp add: logged_Some pg_view_Some)
next
  case (14 s e)
  show ?case by (simp add: log_ports_def, rule logged_publish)
next
  case (22 s f R)
  then show ?case by (rule logged_commits)
qed (auto simp: log_ports_def pg_ports_def logged_Some logged_failed_eq logged_ports pg_joins pg_view_frame
    simp del: mset_filter)

section \<open>Every deployment over Postgres\<close>

lemma lg_sound: "lg.sound (outbox w0) E w \<longleftrightarrow> at_rest E w \<and> outbox w = outbox w0"
  by (auto simp: lg.sound_def logged_Some at_rest_def pg_view_Some books_ok_schema outbox_log_def intro!: exI [of _ "snap w"])

lemma log_reach: "reach (log_ports E marshal timeout) w w' \<Longrightarrow> at_rest E w \<Longrightarrow> at_rest E w' \<and> outbox w' = outbox w"
  using lg.reach_sound [of E marshal timeout w w' "outbox w"] by (simp add: lg_sound)

lemma opened_pool: "openPostgresPool V url direct path tr = (Inr pool, tr') \<Longrightarrow> pool = service_pool url"
  by (auto simp: openPostgresPool_def NewPool_def NewPoolWithLimits_def open_pool_def pinged_def service_pool_def
      MaxConns_def StatementTimeout_def andthen_def ret_def throw_def split: prod.splits sum.splits option.splits)

lemma chosen_adapters:
  assumes "inventory_adapters V tr = (Inr a, tr')" "os_getenv V ''DATABASE_URL'' \<noteq> ''''"
  shows "ad_repos a = Postgres_repos (service_pool (os_getenv V ''DATABASE_URL'')) \<and> ad_uow a \<and>
    (ad_publisher a = Log_publisher \<and> ad_relay a = None \<or> ad_publisher a = Outbox_publisher \<and> ad_relay a \<noteq> None) \<and>
    last (ad_close a) = Close_repos \<and> (ad_relay a \<noteq> None \<longrightarrow> hd (ad_close a) = Stop_relay)"
proof -
  obtain pool tr1 where p: "openPostgresPool V (os_getenv V ''DATABASE_URL'')
      (getenv V ''MIGRATIONS_DATABASE_URL'' (os_getenv V ''DATABASE_URL'')) (getenv V ''MIGRATIONS_PATH'' ''migrations'') tr = (Inr pool, tr1)"
    using assms by (auto simp: inventory_adapters_def buildAdapters_def andthen_def Let_def split: prod.splits sum.splits)
  with assms opened_pool [OF p] show ?thesis
    by (auto simp: inventory_adapters_def buildAdapters_def postgresAdapters_def andthen_def ret_def Let_def split: if_splits)
qed

text \<open>
  C14. Whichever way the service is deployed over Postgres, its books balance after any sequence of use cases,
  whatever fails; and when no outbox relay was started, which is when events are only logged, no use case ever
  enqueues an event that nobody would send. On closing, the relay is stopped first and the pool closed last.
\<close>

theorem deployment_keeps_books:
  assumes "at_rest E w" "os_getenv V ''DATABASE_URL'' \<noteq> ''''" "inventory_adapters V tr = (Inr a, tr')"
    and "reach (deployed_ports E marshal integration analytics a timeout) w w'"
  shows "at_rest E w' \<and> (ad_relay a = None \<longrightarrow> outbox w' = outbox w) \<and>
    ad_repos a = Postgres_repos (service_pool (os_getenv V ''DATABASE_URL'')) \<and>
    last (ad_close a) = Close_repos \<and> (ad_relay a \<noteq> None \<longrightarrow> hd (ad_close a) = Stop_relay)"
proof -
  note c = chosen_adapters [OF assms(3,2)]
  have "deployed_ports E marshal integration analytics a timeout =
      (if ad_relay a = None then log_ports E marshal timeout else pg_ports E timeout)"
    using c by (auto simp: deployed_ports_def log_ports_def publisher_of_def pg_ports_def)
  then show ?thesis using c assms(1,4) log_reach reach_at_rest by (auto split: if_splits)
qed

lemma deployment_keeps_books_witness:
  "outbox (snd (run_command (deployed_ports demo_env (\<lambda>_. Inr '''') (\<lambda>_. ret ()) (\<lambda>_. ret ()) (postgresAdapters (service_pool ''db'')) 0)
     (Stow ''S'' 5 ''A'') demo_bins)) = outbox demo_bins"
proof -
  let ?a = "postgresAdapters (service_pool ''db'')"
  let ?P = "deployed_ports demo_env (\<lambda>_. Inr '''') (\<lambda>_. ret ()) (\<lambda>_. ret ()) ?a 0"
  have "fst (inventory_adapters (demo_boot ''log'') []) = Inr ?a" by code_simp
  from run_split [where m = "inventory_adapters (demo_boot ''log'')", OF this] obtain tr' where
    b: "inventory_adapters (demo_boot ''log'') [] = (Inr ?a, tr')" by blast
  have "reach ?P demo_bins (snd (run_command ?P (Stow ''S'' 5 ''A'') demo_bins))"
    by (rule reach_step [OF reach_init]) simp
  from deployment_keeps_books [OF demo_rests(1) _ b this] show ?thesis
    by (simp add: demo_boot_def postgresAdapters_def)
qed

end
