(* ===== verification/Memory.thy ===== *)
theory Memory
  imports CloudEvents Ports
begin

text \<open>
  internal/adapters/outbound/memory: the repositories of a deployment without a database. They keep pointers to
  the objects that the use cases hold, so the objects live in a heap: a pointer is an index into \<open>heap\<close>, and
  \<open>assign\<close> is what a method with a pointer receiver does to the object. The locks are left out, and the order
  in which Go iterates over a map is the parameter \<open>scan\<close>.
\<close>

section \<open>A map of pointers\<close>

record 'o mem_repo =
  heap :: "'o list"
  entries :: "(string \<times> nat) list"
  nextID :: int

definition new_repo :: "'o mem_repo" where "new_repo = \<lparr>heap = [], entries = [], nextID = 0\<rparr>"

definition allocate_object :: "'o \<Rightarrow> 'o mem_repo \<Rightarrow> nat \<times> 'o mem_repo" where
  "allocate_object x m = (length (heap m), m\<lparr>heap := heap m @ [x]\<rparr>)"

definition assign :: "nat \<Rightarrow> 'o \<Rightarrow> 'o mem_repo \<Rightarrow> 'o mem_repo" where
  "assign p x m = m\<lparr>heap := (heap m)[p := x]\<rparr>"

fun put_entry :: "string \<Rightarrow> nat \<Rightarrow> (string \<times> nat) list \<Rightarrow> (string \<times> nat) list" where
  "put_entry k p [] = [(k, p)]"
| "put_entry k p ((k', p') # es) = (if k = k' then (k, p) # es else (k', p') # put_entry k p es)"

definition save_pointer :: "('o \<Rightarrow> string) \<Rightarrow> nat \<Rightarrow> 'o mem_repo \<Rightarrow> 'o mem_repo" where
  "save_pointer key p m = m\<lparr>entries := put_entry (key (heap m ! p)) p (entries m)\<rparr>"

definition find_pointer :: "string \<Rightarrow> 'o mem_repo \<Rightarrow> nat option" where
  "find_pointer k m = map_of (entries m) k"

definition select_pointers ::
  "(nat list \<Rightarrow> nat list) \<Rightarrow> ('o \<Rightarrow> bool) \<Rightarrow> 'o mem_repo \<Rightarrow> nat list" where
  "select_pointers scan p m = filter (\<lambda>i. p (heap m ! i)) (scan (map snd (entries m)))"

definition next_id :: "string \<Rightarrow> 'o mem_repo \<Rightarrow> string \<times> 'o mem_repo" where
  "next_id prefix m = (let n = wrap64 (nextID m + 1) in (prefix @ itoa n, m\<lparr>nextID := n\<rparr>))"

section \<open>The repositories\<close>

definition NewStockRepo :: "stock_unit mem_repo" where "NewStockRepo = new_repo"
definition mem_StockRepo_Save :: "nat \<Rightarrow> stock_unit mem_repo \<Rightarrow> stock_unit mem_repo" where
  "mem_StockRepo_Save = save_pointer u_id"
definition mem_StockRepo_FindByID :: "string \<Rightarrow> stock_unit mem_repo \<Rightarrow> nat option" where
  "mem_StockRepo_FindByID = find_pointer"
definition mem_StockRepo_FindBySKU :: "(nat list \<Rightarrow> nat list) \<Rightarrow> sku \<Rightarrow> stock_unit mem_repo \<Rightarrow> nat list" where
  "mem_StockRepo_FindBySKU scan sk = select_pointers scan (\<lambda>u. u_sku u = sk)"
definition mem_StockRepo_FindByBin :: "(nat list \<Rightarrow> nat list) \<Rightarrow> bin_id \<Rightarrow> stock_unit mem_repo \<Rightarrow> nat list" where
  "mem_StockRepo_FindByBin scan b = select_pointers scan (\<lambda>u. u_bin u = b)"
definition mem_StockRepo_NextID :: "stock_unit mem_repo \<Rightarrow> string \<times> stock_unit mem_repo" where
  "mem_StockRepo_NextID = next_id ''su-''"

definition NewLocationRepo :: "bin mem_repo" where "NewLocationRepo = new_repo"
definition mem_LocationRepo_Save :: "nat \<Rightarrow> bin mem_repo \<Rightarrow> bin mem_repo" where
  "mem_LocationRepo_Save = save_pointer b_id"
definition mem_LocationRepo_FindByID :: "bin_id \<Rightarrow> bin mem_repo \<Rightarrow> nat option" where
  "mem_LocationRepo_FindByID = find_pointer"

definition NewReservationRepo :: "reservation mem_repo" where "NewReservationRepo = new_repo"
definition mem_ReservationRepo_Save :: "nat \<Rightarrow> reservation mem_repo \<Rightarrow> reservation mem_repo" where
  "mem_ReservationRepo_Save = save_pointer r_id"
definition mem_ReservationRepo_FindByID :: "string \<Rightarrow> reservation mem_repo \<Rightarrow> nat option" where
  "mem_ReservationRepo_FindByID = find_pointer"
definition mem_ReservationRepo_FindByDemandRef ::
  "(nat list \<Rightarrow> nat list) \<Rightarrow> string \<Rightarrow> reservation mem_repo \<Rightarrow> nat list" where
  "mem_ReservationRepo_FindByDemandRef scan ref = select_pointers scan (\<lambda>r. r_demandRef r = ref)"
definition mem_ReservationRepo_NextID :: "reservation mem_repo \<Rightarrow> string \<times> reservation mem_repo" where
  "mem_ReservationRepo_NextID = next_id ''res-''"

definition NewProductClassificationRepo :: "classification mem_repo" where "NewProductClassificationRepo = new_repo"
definition mem_ClassificationRepo_Save :: "nat \<Rightarrow> classification mem_repo \<Rightarrow> classification mem_repo" where
  "mem_ClassificationRepo_Save = save_pointer c_sku"
definition mem_ClassificationRepo_FindBySKU :: "sku \<Rightarrow> classification mem_repo \<Rightarrow> nat option" where
  "mem_ClassificationRepo_FindBySKU = find_pointer"

text \<open>The clocks.\<close>

definition FixedClock_Advance :: "int \<Rightarrow> time \<Rightarrow> time" where "FixedClock_Advance d t = t + d"

section \<open>What is stored\<close>

text \<open>The objects the map reaches, and the form every repository has: no entry dangles or is under another key.\<close>

definition contents :: "'o mem_repo \<Rightarrow> string \<Rightarrow> 'o option" where
  "contents m k = map_option (\<lambda>p. heap m ! p) (find_pointer k m)"

definition mem_ok :: "('o \<Rightarrow> string) \<Rightarrow> 'o mem_repo \<Rightarrow> bool" where
  "mem_ok key m \<longleftrightarrow> distinct (map fst (entries m)) \<and>
     (\<forall>(k, p) \<in> set (entries m). p < length (heap m) \<and> key (heap m ! p) = k)"

lemma put_entry_find: "map_of (put_entry k p es) = (map_of es)(k \<mapsto> p)"
  by (induction es) auto

lemma put_entry_keys: "fst ` set (put_entry k p es) = insert k (fst ` set es)"
  using arg_cong [OF put_entry_find [of k p es], of dom] by (simp add: dom_map_of_conv_image_fst)

lemma put_entry_distinct: "distinct (map fst es) \<Longrightarrow> distinct (map fst (put_entry k p es))"
proof (induction es)
  case (Cons e es)
  then show ?case using put_entry_keys [of k p es] by (cases e) (auto simp: image_iff)
qed simp

lemma put_entry_set: "set (put_entry k p es) \<subseteq> insert (k, p) (set es)"
  by (induction es) (auto split: if_splits)

lemma put_entry_known: "map_of es k = Some p \<Longrightarrow> put_entry k p es = es"
  by (induction es) auto

lemma find_known: "mem_ok key m \<Longrightarrow> find_pointer k m = Some p \<Longrightarrow> p < length (heap m) \<and> key (heap m ! p) = k"
  by (auto simp: mem_ok_def find_pointer_def dest: map_of_SomeD)

lemma one_pointer: "mem_ok key m \<Longrightarrow> find_pointer k m = Some p \<Longrightarrow> find_pointer k' m = Some p \<Longrightarrow> k' = k"
  using find_known by metis

lemma new_repo_ok: "mem_ok key new_repo"
  by (simp add: mem_ok_def new_repo_def)

lemma save_ok: "mem_ok key m \<Longrightarrow> p < length (heap m) \<Longrightarrow> mem_ok key (save_pointer key p m)"
  using put_entry_set [of "key (heap m ! p)" p "entries m"]
  by (fastforce simp: mem_ok_def save_pointer_def put_entry_distinct)

lemma allocate_ok: "mem_ok key m \<Longrightarrow> mem_ok key (snd (allocate_object x m))"
  by (fastforce simp: mem_ok_def allocate_object_def nth_append)

lemma assign_ok: "mem_ok key m \<Longrightarrow> find_pointer k m = Some p \<Longrightarrow> key x = k \<Longrightarrow> mem_ok key (assign p x m)"
  using find_known [of key m k p] by (fastforce simp: mem_ok_def assign_def nth_list_update)

text \<open>Saving a new object, and what a method called on a found object does to the repository.\<close>

lemma saved_contents:
  assumes "mem_ok key m"
  shows "contents (let (p, m') = allocate_object x m in save_pointer key p m') = (contents m)(key x \<mapsto> x)"
proof
  fix k
  have "heap (snd (allocate_object x m)) ! p = heap m ! p" if "find_pointer k m = Some p" for p
    using find_known [OF assms that] by (simp add: allocate_object_def nth_append)
  then show "contents (let (p, m') = allocate_object x m in save_pointer key p m') k = ((contents m)(key x \<mapsto> x)) k"
    by (cases "map_of (entries m) k")
      (auto simp: contents_def allocate_object_def save_pointer_def find_pointer_def put_entry_find)
qed

lemma assigned_contents:
  assumes "mem_ok key m" "find_pointer k m = Some p"
  shows "contents (assign p x m) = (contents m)(k \<mapsto> x)"
proof
  fix k'
  have f: "find_pointer k' (assign p x m) = find_pointer k' m" by (simp add: find_pointer_def assign_def)
  show "contents (assign p x m) k' = ((contents m)(k \<mapsto> x)) k'"
  proof (cases "find_pointer k' m")
    case None
    then show ?thesis using assms(2) f by (auto simp: contents_def)
  next
    case (Some p')
    have "p' = p \<longleftrightarrow> k' = k" by (metis Some assms one_pointer option.inject)
    moreover have "p < length (heap m)" using find_known [OF assms] by simp
    ultimately show ?thesis using Some f by (cases "k' = k") (simp_all add: contents_def assign_def)
  qed
qed

section \<open>Identifiers\<close>

definition undigits :: "string \<Rightarrow> nat" where
  "undigits s = foldl (\<lambda>n c. n * 10 + (of_char c - 48)) 0 s"

lemma undigits_digits: "undigits (digits n) = n"
proof (induction n rule: digits.induct)
  case (1 n)
  show ?case
  proof (cases "n < 10")
    case True
    then show ?thesis by (subst digits.simps) (simp add: undigits_def)
  next
    case False
    then have "digits n = digits (n div 10) @ [char_of (48 + n mod 10)]" by (subst digits.simps) simp
    then show ?thesis using 1 False by (simp add: undigits_def)
  qed
qed

lemma itoa_inj: "0 \<le> i \<Longrightarrow> 0 \<le> j \<Longrightarrow> itoa i = itoa j \<longleftrightarrow> i = j"
  using undigits_digits by (metis itoa_def nat_eq_iff2 nat_0_le not_less)

text \<open>The identifiers that \<open>n\<close> calls of \<open>NextID\<close> return.\<close>

fun next_ids :: "string \<Rightarrow> nat \<Rightarrow> 'o mem_repo \<Rightarrow> string list" where
  "next_ids prefix 0 m = []"
| "next_ids prefix (Suc n) m = (let (i, m') = next_id prefix m in i # next_ids prefix n m')"

lemma next_ids_eq:
  "0 \<le> nextID m \<Longrightarrow> nextID m + int n < 2 ^ 63 \<Longrightarrow>
   next_ids prefix n m = map (\<lambda>k. prefix @ itoa (nextID m + int k)) [1..<Suc n]"
proof (induction n arbitrary: m)
  case (Suc n)
  have w: "wrap64 (nextID m + 1) = nextID m + 1" using Suc.prems by (simp add: wrap64_id in64_def)
  have "next_ids prefix n (m\<lparr>nextID := nextID m + 1\<rparr>) =
      map (\<lambda>k. prefix @ itoa (nextID m + int (Suc k))) [1..<Suc n]"
    using Suc.IH [of "m\<lparr>nextID := nextID m + 1\<rparr>"] Suc.prems by (simp add: add.assoc)
  also have "\<dots> = map (\<lambda>k. prefix @ itoa (nextID m + int k)) (map Suc [1..<Suc n])" by simp
  also have "map Suc [1..<Suc n] = [2..<Suc (Suc n)]" by (simp add: map_Suc_upt numeral_2_eq_2)
  finally show ?case using w by (simp add: next_id_def Let_def upt_conv_Cons numeral_2_eq_2 del: upt_Suc)
qed simp

lemma fresh_ids: "n < 2 ^ 63 \<Longrightarrow> distinct (next_ids prefix n new_repo)"
  using itoa_inj by (subst next_ids_eq) (auto simp: new_repo_def distinct_map inj_on_def)

section \<open>The properties\<close>

lemma stored_at_once:
  assumes "mem_ok key m" "find_pointer k m = Some p" "key x = k"
  shows "contents (assign p x m) = (contents m)(k \<mapsto> x) \<and> mem_ok key (assign p x m) \<and>
    save_pointer key p (assign p x m) = assign p x m"
proof (intro conjI)
  show "contents (assign p x m) = (contents m)(k \<mapsto> x)" by (rule assigned_contents [OF assms(1,2)])
  show "mem_ok key (assign p x m)" by (rule assign_ok [OF assms])
  show "save_pointer key p (assign p x m) = assign p x m"
    using assms(2,3) find_known [OF assms(1,2)]
    by (simp add: save_pointer_def assign_def find_pointer_def put_entry_known)
qed

lemma stored_by_save:
  assumes "mem_ok key m" "allocate_object x m = (p, m1)"
  shows "contents (save_pointer key p m1) = (contents m)(key x \<mapsto> x) \<and> mem_ok key (save_pointer key p m1)"
proof -
  have p: "p < length (heap m1)" "m1 = snd (allocate_object x m)" using assms(2) by (auto simp: allocate_object_def)
  have "mem_ok key m1" unfolding p(2) by (rule allocate_ok [OF assms(1)])
  then have "mem_ok key (save_pointer key p m1)" by (rule save_ok) (rule p(1))
  then show ?thesis using saved_contents [OF assms(1), of x] assms(2) by simp
qed

text \<open>
  C33. Without a database, what a use case does to a unit it found is stored at once: it is what every later
  lookup finds, for that identifier only, and the Save that follows changes nothing. So an operation that
  fails after a method was called on a unit, and before the unit was saved, has changed the inventory all the
  same. A new unit is stored by its Save, and no unit is ever found under another identifier than its own.
\<close>

theorem memory_stores_at_once:
  assumes "mem_ok u_id m"
  shows "(\<forall>k p u. mem_StockRepo_FindByID k m = Some p \<and> u_id u = k \<longrightarrow>
      contents (assign p u m) = (contents m)(k \<mapsto> u) \<and> mem_ok u_id (assign p u m) \<and>
      mem_StockRepo_Save p (assign p u m) = assign p u m) \<and>
    (\<forall>u p m1. allocate_object u m = (p, m1) \<longrightarrow>
      contents (mem_StockRepo_Save p m1) = (contents m)(u_id u \<mapsto> u) \<and> mem_ok u_id (mem_StockRepo_Save p m1)) \<and>
    (\<forall>k p. mem_StockRepo_FindByID k m = Some p \<longrightarrow> u_id (heap m ! p) = k)"
  unfolding mem_StockRepo_FindByID_def mem_StockRepo_Save_def
proof (intro conjI)
  show "\<forall>k p u. find_pointer k m = Some p \<and> u_id u = k \<longrightarrow> contents (assign p u m) = (contents m)(k \<mapsto> u) \<and>
      mem_ok u_id (assign p u m) \<and> save_pointer u_id p (assign p u m) = assign p u m"
    by (intro allI impI, elim conjE) (rule stored_at_once [OF assms])
  show "\<forall>u p m1. allocate_object u m = (p, m1) \<longrightarrow> contents (save_pointer u_id p m1) = (contents m)(u_id u \<mapsto> u) \<and>
      mem_ok u_id (save_pointer u_id p m1)"
    by (intro allI impI) (rule stored_by_save [OF assms])
  show "\<forall>k p. find_pointer k m = Some p \<longrightarrow> u_id (heap m ! p) = k"
    by (intro allI impI) (rule conjunct2 [OF find_known [OF assms]])
qed

text \<open>A unit that was put in and then picked empty, without a Save.\<close>

definition demo_unit :: stock_unit where
  "demo_unit = \<lparr>u_id = ''su-1'', u_sku = ''S'', u_bin = ''A'', u_quantity = 5, u_reserved = 5, u_state = StateReserved,
     u_version = 1\<rparr>"

definition demo_mem :: "stock_unit mem_repo" where
  "demo_mem = (let (p, m) = allocate_object demo_unit NewStockRepo in mem_StockRepo_Save p m)"

lemma memory_stores_at_once_witness:
  "case (mem_StockRepo_FindByID ''su-1'' demo_mem, Pick demo_unit 5) of
     (Some p, Inr u) \<Rightarrow> contents (assign p u demo_mem) ''su-1'' = Some u \<and> u_quantity u = 0
   | _ \<Rightarrow> False"
proof -
  have ok: "mem_ok u_id demo_mem" by (simp add: mem_ok_def) code_simp
  have p: "mem_StockRepo_FindByID ''su-1'' demo_mem = Some 0" by code_simp
  have u: "case Pick demo_unit 5 of Inl _ \<Rightarrow> False | Inr u \<Rightarrow> u_id u = ''su-1'' \<and> u_quantity u = 0" by code_simp
  then obtain u where u: "Pick demo_unit 5 = Inr u" "u_id u = ''su-1''" "u_quantity u = 0" by (auto split: sum.splits)
  have "contents (assign 0 u demo_mem) = (contents demo_mem)(''su-1'' \<mapsto> u)"
    using memory_stores_at_once [OF ok] p u(2) by blast
  with p u show ?thesis by simp
qed

text \<open>
  The first 2^63 - 1 identifiers that the memory repositories of units and of reservations give out are
  pairwise different.
\<close>

theorem memory_ids_distinct:
  assumes "n < 2 ^ 63"
  shows "distinct (next_ids ''su-'' n NewStockRepo) \<and> distinct (next_ids ''res-'' n NewReservationRepo)"
  unfolding NewStockRepo_def NewReservationRepo_def by (intro conjI fresh_ids assms)

end
