(* ===== verification/Analytics.thy ===== *)
theory Analytics
  imports Lookup "HOL-Library.List_Lexorder" "HOL-Library.Char_ord" "HOL-Library.Product_Lexorder"
begin

text \<open>
  The Inventory Flow & Accuracy data product: the read model (internal/analytics/report), its two
  projections (internal/adapters/outbound/analyticsstore), and the consumer that feeds them
  (internal/adapters/inbound/kafka). A projection is a record of the nine operations of its port, and the
  consumer works with any.
\<close>

section \<open>The read model\<close>

type_synonym granularity = string

definition GranularityHour :: granularity where "GranularityHour = ''hour''"

type_synonym row_key = "sku \<times> bin_id \<times> time"

record totals =
  receivedQuantity :: int
  stowedCount :: int
  pickedQuantity :: int
  reservationsCreated :: int
  reservationsExpired :: int
  reservationsRevoked :: int
  cycleCountsCompleted :: int
  discrepanciesDetected :: int
  unlocatedCount :: int

record report_row =
  row_key :: row_key
  row_totals :: totals

record report_query =
  q_from :: time
  q_to :: time
  q_sku :: string
  q_bin :: string
  q_granularity :: granularity

text \<open>The zero \<open>time.Time\<close>: midnight of January 1 of the year 1.\<close>

definition zero_time :: time where "zero_time = - 62135596800000000000"

text \<open>\<open>Sub\<close> of two times saturates.\<close>

definition time_Sub :: "time \<Rightarrow> time \<Rightarrow> int" where
  "time_Sub t u = max (- (2 ^ 63)) (min (2 ^ 63 - 1) (t - u))"

definition hourBucket :: "time \<Rightarrow> time" where
  "hourBucket t = t - t mod 3600000000000"

section \<open>The ports\<close>

record 'w projection =
  ApplyStockReceived :: "string \<Rightarrow> sku \<Rightarrow> int \<Rightarrow> time \<Rightarrow> ('w, err, unit) prog"
  ApplyItemStowed :: "string \<Rightarrow> sku \<Rightarrow> bin_id \<Rightarrow> time \<Rightarrow> ('w, err, unit) prog"
  ApplyStockPicked :: "string \<Rightarrow> sku \<Rightarrow> int \<Rightarrow> time \<Rightarrow> ('w, err, unit) prog"
  ApplyStockReserved :: "string \<Rightarrow> sku \<Rightarrow> time \<Rightarrow> ('w, err, unit) prog"
  ApplyReservationExpired :: "string \<Rightarrow> sku \<Rightarrow> time \<Rightarrow> ('w, err, unit) prog"
  ApplyReservationRevoked :: "string \<Rightarrow> sku \<Rightarrow> time \<Rightarrow> ('w, err, unit) prog"
  ApplyCycleCountCompleted :: "string \<Rightarrow> bin_id \<Rightarrow> time \<Rightarrow> ('w, err, unit) prog"
  ApplyDiscrepancyDetected :: "string \<Rightarrow> bin_id \<Rightarrow> time \<Rightarrow> ('w, err, unit) prog"
  ApplyItemUnlocated :: "string \<Rightarrow> sku \<Rightarrow> bin_id \<Rightarrow> time \<Rightarrow> ('w, err, unit) prog"

record 'w report_store =
  store_query :: "report_query \<Rightarrow> ('w, err, report_row list) prog"
  store_lag :: "('w, err, int) prog"

type_synonym 'w processed_events = "string \<Rightarrow> ('w, err, bool) prog"

definition zero_totals :: totals where
  "zero_totals = \<lparr>receivedQuantity = 0, stowedCount = 0, pickedQuantity = 0, reservationsCreated = 0,
     reservationsExpired = 0, reservationsRevoked = 0, cycleCountsCompleted = 0, discrepanciesDetected = 0,
     unlocatedCount = 0\<rparr>"

text \<open>Adding to a row, field by field, in Go's arithmetic.\<close>

definition add_totals :: "totals \<Rightarrow> totals \<Rightarrow> totals" where
  "add_totals a d =
     \<lparr>receivedQuantity = wrap64 (receivedQuantity a + receivedQuantity d),
      stowedCount = wrap64 (stowedCount a + stowedCount d),
      pickedQuantity = wrap64 (pickedQuantity a + pickedQuantity d),
      reservationsCreated = wrap64 (reservationsCreated a + reservationsCreated d),
      reservationsExpired = wrap64 (reservationsExpired a + reservationsExpired d),
      reservationsRevoked = wrap64 (reservationsRevoked a + reservationsRevoked d),
      cycleCountsCompleted = wrap64 (cycleCountsCompleted a + cycleCountsCompleted d),
      discrepanciesDetected = wrap64 (discrepanciesDetected a + discrepanciesDetected d),
      unlocatedCount = wrap64 (unlocatedCount a + unlocatedCount d)\<rparr>"

section \<open>The store in memory\<close>

record memory_store =
  ms_seen :: "string list"
  ms_rows :: "(row_key \<times> totals) list"
  ms_latest :: time

definition NewMemoryStore :: memory_store where
  "NewMemoryStore = \<lparr>ms_seen = [], ms_rows = [], ms_latest = zero_time\<rparr>"

definition firstApply :: "string \<Rightarrow> time \<Rightarrow> memory_store \<Rightarrow> bool \<times> memory_store" where
  "firstApply eventId occurred s =
     (if eventId \<in> set (ms_seen s) then (False, s)
      else (True, s\<lparr>ms_seen := eventId # ms_seen s, ms_latest := (if occurred > ms_latest s then occurred else ms_latest s)\<rparr>))"

text \<open>\<open>row\<close> and the update of one field of what it points to.\<close>

definition on_row :: "row_key \<Rightarrow> (totals \<Rightarrow> totals) \<Rightarrow> memory_store \<Rightarrow> memory_store" where
  "on_row k f s = s\<lparr>ms_rows := AList.update k
     (f (case map_of (ms_rows s) k of None \<Rightarrow> zero_totals | Some a \<Rightarrow> a)) (ms_rows s)\<rparr>"

definition mem_apply :: "row_key \<Rightarrow> (totals \<Rightarrow> totals) \<Rightarrow> string \<Rightarrow> time \<Rightarrow> (memory_store, err, unit) prog" where
  "mem_apply k f eventId occurred s =
     (let (first, s') = firstApply eventId occurred s in (Inr (), if first then on_row k f s' else s'))"

definition mem_ApplyStockReceived where
  "mem_ApplyStockReceived eventId sk qty occurred =
     mem_apply (sk, '''', hourBucket occurred) (\<lambda>r. r\<lparr>receivedQuantity := wrap64 (receivedQuantity r + qty)\<rparr>) eventId occurred"

definition mem_ApplyItemStowed where
  "mem_ApplyItemStowed eventId sk b occurred =
     mem_apply (sk, b, hourBucket occurred) (\<lambda>r. r\<lparr>stowedCount := wrap64 (stowedCount r + 1)\<rparr>) eventId occurred"

definition mem_ApplyStockPicked where
  "mem_ApplyStockPicked eventId sk qty occurred =
     mem_apply (sk, '''', hourBucket occurred) (\<lambda>r. r\<lparr>pickedQuantity := wrap64 (pickedQuantity r + qty)\<rparr>) eventId occurred"

definition mem_ApplyStockReserved where
  "mem_ApplyStockReserved eventId sk occurred =
     mem_apply (sk, '''', hourBucket occurred) (\<lambda>r. r\<lparr>reservationsCreated := wrap64 (reservationsCreated r + 1)\<rparr>) eventId occurred"

definition mem_ApplyReservationExpired where
  "mem_ApplyReservationExpired eventId sk occurred =
     mem_apply (sk, '''', hourBucket occurred) (\<lambda>r. r\<lparr>reservationsExpired := wrap64 (reservationsExpired r + 1)\<rparr>) eventId occurred"

definition mem_ApplyReservationRevoked where
  "mem_ApplyReservationRevoked eventId sk occurred =
     mem_apply (sk, '''', hourBucket occurred) (\<lambda>r. r\<lparr>reservationsRevoked := wrap64 (reservationsRevoked r + 1)\<rparr>) eventId occurred"

definition mem_ApplyCycleCountCompleted where
  "mem_ApplyCycleCountCompleted eventId b occurred =
     mem_apply ('''', b, hourBucket occurred) (\<lambda>r. r\<lparr>cycleCountsCompleted := wrap64 (cycleCountsCompleted r + 1)\<rparr>) eventId occurred"

definition mem_ApplyDiscrepancyDetected where
  "mem_ApplyDiscrepancyDetected eventId b occurred =
     mem_apply ('''', b, hourBucket occurred) (\<lambda>r. r\<lparr>discrepanciesDetected := wrap64 (discrepanciesDetected r + 1)\<rparr>) eventId occurred"

definition mem_ApplyItemUnlocated where
  "mem_ApplyItemUnlocated eventId sk b occurred =
     mem_apply (sk, b, hourBucket occurred) (\<lambda>r. r\<lparr>unlocatedCount := wrap64 (unlocatedCount r + 1)\<rparr>) eventId occurred"

definition memory_projection :: "memory_store projection" where
  "memory_projection =
     \<lparr>ApplyStockReceived = mem_ApplyStockReceived, ApplyItemStowed = mem_ApplyItemStowed,
      ApplyStockPicked = mem_ApplyStockPicked, ApplyStockReserved = mem_ApplyStockReserved,
      ApplyReservationExpired = mem_ApplyReservationExpired, ApplyReservationRevoked = mem_ApplyReservationRevoked,
      ApplyCycleCountCompleted = mem_ApplyCycleCountCompleted, ApplyDiscrepancyDetected = mem_ApplyDiscrepancyDetected,
      ApplyItemUnlocated = mem_ApplyItemUnlocated\<rparr>"

definition selects :: "report_query \<Rightarrow> row_key \<Rightarrow> bool" where
  "selects q k \<longleftrightarrow> (case k of (sk, b, hour) \<Rightarrow>
     \<not> hour < q_from q \<and> hour < q_to q \<and> (q_sku q \<noteq> '''' \<longrightarrow> sk = q_sku q) \<and> (q_bin q \<noteq> '''' \<longrightarrow> b = q_bin q))"

text \<open>\<open>scan\<close> is the order in which Go walks the map.\<close>

definition mem_Query ::
  "((row_key \<times> totals) list \<Rightarrow> (row_key \<times> totals) list) \<Rightarrow> report_query \<Rightarrow> (memory_store, err, report_row list) prog"
  where
  "mem_Query scan q s =
     (Inr (map (\<lambda>(k, r). \<lparr>row_key = k, row_totals = r\<rparr>) (filter (\<lambda>(k, r). selects q k) (scan (ms_rows s)))), s)"

definition mem_FreshnessLag :: "time \<Rightarrow> (memory_store, err, int) prog" where
  "mem_FreshnessLag t_now s =
     (if ms_latest s = zero_time then (Inr 0, s)
      else let lag = time_Sub t_now (ms_latest s) in (Inr (if lag < 0 then 0 else lag), s))"

section \<open>The analytical database\<close>

record an_world =
  consumed_events :: "string list"
  processed_table :: "(string \<times> time) list"
  rollup :: "(row_key \<times> totals) list"
  an_tick :: nat

record an_env =
  an_fails :: "nat \<Rightarrow> bool"
  an_clock :: "nat \<Rightarrow> time"

definition an_next :: "an_world \<Rightarrow> an_world" where "an_next w = w\<lparr>an_tick := Suc (an_tick w)\<rparr>"

text \<open>A statement, and a transaction: what fails in it, its commit included, leaves the tables as they were.\<close>

definition an_sql :: "an_env \<Rightarrow> (an_world, err, 'a) prog \<Rightarrow> (an_world, err, 'a) prog" where
  "an_sql E m w = (if an_fails E (an_tick w) then (Inl (InfraErr ''connection''), an_next w) else m (an_next w))"

definition an_rolled_back :: "an_world \<Rightarrow> an_world \<Rightarrow> an_world" where
  "an_rolled_back w w' =
     w'\<lparr>consumed_events := consumed_events w, processed_table := processed_table w, rollup := rollup w\<rparr>"

definition inTx :: "an_env \<Rightarrow> (an_world, err, unit) prog \<Rightarrow> (an_world, err, unit) prog" where
  "inTx E f w =
     (if an_fails E (an_tick w) then (Inl (InfraErr ''begin''), an_next w)
      else case f (an_next w) of
        (Inl e, w1) \<Rightarrow> (Inl e, an_rolled_back w (an_next w1))
      | (Inr _, w1) \<Rightarrow>
          if an_fails E (an_tick w1) then (Inl (InfraErr ''commit''), an_rolled_back w (an_next w1))
          else (Inr (), an_next w1))"

definition claim :: "an_env \<Rightarrow> string \<Rightarrow> time \<Rightarrow> (an_world, err, bool) prog" where
  "claim E eventId occurred = an_sql E (\<lambda>w.
     if eventId \<in> fst ` set (processed_table w) then (Inr False, w)
     else (Inr True, w\<lparr>processed_table := processed_table w @ [(eventId, occurred)]\<rparr>))"

definition fits :: "totals \<Rightarrow> bool" where
  "fits r \<longleftrightarrow> in64 (receivedQuantity r) \<and> in64 (stowedCount r) \<and> in64 (pickedQuantity r) \<and>
     in64 (reservationsCreated r) \<and> in64 (reservationsExpired r) \<and> in64 (reservationsRevoked r) \<and>
     in64 (cycleCountsCompleted r) \<and> in64 (discrepanciesDetected r) \<and> in64 (unlocatedCount r)"

text \<open>The exact sum, which a BIGINT column holds or refuses.\<close>

definition sum_totals :: "totals \<Rightarrow> totals \<Rightarrow> totals" where
  "sum_totals a d =
     \<lparr>receivedQuantity = receivedQuantity a + receivedQuantity d, stowedCount = stowedCount a + stowedCount d,
      pickedQuantity = pickedQuantity a + pickedQuantity d,
      reservationsCreated = reservationsCreated a + reservationsCreated d,
      reservationsExpired = reservationsExpired a + reservationsExpired d,
      reservationsRevoked = reservationsRevoked a + reservationsRevoked d,
      cycleCountsCompleted = cycleCountsCompleted a + cycleCountsCompleted d,
      discrepanciesDetected = discrepanciesDetected a + discrepanciesDetected d,
      unlocatedCount = unlocatedCount a + unlocatedCount d\<rparr>"

definition upsertRollup :: "an_env \<Rightarrow> sku \<Rightarrow> bin_id \<Rightarrow> time \<Rightarrow> totals \<Rightarrow> (an_world, err, unit) prog" where
  "upsertRollup E sk b occurred delta =
     maperr (Wrapped ''analyticsstore: upsert rollup'') (an_sql E (\<lambda>w.
       let k = (sk, b, hourBucket occurred);
           r = (case map_of (rollup w) k of None \<Rightarrow> delta | Some old \<Rightarrow> sum_totals old delta)
       in if \<not> fits r then (Inl (InfraErr ''bigint out of range''), w)
          else (Inr (), w\<lparr>rollup := AList.update k r (rollup w)\<rparr>)))"

definition applyDelta :: "an_env \<Rightarrow> string \<Rightarrow> sku \<Rightarrow> bin_id \<Rightarrow> time \<Rightarrow> totals \<Rightarrow> (an_world, err, unit) prog" where
  "applyDelta E eventId sk b occurred delta = inTx E
     (andthen (maperr (Wrapped ''analyticsstore: claim event'') (claim E eventId occurred)) (\<lambda>isNew.
      if \<not> isNew then ret () else upsertRollup E sk b occurred delta))"

definition postgres_projection :: "an_env \<Rightarrow> an_world projection" where
  "postgres_projection E =
     \<lparr>ApplyStockReceived = (\<lambda>i sk qty t. applyDelta E i sk '''' t (zero_totals\<lparr>receivedQuantity := qty\<rparr>)),
      ApplyItemStowed = (\<lambda>i sk b t. applyDelta E i sk b t (zero_totals\<lparr>stowedCount := 1\<rparr>)),
      ApplyStockPicked = (\<lambda>i sk qty t. applyDelta E i sk '''' t (zero_totals\<lparr>pickedQuantity := qty\<rparr>)),
      ApplyStockReserved = (\<lambda>i sk t. applyDelta E i sk '''' t (zero_totals\<lparr>reservationsCreated := 1\<rparr>)),
      ApplyReservationExpired = (\<lambda>i sk t. applyDelta E i sk '''' t (zero_totals\<lparr>reservationsExpired := 1\<rparr>)),
      ApplyReservationRevoked = (\<lambda>i sk t. applyDelta E i sk '''' t (zero_totals\<lparr>reservationsRevoked := 1\<rparr>)),
      ApplyCycleCountCompleted = (\<lambda>i b t. applyDelta E i '''' b t (zero_totals\<lparr>cycleCountsCompleted := 1\<rparr>)),
      ApplyDiscrepancyDetected = (\<lambda>i b t. applyDelta E i '''' b t (zero_totals\<lparr>discrepanciesDetected := 1\<rparr>)),
      ApplyItemUnlocated = (\<lambda>i sk b t. applyDelta E i sk b t (zero_totals\<lparr>unlocatedCount := 1\<rparr>))\<rparr>"

definition MarkProcessed :: "an_env \<Rightarrow> an_world processed_events" where
  "MarkProcessed E eventId = an_sql E (\<lambda>w.
     if eventId \<in> set (consumed_events w) then (Inr False, w)
     else (Inr True, w\<lparr>consumed_events := consumed_events w @ [eventId]\<rparr>))"

text \<open>\<open>ORDER BY hour_bucket, sku, bin_id\<close>.\<close>

definition pg_Query :: "an_env \<Rightarrow> report_query \<Rightarrow> (an_world, err, report_row list) prog" where
  "pg_Query E q = maperr (Wrapped ''analyticsstore: query rollup'') (an_sql E (\<lambda>w.
     (Inr (map (\<lambda>(k, r). \<lparr>row_key = k, row_totals = r\<rparr>)
        (sort_key (\<lambda>((sk, b, hour), r). (hour, sk, b)) (filter (\<lambda>(k, r). selects q k) (rollup w)))), w)))"

definition pg_FreshnessLag :: "an_env \<Rightarrow> (an_world, err, int) prog" where
  "pg_FreshnessLag E =
     andthen (maperr (Wrapped ''analyticsstore: freshness query'') (an_sql E (\<lambda>w.
        (Inr (case map snd (processed_table w) of [] \<Rightarrow> None | t # ts \<Rightarrow> Some (foldl max t ts)), w))))
       (\<lambda>latest. case latest of
          None \<Rightarrow> ret 0
        | Some t \<Rightarrow>
            if t = zero_time then ret 0
            else (\<lambda>w. let lag = time_Sub (an_clock E (an_tick w)) t in (Inr (if lag < 0 then 0 else lag), an_next w)))"

section \<open>The consumer\<close>

definition typeStockReceived :: string where "typeStockReceived = ce_Type ''stock'' ''StockReceived''"
definition typeItemStowed :: string where "typeItemStowed = ce_Type ''stock'' ''ItemStowed''"
definition typeItemUnlocated :: string where "typeItemUnlocated = ce_Type ''stock'' ''ItemUnlocated''"
definition typeStockPicked :: string where "typeStockPicked = ce_Type ''reservation'' ''StockPicked''"
definition typeStockReserved :: string where "typeStockReserved = ce_Type ''reservation'' ''StockReserved''"
definition typeReservationExpired :: string where "typeReservationExpired = ce_Type ''reservation'' ''ReservationExpired''"
definition typeReservationRevoked :: string where "typeReservationRevoked = ce_Type ''reservation'' ''ReservationRevoked''"
definition typeCycleCountCompleted :: string where "typeCycleCountCompleted = ce_Type ''bin'' ''CycleCountCompleted''"
definition typeDiscrepancyDetected :: string where "typeDiscrepancyDetected = ce_Type ''bin'' ''DiscrepancyDetected''"

record analytics_data =
  ad_sku :: string
  ad_bin :: string
  ad_quantity :: int

text \<open>
  \<open>DataAs\<close>: encoding/json takes the members of the object in order, matches them to the fields whatever their
  case, and fails when a value does not fit the field.
\<close>

fun dataAs :: "(string \<times> json) list \<Rightarrow> analytics_data \<Rightarrow> analytics_data result" where
  "dataAs [] d = Inr d"
| "dataAs ((name, v) # members) d =
     (if EqualFold name ''sku'' then
        (case v of JString s \<Rightarrow> dataAs members (d\<lparr>ad_sku := s\<rparr>) | _ \<Rightarrow> Inl (InfraErr ''json: sku''))
      else if EqualFold name ''bin_id'' then
        (case v of JString s \<Rightarrow> dataAs members (d\<lparr>ad_bin := s\<rparr>) | _ \<Rightarrow> Inl (InfraErr ''json: bin_id''))
      else if EqualFold name ''quantity'' then
        (case v of JInt n \<Rightarrow> if in64 n then dataAs members (d\<lparr>ad_quantity := n\<rparr>) else Inl (InfraErr ''json: quantity'')
         | _ \<Rightarrow> Inl (InfraErr ''json: quantity''))
      else dataAs members d)"

definition projects :: "string \<Rightarrow> bool" where
  "projects eventType \<longleftrightarrow> eventType \<in> {typeStockReceived, typeItemStowed, typeStockPicked, typeStockReserved,
     typeReservationExpired, typeReservationRevoked, typeCycleCountCompleted, typeDiscrepancyDetected,
     typeItemUnlocated}"

definition applyEvent ::
  "'w projection \<Rightarrow> string \<Rightarrow> string \<Rightarrow> time \<Rightarrow> analytics_data \<Rightarrow> ('w, err, unit) prog" where
  "applyEvent P ident eventType t d =
     (if eventType = typeStockReceived then ApplyStockReceived P ident (ad_sku d) (ad_quantity d) t
      else if eventType = typeItemStowed then ApplyItemStowed P ident (ad_sku d) (ad_bin d) t
      else if eventType = typeStockPicked then ApplyStockPicked P ident (ad_sku d) (ad_quantity d) t
      else if eventType = typeStockReserved then ApplyStockReserved P ident (ad_sku d) t
      else if eventType = typeReservationExpired then ApplyReservationExpired P ident (ad_sku d) t
      else if eventType = typeReservationRevoked then ApplyReservationRevoked P ident (ad_sku d) t
      else if eventType = typeCycleCountCompleted then ApplyCycleCountCompleted P ident (ad_bin d) t
      else if eventType = typeDiscrepancyDetected then ApplyDiscrepancyDetected P ident (ad_bin d) t
      else if eventType = typeItemUnlocated then ApplyItemUnlocated P ident (ad_sku d) (ad_bin d) t
      else ret ())"

definition HandleMessage :: "sdk \<Rightarrow> 'w projection \<Rightarrow> 'w processed_events \<Rightarrow> string \<Rightarrow> ('w, err, unit) prog" where
  "HandleMessage K P Processed raw =
     andthen (maperr (Wrapped ''analytics'') (lift (ce_Decode K raw))) (\<lambda>e.
     if \<not> projects (ce_type e) then ret ()
     else
       andthen (maperr (Wrapped ''analytics: mark processed'') (Processed (ce_id e))) (\<lambda>isNew.
       if \<not> isNew then ret ()
       else
         andthen (maperr (Wrapped ''analytics: decode data'')
           (lift (dataAs (ce_data e) \<lparr>ad_sku = '''', ad_bin = '''', ad_quantity = 0\<rparr>))) (\<lambda>d.
         applyEvent P (ce_id e) (ce_type e) (ce_time e) d)))"

definition Handle :: "sdk \<Rightarrow> 'w projection \<Rightarrow> 'w processed_events \<Rightarrow> message \<Rightarrow> ('w, err, unit) prog" where
  "Handle K P Processed msg w =
     (case HandleMessage K P Processed (km_value msg) w of
        (Inl e, w') \<Rightarrow> if errors_is e NotCloudEvent then (Inr (), w') else (Inl e, w')
      | (Inr _, w') \<Rightarrow> (Inr (), w'))"

text \<open>
  \<open>Run\<close> over what the reader returns until it fails; a message that could not be handled is logged and passed
  over. A cancelled context ends it without an error.
\<close>

fun AnalyticsConsumer_Run ::
  "sdk \<Rightarrow> 'w projection \<Rightarrow> 'w processed_events \<Rightarrow> message list \<Rightarrow> err \<Rightarrow> 'w \<Rightarrow> err option \<times> 'w" where
  "AnalyticsConsumer_Run K P Processed [] e w =
     (if errors_is e (InfraErr ''context canceled'') then None else Some e, w)"
| "AnalyticsConsumer_Run K P Processed (msg # msgs) e w =
     AnalyticsConsumer_Run K P Processed msgs e (snd (Handle K P Processed msg w))"

end
