(* ===== verification/AnalyticsProofs.thy ===== *)
theory AnalyticsProofs
  imports Analytics "HOL-Library.Sublist"
begin

text \<open>
  What the two projections have in common, as the contract \<open>flow_store\<close>: every operation counts its event
  once under its identifier, or fails and counts nothing. The consumer is verified against the contract of
  its projection and of its gate, \<open>flow_consumer\<close>; both are interpreted on the code's definitions.
\<close>

section \<open>Flows\<close>

text \<open>The nine operations of a projection as data: the row they count in and what they add to it.\<close>

datatype flow =
  Received sku int | Stowed sku bin_id | Picked sku int | Reserved sku | Expired sku | Revoked sku
| Counted bin_id | Discrepancy bin_id | Unlocated sku bin_id

fun run_flow :: "'w projection \<Rightarrow> string \<Rightarrow> time \<Rightarrow> flow \<Rightarrow> ('w, err, unit) prog" where
  "run_flow P i t (Received sk q) = ApplyStockReceived P i sk q t"
| "run_flow P i t (Stowed sk b) = ApplyItemStowed P i sk b t"
| "run_flow P i t (Picked sk q) = ApplyStockPicked P i sk q t"
| "run_flow P i t (Reserved sk) = ApplyStockReserved P i sk t"
| "run_flow P i t (Expired sk) = ApplyReservationExpired P i sk t"
| "run_flow P i t (Revoked sk) = ApplyReservationRevoked P i sk t"
| "run_flow P i t (Counted b) = ApplyCycleCountCompleted P i b t"
| "run_flow P i t (Discrepancy b) = ApplyDiscrepancyDetected P i b t"
| "run_flow P i t (Unlocated sk b) = ApplyItemUnlocated P i sk b t"

fun flow_key :: "time \<Rightarrow> flow \<Rightarrow> row_key" where
  "flow_key t (Received sk q) = (sk, '''', hourBucket t)"
| "flow_key t (Stowed sk b) = (sk, b, hourBucket t)"
| "flow_key t (Picked sk q) = (sk, '''', hourBucket t)"
| "flow_key t (Reserved sk) = (sk, '''', hourBucket t)"
| "flow_key t (Expired sk) = (sk, '''', hourBucket t)"
| "flow_key t (Revoked sk) = (sk, '''', hourBucket t)"
| "flow_key t (Counted b) = ('''', b, hourBucket t)"
| "flow_key t (Discrepancy b) = ('''', b, hourBucket t)"
| "flow_key t (Unlocated sk b) = (sk, b, hourBucket t)"

fun flow_delta :: "flow \<Rightarrow> totals" where
  "flow_delta (Received sk q) = zero_totals\<lparr>receivedQuantity := q\<rparr>"
| "flow_delta (Stowed sk b) = zero_totals\<lparr>stowedCount := 1\<rparr>"
| "flow_delta (Picked sk q) = zero_totals\<lparr>pickedQuantity := q\<rparr>"
| "flow_delta (Reserved sk) = zero_totals\<lparr>reservationsCreated := 1\<rparr>"
| "flow_delta (Expired sk) = zero_totals\<lparr>reservationsExpired := 1\<rparr>"
| "flow_delta (Revoked sk) = zero_totals\<lparr>reservationsRevoked := 1\<rparr>"
| "flow_delta (Counted b) = zero_totals\<lparr>cycleCountsCompleted := 1\<rparr>"
| "flow_delta (Discrepancy b) = zero_totals\<lparr>discrepanciesDetected := 1\<rparr>"
| "flow_delta (Unlocated sk b) = zero_totals\<lparr>unlocatedCount := 1\<rparr>"

record counted_flow =
  cf_id :: string
  cf_time :: time
  cf_flow :: flow

record tally =
  t_claimed :: "string set"
  t_rows :: "row_key \<rightharpoonup> totals"

definition or_zero_totals :: "totals option \<Rightarrow> totals" where
  "or_zero_totals r = (case r of None \<Rightarrow> zero_totals | Some a \<Rightarrow> a)"

definition tally_once :: "tally \<Rightarrow> counted_flow \<Rightarrow> tally" where
  "tally_once T c =
     (if cf_id c \<in> t_claimed T then T
      else let k = flow_key (cf_time c) (cf_flow c)
        in \<lparr>t_claimed = insert (cf_id c) (t_claimed T),
            t_rows = (t_rows T)(k \<mapsto> add_totals (or_zero_totals (t_rows T k)) (flow_delta (cf_flow c)))\<rparr>)"

text \<open>What a row holds after some events, as a sum over them.\<close>

definition row_sum :: "counted_flow list \<Rightarrow> row_key \<Rightarrow> totals option" where
  "row_sum cs k = (case filter (\<lambda>c. flow_key (cf_time c) (cf_flow c) = k) cs of [] \<Rightarrow> None
     | hits \<Rightarrow> Some (foldl add_totals zero_totals (map (flow_delta \<circ> cf_flow) hits)))"

definition empty_tally :: tally where "empty_tally = \<lparr>t_claimed = {}, t_rows = (\<lambda>_. None)\<rparr>"

lemma row_sum_snoc:
  "row_sum (cs @ [c]) k = (if flow_key (cf_time c) (cf_flow c) = k
     then Some (add_totals (or_zero_totals (row_sum cs k)) (flow_delta (cf_flow c))) else row_sum cs k)"
  by (auto simp: row_sum_def or_zero_totals_def split: list.splits)

lemma tally_sum:
  "distinct (map cf_id cs) \<Longrightarrow>
   t_rows (foldl tally_once empty_tally cs) = row_sum cs \<and> t_claimed (foldl tally_once empty_tally cs) = cf_id ` set cs"
proof (induction cs rule: rev_induct)
  case Nil
  show ?case by (simp add: empty_tally_def row_sum_def fun_eq_iff)
next
  case (snoc c cs)
  define T where "T = foldl tally_once empty_tally cs"
  have T: "t_rows T = row_sum cs" "t_claimed T = cf_id ` set cs" "cf_id c \<notin> t_claimed T"
    using snoc by (auto simp: T_def)
  have "foldl tally_once empty_tally (cs @ [c]) = tally_once T c" by (simp add: T_def)
  moreover have "t_rows (tally_once T c) = row_sum (cs @ [c])" "t_claimed (tally_once T c) = cf_id ` set (cs @ [c])"
    using T by (auto simp: tally_once_def Let_def fun_eq_iff row_sum_snoc)
  ultimately show ?case by simp
qed

section \<open>The contract of a projection\<close>

lemma counted_eta: "\<lparr>cf_id = cf_id c, cf_time = cf_time c, cf_flow = cf_flow c\<rparr> = c"
  by simp

definition run_flows :: "'w projection \<Rightarrow> counted_flow list \<Rightarrow> ('w, err, unit) prog" where
  "run_flows P = each (\<lambda>c. run_flow P (cf_id c) (cf_time c) (cf_flow c))"

locale flow_store =
  fixes P :: "'w projection" and tally :: "'w \<Rightarrow> tally" and ok :: "'w \<Rightarrow> bool"
  assumes runs: "ok w \<Longrightarrow> run_flow P i t f w = (r, w') \<Longrightarrow>
    ok w' \<and> tally w' = (if isl r then tally w else tally_once (tally w) \<lparr>cf_id = i, cf_time = t, cf_flow = f\<rparr>)"
begin

lemma runs_all: "ok w \<Longrightarrow> run_flows P cs w = (Inr (), w') \<Longrightarrow> ok w' \<and> tally w' = foldl tally_once (tally w) cs"
proof (induction cs arbitrary: w)
  case Nil
  then show ?case by (simp add: run_flows_def ret_def)
next
  case (Cons c cs)
  obtain r w1 where r: "run_flow P (cf_id c) (cf_time c) (cf_flow c) w = (r, w1)" by force
  from Cons.prems r obtain u where "r = Inr u" and rest: "run_flows P cs w1 = (Inr (), w')"
    by (auto simp: run_flows_def andthen_def split: sum.splits)
  then show ?case using runs [OF Cons.prems(1) r, unfolded counted_eta] Cons.IH [OF _ rest] by simp
qed

end

section \<open>Both projections keep it\<close>

definition mem_tally :: "memory_store \<Rightarrow> tally" where
  "mem_tally s = \<lparr>t_claimed = set (ms_seen s), t_rows = map_of (ms_rows s)\<rparr>"

definition rows_ok :: "(row_key \<times> totals) list \<Rightarrow> bool" where
  "rows_ok rs \<longleftrightarrow> distinct (map fst rs) \<and> (\<forall>r \<in> snd ` set rs. fits r)"

definition an_tally :: "an_world \<Rightarrow> tally" where
  "an_tally w = \<lparr>t_claimed = fst ` set (processed_table w), t_rows = map_of (rollup w)\<rparr>"

lemma fits_zero [simp]: "fits zero_totals"
  by (simp add: fits_def zero_totals_def in64_def)

lemma rows_ok_update: "rows_ok rs \<Longrightarrow> fits r \<Longrightarrow> rows_ok (AList.update k r rs)"
proof -
  assume rs: "rows_ok rs" and r: "fits r"
  have "p \<in> set (AList.update k r rs) \<Longrightarrow> snd p = r \<or> p \<in> set rs" for p
    by (induction rs) (auto split: if_splits)
  then have "fits (snd p)" if "p \<in> set (AList.update k r rs)" for p
    using that rs r unfolding rows_ok_def by blast
  then show ?thesis using rs unfolding rows_ok_def by (auto simp: distinct_update)
qed

lemma rows_ok_find: "rows_ok rs \<Longrightarrow> fits (or_zero_totals (map_of rs k))"
  by (auto simp: rows_ok_def or_zero_totals_def dest: map_of_SomeD split: option.split)

lemma fits_add: "fits (add_totals a d)"
  by (simp add: fits_def add_totals_def)

lemma sum_fits: "fits (sum_totals a d) \<Longrightarrow> sum_totals a d = add_totals a d"
  by (simp add: sum_totals_def add_totals_def fits_def)

lemma add_zero: "fits d \<Longrightarrow> add_totals zero_totals d = d"
  by (cases d) (simp add: add_totals_def zero_totals_def fits_def)

lemma mem_apply_tally:
  assumes s: "rows_ok (ms_rows s)" and f: "\<And>r. fits r \<Longrightarrow> g r = add_totals r (flow_delta f)"
    and run: "mem_apply (flow_key t f) g i t s = (r, s')"
  shows "rows_ok (ms_rows s') \<and> \<not> isl r \<and> mem_tally s' = tally_once (mem_tally s) \<lparr>cf_id = i, cf_time = t, cf_flow = f\<rparr>"
proof (cases "i \<in> set (ms_seen s)")
  case True
  then show ?thesis using run s by (auto simp: mem_apply_def firstApply_def mem_tally_def tally_once_def)
next
  case False
  let ?k = "flow_key t f"
  have g: "g (or_zero_totals (map_of (ms_rows s) ?k)) = add_totals (or_zero_totals (map_of (ms_rows s) ?k)) (flow_delta f)"
    using f rows_ok_find [OF s] by blast
  have s': "ms_rows s' = AList.update ?k (g (or_zero_totals (map_of (ms_rows s) ?k))) (ms_rows s)"
      "ms_seen s' = i # ms_seen s" "\<not> isl r"
    using run False by (auto simp: mem_apply_def firstApply_def on_row_def or_zero_totals_def)
  show ?thesis
    using False s' g rows_ok_update [OF s fits_add] by (auto simp: mem_tally_def tally_once_def Let_def update_conv')
qed

lemmas mem_defs = memory_projection_def mem_ApplyStockReceived_def mem_ApplyItemStowed_def mem_ApplyStockPicked_def
  mem_ApplyStockReserved_def mem_ApplyReservationExpired_def mem_ApplyReservationRevoked_def
  mem_ApplyCycleCountCompleted_def mem_ApplyDiscrepancyDetected_def mem_ApplyItemUnlocated_def

lemma mem_flow: "\<exists>g. run_flow memory_projection i t f = mem_apply (flow_key t f) g i t \<and>
    (\<forall>r. fits r \<longrightarrow> g r = add_totals r (flow_delta f))"
  by (cases f) (auto simp: mem_defs fun_eq_iff add_totals_def zero_totals_def fits_def)

interpretation mem: flow_store memory_projection mem_tally "\<lambda>s. rows_ok (ms_rows s)"
proof
  fix w i t f r w' assume w: "rows_ok (ms_rows w)" and r: "run_flow memory_projection i t f w = (r, w')"
  obtain g where "run_flow memory_projection i t f = mem_apply (flow_key t f) g i t"
    "\<And>r. fits r \<Longrightarrow> g r = add_totals r (flow_delta f)" using mem_flow by blast
  then show "rows_ok (ms_rows w') \<and> mem_tally w' =
      (if isl r then mem_tally w else tally_once (mem_tally w) \<lparr>cf_id = i, cf_time = t, cf_flow = f\<rparr>)"
    using mem_apply_tally [OF w] r by metis
qed

lemma pg_flow: "run_flow (postgres_projection E) i t f =
    applyDelta E i (fst (flow_key t f)) (fst (snd (flow_key t f))) t (flow_delta f)"
  by (cases f) (simp_all add: postgres_projection_def)

lemma inTx_cases:
  assumes "inTx E f w = (r, w')" "\<And>v x v'. f v = (x, v') \<Longrightarrow> consumed_events v' = consumed_events v"
  obtains (failed) "isl r" "processed_table w' = processed_table w" "rollup w' = rollup w" "consumed_events w' = consumed_events w"
  | (committed) w1 where "r = Inr ()" "f (an_next w) = (Inr (), w1)" "processed_table w' = processed_table w1"
      "rollup w' = rollup w1" "consumed_events w' = consumed_events w"
proof -
  obtain x w1 where f: "f (an_next w) = (x, w1)" by force
  have "consumed_events w1 = consumed_events w" using assms(2) [OF f] by (simp add: an_next_def)
  then show thesis using assms(1) f
    by (auto simp: inTx_def an_next_def an_rolled_back_def intro: failed committed split: if_splits sum.splits)
qed

lemma applyDelta_tally:
  assumes w: "rows_ok (rollup w)" and r: "applyDelta E i (fst (flow_key t f)) (fst (snd (flow_key t f))) t (flow_delta f) w = (r, w')"
  shows "rows_ok (rollup w') \<and> consumed_events w' = consumed_events w \<and>
    an_tally w' = (if isl r then an_tally w else tally_once (an_tally w) \<lparr>cf_id = i, cf_time = t, cf_flow = f\<rparr>)"
proof -
  let ?k = "flow_key t f"
  have k: "(fst ?k, fst (snd ?k), hourBucket t) = ?k" by (cases f) simp_all
  let ?f = "andthen (maperr (Wrapped ''analyticsstore: claim event'') (claim E i t))
    (\<lambda>isNew. if \<not> isNew then ret () else upsertRollup E (fst ?k) (fst (snd ?k)) t (flow_delta f))"
  have "consumed_events v' = consumed_events v" if "?f v = (x, v')" for v x v'
    using that by (auto simp: andthen_def maperr_def claim_def an_sql_def an_next_def upsertRollup_def ret_def Let_def
        split: if_splits sum.splits prod.splits)
  from r [unfolded applyDelta_def] this show ?thesis
  proof (rule inTx_cases)
    assume "isl r" "processed_table w' = processed_table w" "rollup w' = rollup w" "consumed_events w' = consumed_events w"
    then show ?thesis using w by (simp add: an_tally_def)
  next
    fix w1 assume c: "r = Inr ()" "?f (an_next w) = (Inr (), w1)" "processed_table w' = processed_table w1"
      "rollup w' = rollup w1" "consumed_events w' = consumed_events w"
    show ?thesis
    proof (cases "i \<in> fst ` set (processed_table w)")
      case True
      then have "processed_table w1 = processed_table w \<and> rollup w1 = rollup w"
        using c(2) by (auto simp: andthen_def maperr_def claim_def an_sql_def an_next_def ret_def split: if_splits)
      then show ?thesis using c w True by (simp add: an_tally_def tally_once_def)
    next
      case False
      define d where "d = (case map_of (rollup w) ?k of None \<Rightarrow> flow_delta f | Some old \<Rightarrow> sum_totals old (flow_delta f))"
      have w1: "processed_table w1 = processed_table w @ [(i, t)]" "rollup w1 = AList.update ?k d (rollup w)" "fits d"
        using c(2) False unfolding d_def
        by (auto simp: andthen_def maperr_def claim_def an_sql_def an_next_def upsertRollup_def Let_def k
            split: if_splits sum.splits prod.splits)
      have "d = add_totals (or_zero_totals (map_of (rollup w) ?k)) (flow_delta f)"
        using w1(3) sum_fits add_zero by (auto simp: d_def or_zero_totals_def split: option.splits)
      then show ?thesis using c w w1 False rows_ok_update [OF w w1(3)]
        by (auto simp: an_tally_def tally_once_def Let_def update_conv')
    qed
  qed
qed

lemma applyDelta_error: "applyDelta E i sk b t d w = (Inl e, w') \<Longrightarrow> \<not> errors_is e NotCloudEvent"
  by (auto simp: applyDelta_def inTx_def andthen_def maperr_def claim_def upsertRollup_def an_sql_def ret_def Let_def
      split: if_splits prod.splits sum.splits)

section \<open>The contract of a consumer\<close>

locale flow_consumer = flow_store P tally ok for P :: "'w projection" and tally ok +
  fixes Processed :: "'w processed_events" and gate :: "'w \<Rightarrow> string set"
  assumes runs_gate: "ok w \<Longrightarrow> run_flow P i t f w = (r, w') \<Longrightarrow> gate w' = gate w \<and>
      (case r of Inl e \<Rightarrow> \<not> errors_is e NotCloudEvent | Inr _ \<Rightarrow> True)"
    and marks: "ok w \<Longrightarrow> Processed i w = (x, w') \<Longrightarrow> ok w' \<and> tally w' = tally w \<and>
      (case x of Inl e \<Rightarrow> gate w' = gate w \<and> \<not> errors_is e NotCloudEvent | Inr b \<Rightarrow> gate w' = insert i (gate w) \<and> (b \<longleftrightarrow> i \<notin> gate w))"

interpretation pgf: flow_consumer "postgres_projection E" an_tally "\<lambda>w. rows_ok (rollup w)" "MarkProcessed E"
    "\<lambda>w. set (consumed_events w)" for E :: an_env
proof
  fix w i t f r w' assume w: "rows_ok (rollup w)" and r: "run_flow (postgres_projection E) i t f w = (r, w')"
  note d = applyDelta_tally [OF w r [unfolded pg_flow]]
  show "rows_ok (rollup w') \<and> an_tally w' =
      (if isl r then an_tally w else tally_once (an_tally w) \<lparr>cf_id = i, cf_time = t, cf_flow = f\<rparr>)" using d by simp
  show "set (consumed_events w') = set (consumed_events w) \<and>
      (case r of Inl e \<Rightarrow> \<not> errors_is e NotCloudEvent | Inr _ \<Rightarrow> True)"
    using d applyDelta_error [of E _ _ _ _ _ w _ w'] r [unfolded pg_flow] by (auto split: sum.split)
next
  fix w i r w' assume "rows_ok (rollup w)" "MarkProcessed E i w = (r, w')"
  then show "rows_ok (rollup w') \<and> an_tally w' = an_tally w \<and>
      (case r of Inl e \<Rightarrow> set (consumed_events w') = set (consumed_events w) \<and> \<not> errors_is e NotCloudEvent
       | Inr b \<Rightarrow> set (consumed_events w') = insert i (set (consumed_events w)) \<and> (b \<longleftrightarrow> i \<notin> set (consumed_events w)))"
    by (auto simp: MarkProcessed_def an_sql_def an_next_def an_tally_def split: if_splits)
qed

section \<open>What a message counts\<close>

definition flow_for :: "string \<Rightarrow> analytics_data \<Rightarrow> flow option" where
  "flow_for ty d =
     (if ty = typeStockReceived then Some (Received (ad_sku d) (ad_quantity d))
      else if ty = typeItemStowed then Some (Stowed (ad_sku d) (ad_bin d))
      else if ty = typeStockPicked then Some (Picked (ad_sku d) (ad_quantity d))
      else if ty = typeStockReserved then Some (Reserved (ad_sku d))
      else if ty = typeReservationExpired then Some (Expired (ad_sku d))
      else if ty = typeReservationRevoked then Some (Revoked (ad_sku d))
      else if ty = typeCycleCountCompleted then Some (Counted (ad_bin d))
      else if ty = typeDiscrepancyDetected then Some (Discrepancy (ad_bin d))
      else if ty = typeItemUnlocated then Some (Unlocated (ad_sku d) (ad_bin d))
      else None)"

definition no_data :: analytics_data where "no_data = \<lparr>ad_sku = '''', ad_bin = '''', ad_quantity = 0\<rparr>"

definition admitted :: "sdk \<Rightarrow> message \<Rightarrow> cloud_event option" where
  "admitted K m = (case ce_Decode K (km_value m) of Inl _ \<Rightarrow> None
     | Inr e \<Rightarrow> if projects (ce_type e) then Some e else None)"

definition flow_of :: "cloud_event \<Rightarrow> counted_flow option" where
  "flow_of e = (case dataAs (ce_data e) no_data of Inl _ \<Rightarrow> None
     | Inr d \<Rightarrow> map_option (\<lambda>f. \<lparr>cf_id = ce_id e, cf_time = ce_time e, cf_flow = f\<rparr>) (flow_for (ce_type e) d))"

text \<open>Every event that would count, in the order of the messages.\<close>

fun flows_in :: "sdk \<Rightarrow> message list \<Rightarrow> counted_flow list" where
  "flows_in K [] = []"
| "flows_in K (m # ms) = (case Option.bind (admitted K m) flow_of of None \<Rightarrow> flows_in K ms | Some c \<Rightarrow> c # flows_in K ms)"

text \<open>The events that count: of each identifier, the first message that carries it.\<close>

fun first_flows :: "sdk \<Rightarrow> string set \<Rightarrow> message list \<Rightarrow> counted_flow list" where
  "first_flows K G [] = []"
| "first_flows K G (m # ms) = (case admitted K m of
     None \<Rightarrow> first_flows K G ms
   | Some e \<Rightarrow> if ce_id e \<in> G then first_flows K G ms
       else (case flow_of e of None \<Rightarrow> [] | Some c \<Rightarrow> [c]) @ first_flows K (insert (ce_id e) G) ms)"

lemma applyEvent_flow: "applyEvent P i ty t d = (case flow_for ty d of None \<Rightarrow> ret () | Some f \<Rightarrow> run_flow P i t f)"
  by (simp add: applyEvent_def flow_for_def)

lemma projects_flow: "projects ty \<Longrightarrow> \<exists>f. flow_for ty d = Some f"
  by (auto simp: projects_def flow_for_def)

lemma flow_of_id: "flow_of e = Some c \<Longrightarrow> cf_id c = ce_id e"
  by (auto simp: flow_of_def split: sum.splits)

lemma first_flows_id: "c \<in> set (first_flows K G ms) \<Longrightarrow> cf_id c \<notin> G"
  by (induction ms arbitrary: G) (auto split: option.splits if_splits dest: flow_of_id)

lemma first_flows_distinct: "distinct (map cf_id (first_flows K G ms))"
proof (induction ms arbitrary: G)
  case (Cons m ms)
  then show ?case
    using first_flows_id [of _ K "insert i G" ms for i] by (fastforce split: option.splits dest: flow_of_id)
qed simp

text \<open>A message that is delivered again counts for nothing.\<close>

lemma first_flows_append:
  "first_flows K G (ms @ ns) = first_flows K G ms @ first_flows K (G \<union> ce_id ` {e. \<exists>m \<in> set ms. admitted K m = Some e}) ns"
proof (induction ms arbitrary: G)
  case (Cons m ms)
  have "{e. \<exists>x \<in> set (m # ms). admitted K x = Some e} =
      (case admitted K m of None \<Rightarrow> {} | Some e \<Rightarrow> {e}) \<union> {e. \<exists>x \<in> set ms. admitted K x = Some e}"
    by (auto split: option.splits)
  then show ?case using Cons by (auto split: option.splits simp: insert_absorb Un_insert_left intro!: arg_cong [of _ _ "\<lambda>S. first_flows K S ns"])
qed simp

lemma first_flows_known: "(\<And>m e. m \<in> set ns \<Longrightarrow> admitted K m = Some e \<Longrightarrow> ce_id e \<in> G) \<Longrightarrow> first_flows K G ns = []"
  by (induction ns) (auto split: option.splits)


lemma dataAs_error: "dataAs ms d = Inl e \<Longrightarrow> \<not> errors_is e NotCloudEvent"
  by (induction ms d rule: dataAs.induct) (auto split: if_splits json.splits)

context flow_consumer begin

lemma not_admitted:
  assumes "admitted K m = None"
  shows "snd (Handle K P Processed m w) = w"
  using assms by (auto simp: Handle_def HandleMessage_def admitted_def andthen_def maperr_def ret_def lift_def
      split: sum.splits if_splits prod.splits)

lemma handle_admitted:
  assumes "admitted K m = Some e"
  shows "Handle K P Processed m w = (case Processed (ce_id e) w of
      (Inl x, w1) \<Rightarrow> if errors_is x NotCloudEvent then (Inr (), w1) else (Inl (Wrapped ''analytics: mark processed'' x), w1)
    | (Inr isNew, w1) \<Rightarrow> if \<not> isNew then (Inr (), w1)
        else (case dataAs (ce_data e) no_data of
            Inl x \<Rightarrow> (Inl (Wrapped ''analytics: decode data'' x), w1)
          | Inr d \<Rightarrow> (case applyEvent P (ce_id e) (ce_type e) (ce_time e) d w1 of
                (Inl x, w2) \<Rightarrow> if errors_is x NotCloudEvent then (Inr (), w2) else (Inl x, w2)
              | (Inr _, w2) \<Rightarrow> (Inr (), w2))))"
  using assms dataAs_error [of "ce_data e" no_data]
  by (auto simp: Handle_def HandleMessage_def admitted_def andthen_def maperr_def ret_def lift_def no_data_def
      split: sum.splits if_splits prod.splits)

lemma handled:
  assumes w: "ok w" and r: "Handle K P Processed m w = (r, w')" and m: "admitted K m = Some e"
  shows "ok w' \<and> gate w' \<in> {gate w, insert (ce_id e) (gate w)} \<and>
    (tally w' = tally w \<or> (\<exists>c. flow_of e = Some c \<and> ce_id e \<notin> gate w \<and>
       gate w' = insert (ce_id e) (gate w) \<and> tally w' = tally_once (tally w) c)) \<and>
    (r = Inr () \<longrightarrow> gate w' = insert (ce_id e) (gate w) \<and> (if ce_id e \<in> gate w then tally w' = tally w
       else (\<exists>c. flow_of e = Some c \<and> tally w' = tally_once (tally w) c)))"
proof -
  obtain x w1 where x: "Processed (ce_id e) w = (x, w1)" by force
  note mk = marks [OF w x] and h = r [unfolded handle_admitted [OF m] x]
  show ?thesis
  proof (cases "x = Inr True")
    case False
    then show ?thesis using mk h by (cases x) (auto split: if_splits)
  next
    case True
    then have g: "gate w1 = insert (ce_id e) (gate w)" "ce_id e \<notin> gate w" "tally w1 = tally w" "ok w1" using mk by auto
    show ?thesis
    proof (cases "dataAs (ce_data e) no_data")
      case (Inl er)
      then show ?thesis using h True g by auto
    next
      case (Inr d)
      obtain f where f: "flow_for (ce_type e) d = Some f"
        using m projects_flow by (auto simp: admitted_def split: sum.splits if_splits)
      obtain y w2 where y: "run_flow P (ce_id e) (ce_time e) f w1 = (y, w2)" by force
      have fo: "flow_of e = Some \<lparr>cf_id = ce_id e, cf_time = ce_time e, cf_flow = f\<rparr>"
        using Inr f by (simp add: flow_of_def)
      show ?thesis
        using h True Inr f y g fo runs [OF g(4) y] runs_gate [OF g(4) y] by (cases y) (auto simp: applyEvent_flow)
    qed
  qed
qed

lemma run_counts:
  "ok w \<Longrightarrow> AnalyticsConsumer_Run K P Processed ms er w = (x, w') \<Longrightarrow>
   \<exists>cs. subseq cs (flows_in K ms) \<and> distinct (map cf_id cs) \<and>
     cf_id ` set cs \<inter> gate w = {} \<and> tally w' = foldl tally_once (tally w) cs"
proof (induction ms arbitrary: w)
  case Nil
  then show ?case by (intro exI [of _ "[]"]) simp
next
  case (Cons m ms)
  obtain r w1 where r: "Handle K P Processed m w = (r, w1)" by force
  have rest: "AnalyticsConsumer_Run K P Processed ms er w1 = (x, w')" using Cons.prems r by simp
  have skip: ?case if same: "ok w1" "gate w \<subseteq> gate w1" "tally w1 = tally w"
  proof -
    obtain cs where cs: "subseq cs (flows_in K ms)" "distinct (map cf_id cs)" "cf_id ` set cs \<inter> gate w1 = {}"
      "tally w' = foldl tally_once (tally w1) cs" using Cons.IH [OF same(1) rest] by blast
    have "subseq cs (flows_in K (m # ms))" using cs(1) by (auto split: option.split)
    then show ?thesis using cs same by (intro exI [of _ cs]) auto
  qed
  show ?case
  proof (cases "admitted K m")
    case None
    then have "w1 = w" using not_admitted [OF None, of w] r by simp
    then show ?thesis using skip Cons.prems by simp
  next
    case (Some e)
    note h = handled [OF Cons.prems(1) r Some]
    show ?thesis
    proof (cases "tally w1 = tally w")
      case True
      then show ?thesis using skip h by auto
    next
      case False
      then obtain c where c: "flow_of e = Some c" "ce_id e \<notin> gate w" "gate w1 = insert (ce_id e) (gate w)"
        "tally w1 = tally_once (tally w) c" using h by blast
      obtain cs where cs: "subseq cs (flows_in K ms)" "distinct (map cf_id cs)" "cf_id ` set cs \<inter> gate w1 = {}"
        "tally w' = foldl tally_once (tally w1) cs" using Cons.IH [OF _ rest] h by blast
      show ?thesis
        using c cs Some flow_of_id [OF c(1)] by (intro exI [of _ "c # cs"]) auto
    qed
  qed
qed

lemma clean_run:
  "ok w \<Longrightarrow> each (Handle K P Processed) ms w = (Inr (), w') \<Longrightarrow>
   ok w' \<and> tally w' = foldl tally_once (tally w) (first_flows K (gate w) ms)"
proof (induction ms arbitrary: w)
  case Nil
  then show ?case by (simp add: ret_def)
next
  case (Cons m ms)
  obtain r w1 where r: "Handle K P Processed m w = (r, w1)" by force
  with Cons.prems have ok: "r = Inr ()" "each (Handle K P Processed) ms w1 = (Inr (), w')"
    by (auto simp: andthen_def split: sum.splits)
  show ?case
  proof (cases "admitted K m")
    case None
    then have "w1 = w" using not_admitted [OF None, of w] r by simp
    then show ?thesis using Cons.IH Cons.prems(1) ok(2) None by simp
  next
    case (Some e)
    note h = handled [OF Cons.prems(1) r Some]
    show ?thesis using Cons.IH [OF _ ok(2)] h ok(1) Some by (auto simp: insert_absorb)
  qed
qed

end

end
