(* ===== verification/DataProduct.thy ===== *)
theory DataProduct
  imports AnalyticsProofs
begin

text \<open>
  The data product end to end: what the consumer leaves in the analytical database, what the report says of
  it, how that agrees with the store in memory, and that an event of the inventory is counted for what it is.
\<close>

section \<open>A database and its events\<close>

definition an_empty :: "nat \<Rightarrow> an_world" where
  "an_empty n = \<lparr>consumed_events = [], processed_table = [], rollup = [], an_tick = n\<rparr>"

definition demo_an :: an_env where "demo_an = \<lparr>an_fails = (\<lambda>_. False), an_clock = int\<rparr>"

definition picked_event :: "string \<Rightarrow> cloud_event" where
  "picked_event i = \<lparr>ce_specversion = ''1.0'', ce_id = i, ce_source = Source, ce_type = typeStockPicked,
     ce_subject = ''r'', ce_time = 7200000000001, ce_dataschema = '''',
     ce_data = [(''sku'', JString ''S''), (''quantity'', JInt 3)]\<rparr>"

text \<open>A value is the identifier of a picked event; a message without one is not an event.\<close>

definition pick_sdk :: sdk where
  "pick_sdk = \<lparr>sdk_marshal = (\<lambda>e. Inr (ce_id e)),
     sdk_unmarshal = (\<lambda>v. if v = '''' then None else Some (picked_event v)), sdk_valid = (\<lambda>_. True)\<rparr>"

definition pick_message :: "string \<Rightarrow> message" where
  "pick_message i = \<lparr>km_partition = 0, km_offset = 0, km_key = '''', km_value = i, km_headers = []\<rparr>"

lemma an_empty_ok: "rows_ok (rollup (an_empty n))" "an_tally (an_empty n) = empty_tally" "set (consumed_events (an_empty n)) = {}"
  by (simp_all add: an_empty_def rows_ok_def an_tally_def empty_tally_def)

lemma clean_rows:
  assumes "each (Handle K (postgres_projection E) (MarkProcessed E)) ms (an_empty n) = (Inr (), w)"
  shows "rows_ok (rollup w) \<and> map_of (rollup w) = row_sum (first_flows K {} ms)"
proof -
  have "rows_ok (rollup w) \<and> an_tally w = foldl tally_once empty_tally (first_flows K {} ms)"
    using pgf.clean_run [OF an_empty_ok(1) assms] an_empty_ok by simp
  then show ?thesis using tally_sum [OF first_flows_distinct, of K "{}" ms] by (metis an_tally_def tally.select_convs(2))
qed

lemma picked_rows:
  "(case each (Handle pick_sdk (postgres_projection demo_an) (MarkProcessed demo_an))
      [pick_message ''a'', pick_message '''', pick_message ''b'', pick_message ''a''] (an_empty 0) of
      (Inl _, w) \<Rightarrow> False
    | (Inr _, w) \<Rightarrow> map (\<lambda>(k, r). (k, pickedQuantity r)) (rollup w) = [((''S'', '''', 7200000000000), 6)])"
  by code_simp

lemma picked_run:
  obtains w where "each (Handle pick_sdk (postgres_projection demo_an) (MarkProcessed demo_an))
      [pick_message ''a'', pick_message '''', pick_message ''b'', pick_message ''a''] (an_empty 0) = (Inr (), w)"
    "map (\<lambda>(k, r). (k, pickedQuantity r)) (rollup w) = [((''S'', '''', 7200000000000), 6)]"
  using picked_rows by (auto split: prod.splits sum.splits)

section \<open>The properties\<close>

text \<open>
  C37. Whatever the analytical database fails to do while the consumer reads the topic, the rollup counts every
  event at most once: its rows are the sums over some of the events, each under an identifier of its own, in
  the order in which they were read.
\<close>

theorem counted_at_most_once:
  assumes "AnalyticsConsumer_Run K (postgres_projection E) (MarkProcessed E) ms er (an_empty n) = (x, w)"
  shows "\<exists>cs. subseq cs (flows_in K ms) \<and> distinct (map cf_id cs) \<and> map_of (rollup w) = row_sum cs"
proof -
  obtain cs where cs: "subseq cs (flows_in K ms)" "distinct (map cf_id cs)" "an_tally w = foldl tally_once empty_tally cs"
    using pgf.run_counts [OF an_empty_ok(1) assms] an_empty_ok by auto
  then show ?thesis using tally_sum [OF cs(2)] by (metis an_tally_def tally.select_convs(2))
qed

lemma counted_at_most_once_witness:
  "\<exists>cs. subseq cs (flows_in pick_sdk [pick_message ''a'', pick_message ''a'']) \<and> distinct (map cf_id cs)"
  using counted_at_most_once [of pick_sdk "demo_an\<lparr>an_fails := (\<lambda>n. n = 3)\<rparr>" "[pick_message ''a'', pick_message ''a'']"
      NotCloudEvent 0] by (metis prod.collapse)



text \<open>
  Messages that are delivered again, any of them and in any order, change no row of the rollup.
\<close>

theorem redelivery_counts_nothing:
  assumes "each (Handle K (postgres_projection E) (MarkProcessed E)) (ms @ again) (an_empty n) = (Inr (), w)"
    and "set again \<subseteq> set ms"
  shows "map_of (rollup w) = row_sum (first_flows K {} ms)"
proof -
  let ?G = "{} \<union> ce_id ` {e. \<exists>m \<in> set ms. admitted K m = Some e}"
  have "first_flows K ?G again = []" by (rule first_flows_known) (use assms(2) in auto)
  then show ?thesis using clean_rows [OF assms(1)] first_flows_append [of K "{}" ms again] by simp
qed

lemma redelivery_counts_nothing_witness:
  "\<exists>r. row_sum (first_flows pick_sdk {} [pick_message ''a'', pick_message '''', pick_message ''b''])
     (''S'', '''', 7200000000000) = Some r \<and> pickedQuantity r = 6"
proof -
  obtain w where w: "each (Handle pick_sdk (postgres_projection demo_an) (MarkProcessed demo_an))
      ([pick_message ''a'', pick_message '''', pick_message ''b''] @ [pick_message ''a'']) (an_empty 0) = (Inr (), w)"
    "map (\<lambda>(k, r). (k, pickedQuantity r)) (rollup w) = [((''S'', '''', 7200000000000), 6)]"
    using picked_run by auto
  have "\<exists>r. map_of (rollup w) (''S'', '''', 7200000000000) = Some r \<and> pickedQuantity r = 6"
    using w(2) by (cases "rollup w") auto
  then show ?thesis using redelivery_counts_nothing [OF w(1)] by auto
qed



text \<open>
  An event whose operation fails after the gate has recorded it is never counted: here the commit of the
  rollup fails, the message is delivered again and is acknowledged, and the rollup stays empty.
\<close>

theorem gate_loses_failed_event:
  "let E = demo_an\<lparr>an_fails := (\<lambda>n. n = 4)\<rparr>;
       handle = Handle pick_sdk (postgres_projection E) (MarkProcessed E) (pick_message ''a'');
       (r1, w1) = handle (an_empty 0); (r2, w2) = handle w1
   in isl r1 \<and> r2 = Inr () \<and> rollup w2 = [] \<and> consumed_events w2 = [''a'']"
  by code_simp

section \<open>From the inventory's events to the counts\<close>












end
