(* ===== verification/Reports.thy ===== *)
theory Reports
  imports DataProduct Http "HOL-Library.Countable"
begin

text \<open>
  The reader of the data product: the handlers of the inventory-reports service
  (internal/adapters/inbound/http/reports_handler.go) over any report store, and the client of that service
  that the MCP report tool uses (internal/adapters/inbound/mcp/report_tool.go), with the query encoding of
  net/url in between. \<open>time.Parse\<close>, JSON and the network are parameters.
\<close>

section \<open>Query strings\<close>

definition query_safe :: "char \<Rightarrow> bool" where
  "query_safe c \<longleftrightarrow> (let n = of_char c :: nat in
     48 \<le> n \<and> n \<le> 57 \<or> 65 \<le> n \<and> n \<le> 90 \<or> 97 \<le> n \<and> n \<le> 122) \<or> c \<in> set ''-_.~''"

definition escape_char :: "char \<Rightarrow> string" where
  "escape_char c = (if c = CHR '' '' then ''+'' else if query_safe c then [c]
     else [CHR ''%'', hex_digit (of_char c div 16), hex_digit (of_char c)])"

definition QueryEscape :: "string \<Rightarrow> string" where
  "QueryEscape s = concat (map escape_char s)"

definition unhex :: "char \<Rightarrow> nat option" where
  "unhex c = (let n = of_char c in
     if 48 \<le> n \<and> n \<le> 57 then Some (n - 48)
     else if 97 \<le> n \<and> n \<le> 102 then Some (n - 87)
     else if 65 \<le> n \<and> n \<le> 70 then Some (n - 55) else None)"

fun QueryUnescape :: "string \<Rightarrow> string option" where
  "QueryUnescape [] = Some []"
| "QueryUnescape (c # s) =
     (if c = CHR ''%'' then
        (case s of
           a # b # r \<Rightarrow>
             (case (unhex a, unhex b) of
                (Some h, Some l) \<Rightarrow> map_option ((#) (char_of (16 * h + l))) (QueryUnescape r)
              | _ \<Rightarrow> None)
         | _ \<Rightarrow> None)
      else map_option ((#) (if c = CHR ''+'' then CHR '' '' else c)) (QueryUnescape s))"

text \<open>\<open>strings.Cut\<close> at a character; without one the whole string and nothing.\<close>

definition Cut :: "char \<Rightarrow> string \<Rightarrow> string \<times> string" where
  "Cut c s = (takeWhile (\<lambda>x. x \<noteq> c) s, tl (dropWhile (\<lambda>x. x \<noteq> c) s))"

text \<open>\<open>url.Values\<close>, in the order of the query; what does not parse is dropped by \<open>URL.Query\<close>.\<close>

definition parse_field :: "string \<Rightarrow> (string \<times> string) option" where
  "parse_field field =
     (if field = '''' \<or> CHR '';'' \<in> set field then None
      else case Cut (CHR ''='') field of (k, v) \<Rightarrow>
        (case (QueryUnescape k, QueryUnescape v) of (Some k', Some v') \<Rightarrow> Some (k', v') | _ \<Rightarrow> None))"

definition url_Query :: "string \<Rightarrow> (string \<times> string) list" where
  "url_Query raw = List.map_filter parse_field (split_at (CHR ''&'') raw)"

definition values_Get :: "(string \<times> string) list \<Rightarrow> string \<Rightarrow> string" where
  "values_Get vs k = (case map_of vs k of None \<Rightarrow> '''' | Some v \<Rightarrow> v)"

text \<open>\<open>Values.Set\<close> on a map with one value for a key, and \<open>Values.Encode\<close>, which sorts the keys.\<close>

definition values_Set :: "string \<Rightarrow> string \<Rightarrow> (string \<times> string) list \<Rightarrow> (string \<times> string) list" where
  "values_Set k v vs = AList.update k v vs"

definition values_Encode :: "(string \<times> string) list \<Rightarrow> string" where
  "values_Encode vs =
     join_with (CHR ''&'') (map (\<lambda>(k, v). QueryEscape k @ ''='' @ QueryEscape v) (sort_key fst vs))"

section \<open>The reports service\<close>

record report_request =
  rp_path :: string
  rp_rawQuery :: string

type_synonym 'w report_handler = "report_request \<Rightarrow> ('w, response, response) prog"

definition writeReportBadRequest :: "codec \<Rightarrow> report_request \<Rightarrow> string \<Rightarrow> response" where
  "writeReportBadRequest K r dt = writeProblem K 400
     (''invalid-report-query'', ''The report query is malformed or missing a required parameter'') (Text dt) (rp_path r)"

definition writeReportInternal :: "codec \<Rightarrow> report_request \<Rightarrow> err \<Rightarrow> response" where
  "writeReportInternal K r e = writeProblem K 500
     (''report-store-error'', ''The report could not be served'') (Error_text e) (rp_path r)"

text \<open>\<open>rfc3339\<close> is \<open>time.Parse(time.RFC3339, _)\<close>.\<close>

definition parseRequiredTime ::
  "codec \<Rightarrow> (string \<Rightarrow> time option) \<Rightarrow> report_request \<Rightarrow> string \<Rightarrow> string \<Rightarrow> ('w, response, time) prog" where
  "parseRequiredTime K rfc3339 r raw name =
     (if raw = '''' then
        throw (writeReportBadRequest K r (''query parameter '' @ [CHR 39] @ name @ [CHR 39] @ '' is required (RFC3339)''))
      else case rfc3339 raw of
        None \<Rightarrow> throw (writeReportBadRequest K r
          (''query parameter '' @ [CHR 39] @ name @ [CHR 39] @ '' must be an RFC3339 timestamp''))
      | Some t \<Rightarrow> ret t)"

definition to_flowAccuracyRowDTO :: "report_row \<Rightarrow> flowAccuracyRowDTO" where
  "to_flowAccuracyRowDTO row = (case row_key row of (sk, b, hour) \<Rightarrow>
     \<lparr>fr_sku = sk, fr_binId = b, fr_hourBucket = timeFormat hour,
      fr_receivedQuantity = receivedQuantity (row_totals row), fr_stowedCount = stowedCount (row_totals row),
      fr_pickedQuantity = pickedQuantity (row_totals row),
      fr_reservationsCreated = reservationsCreated (row_totals row),
      fr_reservationsExpired = reservationsExpired (row_totals row),
      fr_reservationsRevoked = reservationsRevoked (row_totals row),
      fr_cycleCountsCompleted = cycleCountsCompleted (row_totals row),
      fr_discrepanciesDetected = discrepanciesDetected (row_totals row),
      fr_unlocatedCount = unlocatedCount (row_totals row)\<rparr>)"

definition throw_response :: "(err \<Rightarrow> response) \<Rightarrow> ('w, err, 'a) prog \<Rightarrow> ('w, response, 'a) prog" where
  "throw_response f m w = (case m w of (Inl e, w') \<Rightarrow> (Inl (f e), w') | (Inr x, w') \<Rightarrow> (Inr x, w'))"

definition GetFlowAccuracy ::
  "codec \<Rightarrow> (string \<Rightarrow> time option) \<Rightarrow> 'w report_store \<Rightarrow> 'w report_handler" where
  "GetFlowAccuracy K rfc3339 Store r =
     (let q = url_Query (rp_rawQuery r); g = values_Get q ''granularity'' in
      andthen (parseRequiredTime K rfc3339 r (values_Get q ''from'') ''from'') (\<lambda>from_time.
      andthen (parseRequiredTime K rfc3339 r (values_Get q ''to'') ''to'') (\<lambda>to_time.
      if g \<noteq> '''' \<and> g \<noteq> GranularityHour then
        throw (writeReportBadRequest K r (''granularity must be '' @ [CHR 39] @ ''hour'' @ [CHR 39]))
      else
        andthen (throw_response (writeReportInternal K r) (store_query Store
          \<lparr>q_from = from_time, q_to = to_time, q_sku = values_Get q ''sku'', q_bin = values_Get q ''binId'',
           q_granularity = (if g \<noteq> '''' then g else GranularityHour)\<rparr>)) (\<lambda>rows.
        ret (writeJSON K [] 200 (Report_body (map to_flowAccuracyRowDTO rows)))))))"

definition GetFreshness :: "codec \<Rightarrow> 'w report_store \<Rightarrow> 'w report_handler" where
  "GetFreshness K Store r =
     andthen (throw_response (writeReportInternal K r) (store_lag Store)) (\<lambda>lag.
     ret (writeJSON K [] 200 (Freshness_body lag)))"

definition GetReportsHealthz :: "codec \<Rightarrow> 'w report_handler" where
  "GetReportsHealthz K r = ret (writeJSON K [] 200 (Status_body ''ok''))"

text \<open>The GET routes, and the answer to a request for a path with no route, which is chi's own.\<close>

definition NewReportsRouter ::
  "codec \<Rightarrow> (string \<Rightarrow> time option) \<Rightarrow> 'w report_store \<Rightarrow> response \<Rightarrow> report_request \<Rightarrow> 'w \<Rightarrow> response \<times> 'w" where
  "NewReportsRouter K rfc3339 Store not_found r w =
     (let routes = [(''/healthz'', GetReportsHealthz K),
                    (''/reports/flow-accuracy'', GetFlowAccuracy K rfc3339 Store),
                    (''/reports/flow-accuracy/freshness'', GetFreshness K Store)]
      in case map_of routes (rp_path r) of
           None \<Rightarrow> (not_found, w)
         | Some h \<Rightarrow> (case h r w of (Inl resp, w') \<Rightarrow> (resp, w') | (Inr resp, w') \<Rightarrow> (resp, w')))"

section \<open>The client\<close>

record FlowAccuracyRowView =
  fv_sku :: string
  fv_binId :: string
  fv_hourBucket :: int
  fv_receivedQuantity :: int
  fv_stowedCount :: int
  fv_pickedQuantity :: int
  fv_reservationsCreated :: int
  fv_reservationsExpired :: int
  fv_reservationsRevoked :: int
  fv_cycleCountsCompleted :: int
  fv_discrepanciesDetected :: int
  fv_unlocatedCount :: int

record FlowAccuracyQuery =
  fq_from :: string
  fq_to :: string
  fq_sku :: string
  fq_binId :: string
  fq_granularity :: string

record 'w ReportsClient =
  rc_flow :: "FlowAccuracyQuery \<Rightarrow> ('w, err, FlowAccuracyRowView list) prog"
  rc_fresh :: "('w, err, int) prog"

text \<open>\<open>http.NewRequestWithContext\<close>, \<open>http.Client.Do\<close> for a GET, and the decoding of the two bodies.\<close>

record 'w http_client =
  hc_new :: "string \<Rightarrow> err option"
  hc_do :: "string \<Rightarrow> ('w, err, response) prog"
  hc_report :: "string \<Rightarrow> FlowAccuracyRowView list result"
  hc_lag :: "string \<Rightarrow> int result"

definition getJSON :: "'w http_client \<Rightarrow> string \<Rightarrow> (string \<Rightarrow> 'a result) \<Rightarrow> string \<Rightarrow> ('w, err, 'a) prog" where
  "getJSON C baseURL decode path =
     andthen (maperr (Wrapped ''reports client: build request'')
       (lift (case hc_new C (baseURL @ path) of None \<Rightarrow> Inr () | Some e \<Rightarrow> Inl e))) (\<lambda>_.
     andthen (maperr (Wrapped ''reports client: request'') (hc_do C (baseURL @ path))) (\<lambda>resp.
     if rs_status resp < 200 \<or> rs_status resp \<ge> 300 then
       throw (InfraErr (''reports client: unexpected status '' @ itoa (rs_status resp)))
     else maperr (Wrapped ''reports client: decode'') (lift (decode (rs_body resp)))))"

definition flow_values :: "FlowAccuracyQuery \<Rightarrow> (string \<times> string) list" where
  "flow_values q =
     (let vals0 = values_Set ''to'' (fq_to q) (values_Set ''from'' (fq_from q) []);
          vals1 = (if fq_sku q \<noteq> '''' then values_Set ''sku'' (fq_sku q) vals0 else vals0);
          vals2 = (if fq_binId q \<noteq> '''' then values_Set ''binId'' (fq_binId q) vals1 else vals1)
      in if fq_granularity q \<noteq> '''' then values_Set ''granularity'' (fq_granularity q) vals2 else vals2)"

definition Client_GetFlowAccuracy ::
  "'w http_client \<Rightarrow> string \<Rightarrow> FlowAccuracyQuery \<Rightarrow> ('w, err, FlowAccuracyRowView list) prog" where
  "Client_GetFlowAccuracy C baseURL q =
     getJSON C baseURL (hc_report C) (''/reports/flow-accuracy?'' @ values_Encode (flow_values q))"

definition Client_GetFreshness :: "'w http_client \<Rightarrow> string \<Rightarrow> ('w, err, int) prog" where
  "Client_GetFreshness C baseURL = getJSON C baseURL (hc_lag C) ''/reports/flow-accuracy/freshness''"

definition NewReportsRESTClient :: "'w http_client \<Rightarrow> string \<Rightarrow> 'w ReportsClient" where
  "NewReportsRESTClient C baseURL =
     \<lparr>rc_flow = Client_GetFlowAccuracy C baseURL, rc_fresh = Client_GetFreshness C baseURL\<rparr>"

section \<open>What is sent is what is parsed\<close>

lemma unhex_digit: "unhex (hex_digit n) = Some (n mod 16)"
proof -
  have "list_all (\<lambda>k. unhex (''0123456789ABCDEF'' ! k) = Some k) [0..<16]" by code_simp
  then show ?thesis by (simp add: hex_digit_def list_all_iff)
qed

lemma hex_safe: "query_safe (hex_digit n)"
proof -
  have "list_all (\<lambda>k. query_safe (''0123456789ABCDEF'' ! k)) [0..<16]" by code_simp
  then show ?thesis by (simp add: hex_digit_def list_all_iff)
qed

lemma unsafe_chars: "\<not> query_safe (CHR ''%'')" "\<not> query_safe (CHR ''+'')" "\<not> query_safe (CHR ''&'')"
  "\<not> query_safe (CHR ''='')" "\<not> query_safe (CHR '';'')"
  by code_simp+

lemma unescape_char: "QueryUnescape (escape_char c @ t) = map_option ((#) c) (QueryUnescape t)"
proof -
  have "16 * (n div 16 mod 16) + n mod 16 = n" if "n < 256" for n :: nat
    using that by (simp add: less_mult_imp_div_less)
  then have "16 * (of_char c div 16 mod 16) + of_char c mod 16 = (of_char c :: nat)" using nat_of_char_less_256 by blast
  then show ?thesis using unsafe_chars
    by (auto simp: escape_char_def unhex_digit simp del: char_of_eq_iff)
qed

lemma unescape_append: "QueryUnescape (QueryEscape s @ t) = map_option ((@) s) (QueryUnescape t)"
  by (induction s) (simp_all add: QueryEscape_def unescape_char option.map_comp comp_def option.map_ident)

lemma QueryUnescape_Escape: "QueryUnescape (QueryEscape s) = Some s"
  using unescape_append [of s "[]"] by simp

lemma escaped_chars: "c \<in> set (QueryEscape s) \<Longrightarrow> query_safe c \<or> c = CHR ''%'' \<or> c = CHR ''+''"
  by (auto simp: QueryEscape_def escape_char_def hex_safe split: if_splits)

lemma not_escaped: "CHR ''&'' \<notin> set (QueryEscape s)" "CHR ''='' \<notin> set (QueryEscape s)" "CHR '';'' \<notin> set (QueryEscape s)"
  using escaped_chars unsafe_chars by fastforce+

lemma split_none: "c \<notin> set x \<Longrightarrow> split_at c x = [x]"
  by (induction x) auto

lemma split_head: "c \<notin> set x \<Longrightarrow> split_at c (x @ c # y) = x # split_at c y"
  by (induction x) auto

lemma split_join: "xs \<noteq> [] \<Longrightarrow> list_all (\<lambda>x. c \<notin> set x) xs \<Longrightarrow> split_at c (join_with c xs) = xs"
  by (induction c xs rule: join_with.induct) (simp_all add: split_none split_head)

lemma parse_escaped: "parse_field (QueryEscape k @ ''='' @ QueryEscape v) = Some (k, v)"
proof -
  have "Cut (CHR ''='') (QueryEscape k @ ''='' @ QueryEscape v) = (QueryEscape k, QueryEscape v)"
    using not_escaped(2) [of k] by (simp add: Cut_def takeWhile_append2 dropWhile_append2 takeWhile_append dropWhile_append)
  then show ?thesis using not_escaped(3) by (simp add: parse_field_def QueryUnescape_Escape)
qed

lemma query_of_encoded: "url_Query (values_Encode vs) = sort_key fst vs"
proof (cases "vs = []")
  case False
  let ?field = "\<lambda>(k, v). QueryEscape k @ ''='' @ QueryEscape v"
  have "sort_key fst vs \<noteq> []" using False by (metis length_sort length_0_conv)
  then have "split_at (CHR ''&'') (values_Encode vs) = map ?field (sort_key fst vs)"
    unfolding values_Encode_def using not_escaped(1)
    by (intro split_join) (auto simp: list_all_iff)
  moreover have "List.map_filter parse_field (map ?field xs) = xs" for xs
    by (induction xs) (auto simp: List.map_filter_def parse_escaped [simplified])
  ultimately show ?thesis by (simp add: url_Query_def)
qed (simp add: values_Encode_def url_Query_def List.map_filter_def parse_field_def)

lemma Get_sorted: "distinct (map fst vs) \<Longrightarrow> values_Get (sort_key fst vs) k = values_Get vs k"
proof -
  assume "distinct (map fst vs)"
  moreover have "mset (map fst (sort_key fst vs)) = mset (map fst vs)" by simp
  ultimately have "distinct (map fst (sort_key fst vs))" by (metis mset_eq_imp_distinct_iff)
  then have "map_of (sort_key fst vs) = map_of vs" using \<open>distinct (map fst vs)\<close> by (simp add: map_of_inject_set)
  then show ?thesis by (simp add: values_Get_def)
qed

lemma flow_query:
  fixes q :: FlowAccuracyQuery
  defines "p \<equiv> url_Query (values_Encode (flow_values q))"
  shows "values_Get p ''from'' = fq_from q" "values_Get p ''to'' = fq_to q" "values_Get p ''sku'' = fq_sku q"
    "values_Get p ''binId'' = fq_binId q" "values_Get p ''granularity'' = fq_granularity q"
proof -
  have "distinct (map fst (flow_values q))"
    by (simp add: flow_values_def values_Set_def Let_def)
  then have "values_Get p k = values_Get (flow_values q) k" for k
    by (simp add: p_def query_of_encoded Get_sorted)
  then show "values_Get p ''from'' = fq_from q" "values_Get p ''to'' = fq_to q" "values_Get p ''sku'' = fq_sku q"
    "values_Get p ''binId'' = fq_binId q" "values_Get p ''granularity'' = fq_granularity q"
    by (auto simp: flow_values_def values_Set_def values_Get_def Let_def)
qed

section \<open>The properties\<close>

definition to_FlowAccuracyRowView :: "flowAccuracyRowDTO \<Rightarrow> FlowAccuracyRowView" where
  "to_FlowAccuracyRowView d =
     \<lparr>fv_sku = fr_sku d, fv_binId = fr_binId d, fv_hourBucket = fr_hourBucket d,
      fv_receivedQuantity = fr_receivedQuantity d, fv_stowedCount = fr_stowedCount d,
      fv_pickedQuantity = fr_pickedQuantity d, fv_reservationsCreated = fr_reservationsCreated d,
      fv_reservationsExpired = fr_reservationsExpired d, fv_reservationsRevoked = fr_reservationsRevoked d,
      fv_cycleCountsCompleted = fr_cycleCountsCompleted d, fv_discrepanciesDetected = fr_discrepanciesDetected d,
      fv_unlocatedCount = fr_unlocatedCount d\<rparr>"

text \<open>
  What the client relies on: net/http hands a URL of the service over to its router, split at the first
  question mark, as long as nothing in the query needs escaping; JSON gives back the rows that were written.
\<close>

definition served_at :: "'w http_client \<Rightarrow> string \<Rightarrow> (report_request \<Rightarrow> 'w \<Rightarrow> response \<times> 'w) \<Rightarrow> bool" where
  "served_at C baseURL service \<longleftrightarrow> (\<forall>raw w. list_all (\<lambda>c. query_safe c \<or> c \<in> set ''%+&='') raw \<longrightarrow>
     hc_new C (baseURL @ ''/reports/flow-accuracy?'' @ raw) = None \<and>
     hc_do C (baseURL @ ''/reports/flow-accuracy?'' @ raw) w =
       (case service \<lparr>rp_path = ''/reports/flow-accuracy'', rp_rawQuery = raw\<rparr> w of (resp, w') \<Rightarrow> (Inr resp, w')))"

definition rows_round_trip :: "codec \<Rightarrow> 'w http_client \<Rightarrow> bool" where
  "rows_round_trip K C \<longleftrightarrow> (\<forall>rows. hc_report C (enc K (Report_body rows)) = Inr (map to_FlowAccuracyRowView rows))"

lemma join_chars: "x \<in> set (join_with c xs) \<Longrightarrow> x = c \<or> (\<exists>s \<in> set xs. x \<in> set s)"
  by (induction c xs rule: join_with.induct) auto

lemma encoded_safe: "list_all (\<lambda>c. query_safe c \<or> c \<in> set ''%+&='') (values_Encode vs)"
  by (auto simp: list_all_iff values_Encode_def dest!: join_chars escaped_chars)

lemma client_served:
  assumes "served_at C baseURL service" "rows_round_trip K C"
    and "service \<lparr>rp_path = ''/reports/flow-accuracy'', rp_rawQuery = values_Encode (flow_values q)\<rparr> w = (resp, w')"
  shows "Client_GetFlowAccuracy C baseURL q w =
    (if rs_status resp < 200 \<or> rs_status resp \<ge> 300
     then (Inl (InfraErr (''reports client: unexpected status '' @ itoa (rs_status resp))), w')
     else maperr (Wrapped ''reports client: decode'') (lift (hc_report C (rs_body resp))) w')"
proof -
  have "list_all (\<lambda>c. query_safe c \<or> c \<in> set ''%+&='') (values_Encode (flow_values q))" by (rule encoded_safe)
  then have "hc_new C (baseURL @ ''/reports/flow-accuracy?'' @ values_Encode (flow_values q)) = None"
    "hc_do C (baseURL @ ''/reports/flow-accuracy?'' @ values_Encode (flow_values q)) w = (Inr resp, w')"
    using assms(1,3) unfolding served_at_def by (auto split: prod.splits)
  then show ?thesis
    by (simp add: Client_GetFlowAccuracy_def getJSON_def andthen_def maperr_def lift_def throw_def)
qed

text \<open>The tool, without the server around it. Its input has the fields of the query.\<close>

definition GetFlowAccuracyReportForTest ::
  "'w ReportsClient option \<Rightarrow> FlowAccuracyQuery \<Rightarrow> ('w, err, FlowAccuracyRowView list) prog" where
  "GetFlowAccuracyReportForTest client q =
     (case client of
        None \<Rightarrow> throw (InfraErr ''reports client not configured'')
      | Some c \<Rightarrow>
          if fq_from q = '''' \<or> fq_to q = '''' then throw (InfraErr ''from and to are required (RFC3339)'')
          else rc_flow c q)"

lemma statuses:
  "''reports client: unexpected status '' @ itoa 400 = ''reports client: unexpected status 400''"
  "''reports client: unexpected status '' @ itoa 500 = ''reports client: unexpected status 500''"
  by code_simp+

lemma router_flow:
  fixes q :: FlowAccuracyQuery
  assumes "fq_from q \<noteq> ''''" "fq_to q \<noteq> ''''"
  defines "r \<equiv> \<lparr>rp_path = ''/reports/flow-accuracy'', rp_rawQuery = values_Encode (flow_values q)\<rparr>"
  shows "case (rfc3339 (fq_from q), rfc3339 (fq_to q)) of
      (Some f, Some t) \<Rightarrow>
        if fq_granularity q \<in> {'''', GranularityHour} then
          (case store_query Store \<lparr>q_from = f, q_to = t, q_sku = fq_sku q, q_bin = fq_binId q,
               q_granularity = GranularityHour\<rparr> w of
             (Inr rows, w') \<Rightarrow> NewReportsRouter K rfc3339 Store nf r w =
                (writeJSON K [] 200 (Report_body (map to_flowAccuracyRowDTO rows)), w')
           | (Inl e, w') \<Rightarrow> NewReportsRouter K rfc3339 Store nf r w = (writeReportInternal K r e, w'))
        else \<exists>d. NewReportsRouter K rfc3339 Store nf r w = (writeReportBadRequest K r d, w)
    | _ \<Rightarrow> \<exists>d. NewReportsRouter K rfc3339 Store nf r w = (writeReportBadRequest K r d, w)"
  using assms(1,2) unfolding r_def
  by (auto simp: NewReportsRouter_def GetFlowAccuracy_def flow_query Let_def andthen_def parseRequiredTime_def
      throw_def ret_def throw_response_def GranularityHour_def split: option.splits sum.splits prod.splits)

text \<open>
  C40. The report tool of the MCP server reads the store of the reports service, through the query string, the
  service and its JSON: for a window that parses it returns the rows that the store selects for exactly the
  SKU and the bin it was given, whatever characters are in them, and the service's refusals and failures are
  its only other results.
\<close>

theorem report_tool_reads_store:
  assumes "served_at C baseURL (NewReportsRouter K rfc3339 Store not_found)" "rows_round_trip K C"
    and "fq_from q \<noteq> ''''" "fq_to q \<noteq> ''''"
  shows "GetFlowAccuracyReportForTest (Some (NewReportsRESTClient C baseURL)) q w =
    (case (rfc3339 (fq_from q), rfc3339 (fq_to q)) of
       (Some f, Some t) \<Rightarrow>
         if fq_granularity q \<in> {'''', GranularityHour} then
           (case store_query Store \<lparr>q_from = f, q_to = t, q_sku = fq_sku q, q_bin = fq_binId q,
                q_granularity = GranularityHour\<rparr> w of
              (Inr rows, w') \<Rightarrow> (Inr (map (to_FlowAccuracyRowView \<circ> to_flowAccuracyRowDTO) rows), w')
            | (Inl e, w') \<Rightarrow> (Inl (InfraErr ''reports client: unexpected status 500''), w'))
         else (Inl (InfraErr ''reports client: unexpected status 400''), w)
     | _ \<Rightarrow> (Inl (InfraErr ''reports client: unexpected status 400''), w))"
proof -
  let ?r = "\<lparr>rp_path = ''/reports/flow-accuracy'', rp_rawQuery = values_Encode (flow_values q)\<rparr>"
  have tool: "GetFlowAccuracyReportForTest (Some (NewReportsRESTClient C baseURL)) q w = Client_GetFlowAccuracy C baseURL q w"
    using assms(3,4) by (simp add: GetFlowAccuracyReportForTest_def NewReportsRESTClient_def)
  note served = client_served [OF assms(1,2)]
  have bad: "Client_GetFlowAccuracy C baseURL q w = (Inl (InfraErr ''reports client: unexpected status 400''), w)"
    if "NewReportsRouter K rfc3339 Store not_found ?r w = (writeReportBadRequest K ?r d, w)" for d
    using served [OF that] statuses by (simp add: writeReportBadRequest_def writeProblem_def)
  have failed: "Client_GetFlowAccuracy C baseURL q w = (Inl (InfraErr ''reports client: unexpected status 500''), w')"
    if "NewReportsRouter K rfc3339 Store not_found ?r w = (writeReportInternal K ?r e, w')" for e w'
    using served [OF that] statuses by (simp add: writeReportInternal_def writeProblem_def)
  have good: "Client_GetFlowAccuracy C baseURL q w = (Inr (map (to_FlowAccuracyRowView \<circ> to_flowAccuracyRowDTO) rows), w')"
    if "NewReportsRouter K rfc3339 Store not_found ?r w = (writeJSON K [] 200 (Report_body (map to_flowAccuracyRowDTO rows)), w')" for rows w'
    using served [OF that] assms(2) by (simp add: writeJSON_def rows_round_trip_def maperr_def lift_def)
  show ?thesis
    using router_flow [OF assms(3,4), where ?rfc3339.0 = rfc3339 and Store = Store and w = w and K = K and nf = not_found] unfolding tool
    by (auto intro: bad failed good split: option.splits if_splits prod.splits sum.splits)
qed

text \<open>A service over the store in memory, and a JSON that writes rows as their number.\<close>

definition row_tuple :: "flowAccuracyRowDTO \<Rightarrow> string \<times> string \<times> int list" where
  "row_tuple d = (fr_sku d, fr_binId d, [fr_hourBucket d, fr_receivedQuantity d, fr_stowedCount d,
     fr_pickedQuantity d, fr_reservationsCreated d, fr_reservationsExpired d, fr_reservationsRevoked d,
     fr_cycleCountsCompleted d, fr_discrepanciesDetected d, fr_unlocatedCount d])"

lemma row_tuple_inj: "inj row_tuple"
  by (rule injI) (simp add: row_tuple_def)

lemma demo_rows: "\<exists>(e :: flowAccuracyRowDTO list \<Rightarrow> string) d. \<forall>rows. d (e rows) = rows"
proof -
  let ?n = "\<lambda>rows. to_nat (map row_tuple rows)"
  have "inj (\<lambda>rows. replicate (?n rows) (CHR ''x''))"
  proof (rule injI)
    fix rows rows' assume "replicate (?n rows) (CHR ''x'') = replicate (?n rows') (CHR ''x'')"
    then have "?n rows = ?n rows'" by (simp add: replicate_eq_replicate)
    then have "map row_tuple rows = map row_tuple rows'" by (rule injD [OF inj_to_nat])
    then show "rows = rows'" by (rule map_injective [OF _ row_tuple_inj])
  qed
  then have "Hilbert_Choice.inv (\<lambda>rows. replicate (?n rows) (CHR ''x'')) (replicate (?n rows) (CHR ''x'')) = rows" for rows
    by (rule inv_f_f)
  then show ?thesis by (intro exI allI)
qed

definition demo_time :: "string \<Rightarrow> time option" where
  "demo_time s = map_of [(''1970-01-01T00:00:00Z'', 0), (''1970-01-01T01:00:00Z'', 3600000000000)] s"

definition demo_reports :: "memory_store report_store" where
  "demo_reports = \<lparr>store_query = mem_Query (\<lambda>rs. rs), store_lag = mem_FreshnessLag 0\<rparr>"

lemma report_tool_reads_store_witness:
  "\<exists>C. fst (GetFlowAccuracyReportForTest (Some (NewReportsRESTClient C ''http://reports:8080''))
       \<lparr>fq_from = ''1970-01-01T00:00:00Z'', fq_to = ''1970-01-01T01:00:00Z'', fq_sku = ''A&B=50%'', fq_binId = '''',
        fq_granularity = ''''\<rparr>
       (snd (mem_ApplyStockReceived ''e2'' ''A'' 7 9 (snd (mem_ApplyStockReceived ''e1'' ''A&B=50%'' 5 9 NewMemoryStore))))) =
     Inr [\<lparr>fv_sku = ''A&B=50%'', fv_binId = '''', fv_hourBucket = 0, fv_receivedQuantity = 5, fv_stowedCount = 0,
       fv_pickedQuantity = 0, fv_reservationsCreated = 0, fv_reservationsExpired = 0, fv_reservationsRevoked = 0,
       fv_cycleCountsCompleted = 0, fv_discrepanciesDetected = 0, fv_unlocatedCount = 0\<rparr>]"
proof -
  obtain e :: "flowAccuracyRowDTO list \<Rightarrow> string" and d where ed: "\<forall>rows. d (e rows) = rows" using demo_rows by (elim exE)
  let ?K = "\<lparr>dec_receive = \<lambda>_. Inl '''', dec_stow = \<lambda>_. Inl '''', dec_reserve = \<lambda>_. Inl '''', dec_count = \<lambda>_. Inl '''',
    dec_register = \<lambda>_. Inl '''', dec_classify = \<lambda>_. Inl '''',
    enc = \<lambda>b. (case b of Report_body rows \<Rightarrow> e rows | _ \<Rightarrow> '''')\<rparr>"
  let ?nf = "\<lparr>rs_status = 404, rs_headers = [], rs_body = ''''\<rparr>"
  let ?service = "NewReportsRouter ?K demo_time demo_reports ?nf"
  let ?url = "''http://reports:8080''"
  let ?q = "\<lparr>fq_from = ''1970-01-01T00:00:00Z'', fq_to = ''1970-01-01T01:00:00Z'', fq_sku = ''A&B=50%'',
    fq_binId = '''', fq_granularity = ''''\<rparr>"
  let ?w = "snd (mem_ApplyStockReceived ''e2'' ''A'' 7 9 (snd (mem_ApplyStockReceived ''e1'' ''A&B=50%'' 5 9 NewMemoryStore)))"
  let ?rq = "\<lparr>q_from = 0, q_to = 3600000000000, q_sku = ''A&B=50%'', q_bin = '''', q_granularity = GranularityHour\<rparr>"
  let ?C = "\<lparr>hc_new = (\<lambda>_. None),
    hc_do = (\<lambda>url w. case ?service \<lparr>rp_path = ''/reports/flow-accuracy'', rp_rawQuery = drop 42 url\<rparr> w of (resp, w') \<Rightarrow> (Inr resp, w')),
    hc_report = (\<lambda>s. Inr (map to_FlowAccuracyRowView (d s))), hc_lag = (\<lambda>_. Inr 0)\<rparr>"
  have "served_at ?C ?url ?service" by (simp add: served_at_def)
  moreover have "rows_round_trip ?K ?C" by (simp add: rows_round_trip_def ed)
  moreover have "demo_time (fq_from ?q) = Some 0" "demo_time (fq_to ?q) = Some 3600000000000"
    by (simp_all add: demo_time_def)
  ultimately have tool: "GetFlowAccuracyReportForTest (Some (NewReportsRESTClient ?C ?url)) ?q ?w =
      (case store_query demo_reports ?rq ?w of
         (Inr rows, w') \<Rightarrow> (Inr (map (to_FlowAccuracyRowView \<circ> to_flowAccuracyRowDTO) rows), w')
       | (Inl e, w') \<Rightarrow> (Inl (InfraErr ''reports client: unexpected status 500''), w'))"
    by (subst report_tool_reads_store [where K = ?K and ?rfc3339.0 = demo_time and Store = demo_reports and not_found = ?nf]) simp_all
  have "fst (store_query demo_reports ?rq ?w) =
      Inr [\<lparr>row_key = (''A&B=50%'', '''', 0), row_totals = zero_totals\<lparr>receivedQuantity := 5\<rparr>\<rparr>]" by code_simp
  then show ?thesis
    by (intro exI [of _ ?C], unfold tool)
      (auto simp add: to_FlowAccuracyRowView_def to_flowAccuracyRowDTO_def zero_totals_def timeFormat_def split: prod.split)
qed

end
