(* ===== verification/Mcp.thy ===== *)
theory Mcp
  imports Demo Reports Publishers
begin

text \<open>
  internal/adapters/inbound/mcp and its composition root cmd/mcp: the tools and the resource that the MCP
  server offers over the use cases. The MCP SDK, which decodes the arguments of a call and encodes its
  result, is not modelled; a tool that is not registered has no result.
\<close>

section \<open>The tools\<close>

record 'w mcp_deps =
  d_ports :: "'w ports"
  d_reports :: "'w ReportsClient option"

record check_availability_output =
  cao_sku :: string
  cao_usable :: int

record bin_occupancy_line =
  ol_stockUnitId :: string
  ol_sku :: string
  ol_onHand :: int
  ol_reserved :: int
  ol_usable :: int
  ol_state :: string

record bin_occupancy =
  bo_binId :: string
  bo_unitCount :: int
  bo_onHand :: int
  bo_reserved :: int
  bo_usable :: int
  bo_lines :: "bin_occupancy_line list"

definition checkAvailability :: "'w mcp_deps \<Rightarrow> string \<Rightarrow> ('w, err, check_availability_output) prog" where
  "checkAvailability D s =
     andthen (lift (NewSKU s)) (\<lambda>sk.
     andthen (GetUsable_Execute (d_ports D) sk) (\<lambda>usable.
     ret \<lparr>cao_sku = ui_sku usable, cao_usable = ui_usable usable\<rparr>))"

definition occupancy_step :: "bin_occupancy \<Rightarrow> stock_unit \<Rightarrow> bin_occupancy" where
  "occupancy_step occ u =
     occ\<lparr>bo_onHand := wrap64 (bo_onHand occ + u_quantity u),
         bo_reserved := wrap64 (bo_reserved occ + u_reserved u),
         bo_usable := wrap64 (bo_usable occ + Usable u),
         bo_lines := bo_lines occ @ [\<lparr>ol_stockUnitId = u_id u, ol_sku = u_sku u, ol_onHand = u_quantity u,
           ol_reserved = u_reserved u, ol_usable = Usable u, ol_state = u_state u\<rparr>]\<rparr>"

definition toBinOccupancy :: "string \<Rightarrow> stock_unit list \<Rightarrow> bin_occupancy" where
  "toBinOccupancy b us =
     foldl occupancy_step \<lparr>bo_binId = b, bo_unitCount = int (length us), bo_onHand = 0, bo_reserved = 0, bo_usable = 0,
       bo_lines = []\<rparr> us"

definition getBinOccupancy :: "'w mcp_deps \<Rightarrow> string \<Rightarrow> ('w, err, bin_occupancy) prog" where
  "getBinOccupancy D s =
     andthen (lift (NewBinId s)) (\<lambda>binID.
     andthen (sr_find_bin (p_stock (d_ports D)) binID) (\<lambda>us.
     ret (toBinOccupancy binID us)))"

text \<open>The identifier, which the tool returns with \<open>Revoked: true\<close>.\<close>

definition revokeReservation :: "'w mcp_deps \<Rightarrow> string \<Rightarrow> ('w, err, string \<times> bool) prog" where
  "revokeReservation D ident =
     (if ident = '''' then throw (InfraErr ''reservationId is required'')
      else andthen (RevokeReservation_Execute (d_ports D) ident) (\<lambda>_. ret (ident, True)))"

definition getFlowAccuracyReport :: "'w mcp_deps \<Rightarrow> FlowAccuracyQuery \<Rightarrow> ('w, err, FlowAccuracyRowView list) prog" where
  "getFlowAccuracyReport D = GetFlowAccuracyReportForTest (d_reports D)"

datatype tool_input =
  Check_availability string | Get_bin_occupancy string | Revoke_tool string | Flow_report FlowAccuracyQuery

datatype tool_output =
  Availability check_availability_output | Occupancy bin_occupancy | Revoked_output "string \<times> bool"
| Report_output "FlowAccuracyRowView list"

text \<open>The registered tools, with their \<open>ReadOnlyHint\<close>.\<close>

definition registerReportTool :: "'w mcp_deps \<Rightarrow> (string \<times> bool) list" where
  "registerReportTool D = (case d_reports D of None \<Rightarrow> [] | Some _ \<Rightarrow> [(''get_inventory_flow_accuracy_report'', True)])"

definition registerTools :: "'w mcp_deps \<Rightarrow> (string \<times> bool) list" where
  "registerTools D =
     [(''check_availability'', True), (''get_bin_occupancy'', True), (''revoke_reservation'', False)]
     @ registerReportTool D"

fun tool_name :: "tool_input \<Rightarrow> string" where
  "tool_name (Check_availability _) = ''check_availability''"
| "tool_name (Get_bin_occupancy _) = ''get_bin_occupancy''"
| "tool_name (Revoke_tool _) = ''revoke_reservation''"
| "tool_name (Flow_report _) = ''get_inventory_flow_accuracy_report''"

definition tool_result :: "('a \<Rightarrow> tool_output) \<Rightarrow> ('w, err, 'a) prog \<Rightarrow> ('w, err, tool_output) prog" where
  "tool_result f m = andthen m (\<lambda>x. ret (f x))"

fun handle_tool :: "'w mcp_deps \<Rightarrow> tool_input \<Rightarrow> ('w, err, tool_output) prog" where
  "handle_tool D (Check_availability s) = tool_result Availability (checkAvailability D s)"
| "handle_tool D (Get_bin_occupancy s) = tool_result Occupancy (getBinOccupancy D s)"
| "handle_tool D (Revoke_tool i) = tool_result Revoked_output (revokeReservation D i)"
| "handle_tool D (Flow_report q) = tool_result Report_output (getFlowAccuracyReport D q)"

definition call_tool :: "'w mcp_deps \<Rightarrow> tool_input \<Rightarrow> ('w, err, tool_output) prog option" where
  "call_tool D c = (if tool_name c \<in> fst ` set (registerTools D) then Some (handle_tool D c) else None)"

section \<open>The resource\<close>

definition usableResourceScheme :: string where "usableResourceScheme = ''inventory://''"
definition usableResourceSuffix :: string where "usableResourceSuffix = ''/usable''"

definition HasPrefix :: "string \<Rightarrow> string \<Rightarrow> bool" where "HasPrefix s p \<longleftrightarrow> take (length p) s = p"
definition HasSuffix :: "string \<Rightarrow> string \<Rightarrow> bool" where "HasSuffix s p \<longleftrightarrow> HasPrefix (rev s) (rev p)"
definition TrimPrefix :: "string \<Rightarrow> string \<Rightarrow> string" where
  "TrimPrefix s p = (if HasPrefix s p then drop (length p) s else s)"
definition TrimSuffix :: "string \<Rightarrow> string \<Rightarrow> string" where
  "TrimSuffix s p = (if HasSuffix s p then take (length s - length p) s else s)"

definition parseUsableURI :: "string \<Rightarrow> string result" where
  "parseUsableURI uri =
     (if \<not> HasPrefix uri usableResourceScheme \<or> \<not> HasSuffix uri usableResourceSuffix
        then Inl (InfraErr ''unrecognized resource uri'')
      else let sk = TrimSuffix (TrimPrefix uri usableResourceScheme) usableResourceSuffix
        in if sk = '''' then Inl (InfraErr ''resource uri has an empty sku'') else Inr sk)"

text \<open>The URI of the result, and what its JSON holds.\<close>

definition read_usable_resource :: "'w mcp_deps \<Rightarrow> string \<Rightarrow> ('w, err, string \<times> check_availability_output) prog" where
  "read_usable_resource D uri =
     andthen (lift (parseUsableURI uri)) (\<lambda>skuValue.
     andthen (lift (NewSKU skuValue)) (\<lambda>sk.
     andthen (GetUsable_Execute (d_ports D) sk) (\<lambda>usable.
     ret (uri, \<lparr>cao_sku = ui_sku usable, cao_usable = ui_usable usable\<rparr>))))"

section \<open>What cmd/mcp wires\<close>

text \<open>
  The repositories of Postgres, a clock, and a publisher that logs; the use cases get no unit of work and no
  metrics, and the tools use none of the other ports. The log is not part of the world; \<open>marshal\<close> is what
  encoding/json makes of an event.
\<close>

definition mcp_ports :: "(domain_event \<Rightarrow> string result) \<Rightarrow> pg_env \<Rightarrow> pg_world ports" where
  "mcp_ports marshal E = (pg_ports E 0)
     \<lparr>p_publish := LogPublisher_Publish marshal (\<lambda>name payload w. w),
      p_classifications := None, p_lookup := None, p_uow := None, p_metrics := None\<rparr>"

definition mcp_server ::
  "(domain_event \<Rightarrow> string result) \<Rightarrow> pg_env \<Rightarrow> pg_world ReportsClient option \<Rightarrow> pg_world mcp_deps" where
  "mcp_server marshal E reports = \<lparr>d_ports = mcp_ports marshal E, d_reports = reports\<rparr>"

end
