(* ===== verification/McpProofs.thy ===== *)
theory McpProofs
  imports Mcp Preserves
begin

text \<open>
  What the MCP server promises: the resource URIs, the figures of its read tools, and what a revocation
  through it does and does not do.
\<close>

section \<open>Resource URIs\<close>

lemma HasPrefix_iff: "HasPrefix s p \<longleftrightarrow> (\<exists>r. s = p @ r)"
  unfolding HasPrefix_def by (metis append_eq_conv_conj append_take_drop_id)

lemma HasSuffix_iff: "HasSuffix s p \<longleftrightarrow> (\<exists>r. s = r @ p)"
  unfolding HasSuffix_def HasPrefix_iff by (metis rev_append rev_rev_ident)

lemma TrimPrefix_append [simp]: "TrimPrefix (p @ r) p = r"
  by (auto simp: TrimPrefix_def HasPrefix_iff)

lemma TrimSuffix_append [simp]: "TrimSuffix (r @ p) p = r"
  by (auto simp: TrimSuffix_def HasSuffix_iff)

text \<open>The scheme and the suffix may share the slash between them, and nothing else.\<close>

lemma shared_slash:
  assumes "usableResourceScheme @ r = q @ usableResourceSuffix" "\<not> HasSuffix r usableResourceSuffix"
  shows "r = ''usable''"
proof -
  obtain us where us: "usableResourceScheme = q @ us" "us @ r = usableResourceSuffix"
    using assms by (auto simp: append_eq_append_conv2 HasSuffix_iff)
  define n where "n = length us"
  have "length us + length r = 7" using arg_cong [OF us(2), of length] by (simp add: usableResourceSuffix_def)
  then have n: "us = take n usableResourceSuffix" "r = drop n usableResourceSuffix" "n \<le> 7"
    using us(2) by (auto simp: n_def append_eq_conv_conj)
  have "rev us @ rev q = rev usableResourceScheme" unfolding us(1) by simp
  then have "n = 1 \<or> n = 0"
    using n(1,3) by (auto simp: usableResourceSuffix_def usableResourceScheme_def le_Suc_eq numeral_eq_Suc)
  then show ?thesis
    using n(2) assms(2) by (auto simp: usableResourceSuffix_def HasSuffix_iff)
qed

text \<open>
  The resource URI of a SKU is read back as that SKU, slashes in it included, and no other string is
  accepted, with one exception: \<open>inventory://usable\<close>, where the scheme and the suffix share a slash, is read
  as the SKU \<open>usable\<close>.
\<close>

theorem usable_uri_round_trip:
  "parseUsableURI uri = Inr sk \<longleftrightarrow>
     sk \<noteq> '''' \<and> uri = ''inventory://'' @ sk @ ''/usable'' \<or> uri = ''inventory://usable'' \<and> sk = ''usable''"
proof
  assume p: "parseUsableURI uri = Inr sk"
  then have "HasPrefix uri usableResourceScheme" "HasSuffix uri usableResourceSuffix"
    by (auto simp: parseUsableURI_def split: if_splits)
  then obtain r q where r: "uri = usableResourceScheme @ r" and q: "uri = q @ usableResourceSuffix"
    unfolding HasPrefix_iff HasSuffix_iff by (elim exE)
  have sk: "sk = TrimSuffix r usableResourceSuffix" "sk \<noteq> ''''"
    using p r by (auto simp: parseUsableURI_def Let_def split: if_splits)
  show "sk \<noteq> '''' \<and> uri = ''inventory://'' @ sk @ ''/usable'' \<or> uri = ''inventory://usable'' \<and> sk = ''usable''"
  proof (cases "HasSuffix r usableResourceSuffix")
    case True
    then show ?thesis using r sk by (auto simp: HasSuffix_iff usableResourceScheme_def usableResourceSuffix_def)
  next
    case False
    then have "r = ''usable''" using shared_slash r q by metis
    then show ?thesis using r sk False by (simp add: TrimSuffix_def usableResourceScheme_def)
  qed
next
  assume "sk \<noteq> '''' \<and> uri = ''inventory://'' @ sk @ ''/usable'' \<or> uri = ''inventory://usable'' \<and> sk = ''usable''"
  then show "parseUsableURI uri = Inr sk"
  proof
    assume a: "sk \<noteq> '''' \<and> uri = ''inventory://'' @ sk @ ''/usable''"
    then have u: "uri = usableResourceScheme @ sk @ usableResourceSuffix"
      by (simp add: usableResourceScheme_def usableResourceSuffix_def)
    then have "HasPrefix uri usableResourceScheme" "HasSuffix uri usableResourceSuffix"
      by (auto simp: HasPrefix_iff HasSuffix_iff)
    moreover have "TrimSuffix (TrimPrefix uri usableResourceScheme) usableResourceSuffix = sk" by (simp only: u TrimPrefix_append TrimSuffix_append)
    ultimately show ?thesis using a by (simp add: parseUsableURI_def)
  next
    have "parseUsableURI ''inventory://usable'' = Inr ''usable''" by code_simp
    then show "uri = ''inventory://usable'' \<and> sk = ''usable'' \<Longrightarrow> parseUsableURI uri = Inr sk" by simp
  qed
qed

section \<open>The figures of a bin\<close>




lemma mcp_ports_sel [simp]:
  "p_stock (mcp_ports marshal E) = p_stock (pg_ports E 0)"
  "p_reservations (mcp_ports marshal E) = p_reservations (pg_ports E 0)"
  "p_now (mcp_ports marshal E) = p_now (pg_ports E 0)" "p_uow (mcp_ports marshal E) = None"
  "p_metrics (mcp_ports marshal E) = None"
  "p_publish (mcp_ports marshal E) = LogPublisher_Publish marshal (\<lambda>name payload w. w)"
  by (simp_all add: mcp_ports_def)

lemma mcp_repos:
  "sr_save (p_stock (mcp_ports marshal E)) = StockRepo_Save E"
  "sr_find (p_stock (mcp_ports marshal E)) = StockRepo_FindByID E"
  "sr_find_sku (p_stock (mcp_ports marshal E)) = StockRepo_FindBySKU E"
  "sr_find_bin (p_stock (mcp_ports marshal E)) = StockRepo_FindByBin E"
  "rr_save (p_reservations (mcp_ports marshal E)) = ReservationRepo_Save E"
  "rr_find (p_reservations (mcp_ports marshal E)) = ReservationRepo_FindByID E"
  by (simp_all add: pg_ports_def)

lemmas mcp_sel = mcp_repos mcp_ports_sel(4,6)

lemma mcp_server_sel [simp]: "d_ports (mcp_server marshal E reports) = mcp_ports marshal E"
  by (simp add: mcp_server_def)


section \<open>What the tools leave alone\<close>

lemma quiet_publish: "preserves same_outbox (LogPublisher_Publish marshal (\<lambda>name payload w. w) e)"
  unfolding LogPublisher_Publish_def by (intro quiet_rules) (simp add: preserves_def)

lemma quiet_now: "preserves same_outbox (now (mcp_ports marshal E))"
  by (simp add: preserves_def same_outbox_def stored_part_def now_def pg_ports_def next_tick_def)

lemmas quiet_mcp = quiet_publish quiet_now

lemma quiet_revoke: "preserves same_outbox (RevokeReservation_Execute (mcp_ports marshal E) i)"
proof -
  have release: "preserves same_outbox (releaseAllocations (mcp_ports marshal E) res)" for res
    unfolding releaseAllocations_def release_one_def mcp_sel by (intro quiet_rules quiet_mcp)
  have due: "preserves same_outbox (expireIfDue (mcp_ports marshal E) res)" for res
    unfolding expireIfDue_def expire_scope_def atomically_def mcp_sel option.case
    by (intro quiet_rules quiet_mcp release)
  have metric: "preserves same_outbox (revoked_metric (mcp_ports marshal E))"
    by (simp add: preserves_def revoked_metric_def)
  show ?thesis
    unfolding RevokeReservation_Execute_def revoke_scope_def uncaptured_def atomically_def mcp_sel option.case
    by (intro quiet_rules quiet_mcp release due metric)
qed

text \<open>
  No tool of the MCP server ever enqueues an event: whatever it is called with and whatever fails, the
  outbox is as before, so a reservation that was revoked through the server is not announced to anyone.
\<close>

theorem tools_announce_nothing:
  assumes "\<And>c q. reports = Some c \<Longrightarrow> preserves same_outbox (rc_flow c q)"
  shows "outbox (snd (handle_tool (mcp_server marshal E reports) call w)) = outbox w"
proof -
  have "preserves same_outbox (getFlowAccuracyReport (mcp_server marshal E reports) q)" for q
    unfolding getFlowAccuracyReport_def GetFlowAccuracyReportForTest_def mcp_server_def
    using assms by (auto intro: quiet_rules quiet_mcp split: option.split)
  moreover have "preserves same_outbox (checkAvailability (mcp_server marshal E reports) s)" for s
    unfolding checkAvailability_def GetUsable_Execute_def mcp_server_sel mcp_sel by (intro quiet_rules quiet_mcp)
  moreover have "preserves same_outbox (getBinOccupancy (mcp_server marshal E reports) s)" for s
    unfolding getBinOccupancy_def mcp_server_sel mcp_sel by (intro quiet_rules quiet_mcp)
  moreover have "preserves same_outbox (revokeReservation (mcp_server marshal E reports) s)" for s
    unfolding revokeReservation_def mcp_server_sel by (intro quiet_rules quiet_revoke)
  ultimately have "preserves same_outbox (handle_tool (mcp_server marshal E reports) call)"
    by (cases call) (auto simp: tool_result_def intro: quiet_rules quiet_mcp)
  then show ?thesis by (simp add: preserves_def same_outbox_def stored_part_def)
qed

lemma tools_announce_nothing_witness:
  "outbox (snd (handle_tool (mcp_server (\<lambda>_. Inr '''') demo_env None) (Revoke_tool ''res-x'') demo_reserved)) = outbox demo_reserved"
  by (rule tools_announce_nothing) simp





end
