(* ===== verification/Access.thy ===== *)
theory Access
  imports Idempotency BootProofs Publishers
begin

text \<open>
  What stands around the handlers: the middleware of the API that logs requests and lets browsers in from other
  origins (internal/adapters/inbound/http/logging.go and server.go), and the small routers of cmd/mcp and
  cmd/inventory-projector.
\<close>

section \<open>The request log\<close>

text \<open>A line of the log without the duration. The request id is that of chi.\<close>

record log_line =
  ll_level :: log_level
  ll_method :: string
  ll_path :: string
  ll_status :: int
  ll_bytes :: nat
  ll_request_id :: string

definition RequestLogger ::
  "(request \<Rightarrow> 'w \<Rightarrow> response \<times> 'w) \<Rightarrow> string \<Rightarrow> request \<Rightarrow> 'w \<times> log_line list \<Rightarrow> response \<times> 'w \<times> log_line list" where
  "RequestLogger next_handler reqID r = (\<lambda>(w, ls).
     let (resp, w') = next_handler r w in
     (resp, w', ls @ [\<lparr>ll_level = (if rs_status resp \<ge> 500 then LevelError else LevelInfo), ll_method = rq_method r,
        ll_path = sanitizeForLog (rq_path r), ll_status = rs_status resp, ll_bytes = length (rs_body resp),
        ll_request_id = reqID\<rparr>]))"

text \<open>The requests of a service one after the other, each with its id.\<close>

fun logged_requests ::
  "(request \<Rightarrow> 'w \<Rightarrow> response \<times> 'w) \<Rightarrow> (string \<times> request) list \<Rightarrow> 'w \<times> log_line list \<Rightarrow> response list \<times> 'w \<times> log_line list" where
  "logged_requests h [] s = ([], s)"
| "logged_requests h ((i, r) # rs) s =
     (case RequestLogger h i r s of (resp, s1) \<Rightarrow> case logged_requests h rs s1 of (resps, s2) \<Rightarrow> (resp # resps, s2))"

lemma sanitized: "char_of (10 :: nat) \<notin> set (sanitizeForLog s) \<and> char_of (13 :: nat) \<notin> set (sanitizeForLog s)"
  by (auto simp: sanitizeForLog_def)

text \<open>
  Every request leaves one line, in order and whatever its path is made of: no line break of a path gets into the
  log, and the lines at level error are those of the answers with a status of 500 or more.
\<close>

theorem one_line_per_request:
  "logged_requests h rs (w, ls) = (resps, w', ls') \<Longrightarrow>
     \<exists>new. ls' = ls @ new \<and> length resps = length rs \<and> map ll_status new = map rs_status resps \<and>
       map ll_request_id new = map fst rs \<and> (\<forall>l \<in> set new. char_of (10 :: nat) \<notin> set (ll_path l)) \<and>
       map (\<lambda>l. ll_level l = LevelError) new = map (\<lambda>resp. rs_status resp \<ge> 500) resps"
proof (induction rs arbitrary: w ls resps w' ls')
  case (Cons ir rs)
  obtain i r where ir: "ir = (i, r)" by force
  obtain resp w1 where h: "h r w = (resp, w1)" by force
  obtain resps' where r: "resps = resp # resps'" and
    n: "logged_requests h rs (w1, ls @ [\<lparr>ll_level = (if rs_status resp \<ge> 500 then LevelError else LevelInfo),
       ll_method = rq_method r, ll_path = sanitizeForLog (rq_path r), ll_status = rs_status resp,
       ll_bytes = length (rs_body resp), ll_request_id = i\<rparr>]) = (resps', w', ls')"
    using Cons.prems by (auto simp: ir h RequestLogger_def split: prod.splits)
  from Cons.IH [OF n] show ?case using sanitized by (auto simp: r ir)
qed simp

section \<open>Requests from browsers\<close>

record cors_options =
  co_origins :: "string list"
  co_methods :: "string list"
  co_headers :: "string list"
  co_credentials :: bool

definition defaultCORSAllowedOrigins :: string where
  "defaultCORSAllowedOrigins = ''http://localhost:5173,http://localhost:5182''"

text \<open>\<open>strings.TrimSpace\<close> on ASCII.\<close>

definition is_space :: "char \<Rightarrow> bool" where
  "is_space c \<longleftrightarrow> c \<in> set (map char_of [9, 10, 11, 12, 13, 32 :: nat])"

definition TrimSpace :: "string \<Rightarrow> string" where
  "TrimSpace s = rev (dropWhile is_space (rev (dropWhile is_space s)))"

definition corsAllowedOrigins :: "boot_env \<Rightarrow> string list" where
  "corsAllowedOrigins V =
     map TrimSpace (split_at (CHR '','') (getenv V ''CORS_ALLOWED_ORIGINS'' defaultCORSAllowedOrigins))"

definition corsOptions :: "boot_env \<Rightarrow> cors_options" where
  "corsOptions V = \<lparr>co_origins = corsAllowedOrigins V, co_methods = [''GET'', ''POST'', ''PUT'', ''DELETE''],
     co_headers = [''Accept'', ''Content-Type'', ''Authorization''], co_credentials = False\<rparr>"

text \<open>
  A request that a page of another origin makes. The browser first asks with a preflight whether it may be sent,
  naming in lower case the headers the page has set. \<open>cors\<close>, which answers the preflight, is the cors package; it
  is documented to refuse one that asks for a header other than \<open>Origin\<close> which is not among the allowed ones.
\<close>

record fetch =
  fe_origin :: string
  fe_headers :: "(string \<times> string) list"
  fe_request :: request

record preflight =
  pf_origin :: string
  pf_method :: string
  pf_headers :: "string list"

definition preflight_of :: "fetch \<Rightarrow> preflight" where
  "preflight_of f = \<lparr>pf_origin = fe_origin f, pf_method = rq_method (fe_request f),
     pf_headers = map (\<lambda>h. map fold_char (fst h)) (fe_headers f)\<rparr>"

definition cors_documented :: "(cors_options \<Rightarrow> preflight \<Rightarrow> bool) \<Rightarrow> bool" where
  "cors_documented cors \<longleftrightarrow> (\<forall>opts p h. cors opts p \<and> ''*'' \<notin> set (co_headers opts) \<and> h \<in> set (pf_headers p) \<longrightarrow>
     h = ''origin'' \<or> h \<in> set (map (map fold_char) (co_headers opts)))"

text \<open>
  What the browser sends: what the preflight allows, and without asking a request that has no other headers than
  those the Fetch standard lets through.
\<close>

definition safelisted :: "string list" where
  "safelisted = [''accept'', ''accept-language'', ''content-language'', ''content-type'', ''range'']"

definition browser_sends :: "(cors_options \<Rightarrow> preflight \<Rightarrow> bool) \<Rightarrow> cors_options \<Rightarrow> fetch \<Rightarrow> bool" where
  "browser_sends cors opts f \<longleftrightarrow> cors opts (preflight_of f) \<or> set (pf_headers (preflight_of f)) \<subseteq> set safelisted"

text \<open>The request as the API sees it: the middleware reads one header, whatever the case of its name.\<close>

definition fetched :: "fetch \<Rightarrow> request" where
  "fetched f = (fe_request f)\<lparr>rq_key :=
     (case List.find (\<lambda>h. map fold_char (fst h) = ''idempotency-key'') (fe_headers f) of None \<Rightarrow> '''' | Some h \<Rightarrow> snd h)\<rparr>"

section \<open>The routers of the other processes\<close>

text \<open>The body of their health checks, and the answer of net/http when no pattern matches.\<close>

definition ok_body :: string where
  "ok_body = [CHR 0x7B, CHR 0x22] @ ''status'' @ [CHR 0x22, CHR 0x3A, CHR 0x22] @ ''ok'' @ [CHR 0x22, CHR 0x7D]"

definition not_found :: response where
  "not_found = \<lparr>rs_status = 404, rs_headers = [(''Content-Type'', ''text/plain; charset=utf-8'')],
     rs_body = ''404 page not found'' @ [char_of (10 :: nat)]\<rparr>"

text \<open>
  The three patterns without a method go to the same handler and \<open>/\<close> matches every path, for paths that
  net/http need not clean first.
\<close>

definition newRouter :: "(request \<Rightarrow> 'w \<Rightarrow> response \<times> 'w) \<Rightarrow> request \<Rightarrow> 'w \<Rightarrow> response \<times> 'w" where
  "newRouter mcpHandler r w =
     (if rq_path r = ''/healthz'' \<and> rq_method r \<in> {''GET'', ''HEAD''} then
        (\<lparr>rs_status = 200, rs_headers = [(''Content-Type'', ''application/json'')], rs_body = ok_body\<rparr>, w)
      else mcpHandler r w)"

definition newAdminServer :: "boot_env \<Rightarrow> string \<times> (request \<Rightarrow> response)" where
  "newAdminServer V = (getenv V ''ADMIN_ADDR'' '':8091'',
     \<lambda>r. if rq_path r = ''/healthz'' then \<lparr>rs_status = 200, rs_headers = [], rs_body = ok_body\<rparr> else not_found)"

section \<open>Properties\<close>

text \<open>
  C23. A page of another origin cannot create anything over Postgres, whatever origins are allowed: when it sets the
  \<open>Idempotency-Key\<close> that a creation requires, the browser is told not to send the request, and when it does not,
  the API answers with status 400 and does nothing.
\<close>

theorem browsers_cannot_create:
  assumes "cors_documented cors" "routed chi (fetched f) = Some E_receive \<or> routed chi (fetched f) = Some E_reserve"
    and "browser_sends cors (corsOptions V) f"
  shows "\<exists>resp. api E K R chi t g (fetched f) w = Some (resp, w) \<and> rs_status resp = 400"
proof -
  have "''idempotency-key'' \<notin> set (pf_headers (preflight_of f))"
  proof
    assume k: "''idempotency-key'' \<in> set (pf_headers (preflight_of f))"
    have "''idempotency-key'' \<notin> set safelisted" by (simp add: safelisted_def)
    then have "cors (corsOptions V) (preflight_of f)" using assms(3) k unfolding browser_sends_def by blast
    moreover have "''*'' \<notin> set (co_headers (corsOptions V))" by (simp add: corsOptions_def)
    ultimately have "''idempotency-key'' = ''origin'' \<or> ''idempotency-key'' \<in> set (map (map fold_char) (co_headers (corsOptions V)))"
      using assms(1) k unfolding cors_documented_def by blast
    moreover have "map (map fold_char) (co_headers (corsOptions V)) = [''accept'', ''content-type'', ''authorization'']"
      unfolding corsOptions_def by simp code_simp
    ultimately show False by simp
  qed
  then have "List.find (\<lambda>h. map fold_char (fst h) = ''idempotency-key'') (fe_headers f) = None"
    unfolding preflight_of_def preflight.select_convs set_map find_None_iff image_iff by metis
  then have "rq_key (fetched f) = ''''" by (simp add: fetched_def)
  then have m: "\<exists>resp. RequireIdempotencyKey E K R h (fetched f) w = (resp, w) \<and> rs_status resp = 400" for h
    by (simp add: RequireIdempotencyKey_def writeProblem_def)
  from assms(2) obtain e where "routed chi (fetched f) = Some e" "e \<in> {E_receive, E_reserve}" by blast
  then have "api E K R chi t g (fetched f) w =
      Some (RequireIdempotencyKey E K R (serve (endpoint_handler K (pg_ports E t) (pg_classifications E) g e)) (fetched f) w)"
    unfolding api_def NewRouter_def Let_def by simp
  with m show ?thesis by metis
qed

text \<open>A cors package that goes by the list, and a page that sends what it may.\<close>

definition demo_cors :: "cors_options \<Rightarrow> preflight \<Rightarrow> bool" where
  "demo_cors opts p \<longleftrightarrow> pf_origin p \<in> set (co_origins opts) \<and> pf_method p \<in> set (co_methods opts) \<and>
     list_all (\<lambda>h. h \<in> set (map (map fold_char) (co_headers opts))) (pf_headers p)"

definition demo_fetch :: fetch where
  "demo_fetch = \<lparr>fe_origin = ''http://localhost:5173'', fe_headers = [(''Content-Type'', ''application/json'')],
     fe_request = post ''/reservations'' '''' ''b''\<rparr>"

lemma browsers_cannot_create_witness:
  "\<exists>resp. api demo_env demo_codec demo_reader demo_chi 0 None (fetched demo_fetch) demo_stocked = Some (resp, demo_stocked) \<and>
     rs_status resp = 400 \<and> demo_cors (corsOptions (demo_boot ''log'')) (preflight_of demo_fetch)"
proof -
  have d: "cors_documented demo_cors" by (auto simp: cors_documented_def demo_cors_def list_all_iff)
  have r: "routed demo_chi (fetched demo_fetch) = Some E_receive \<or> routed demo_chi (fetched demo_fetch) = Some E_reserve"
    by code_simp
  have c: "demo_cors (corsOptions (demo_boot ''log'')) (preflight_of demo_fetch)" by code_simp
  then have "browser_sends demo_cors (corsOptions (demo_boot ''log'')) demo_fetch" by (simp add: browser_sends_def)
  from browsers_cannot_create [OF d r this] c show ?thesis by blast
qed

end
