(* ===== verification/Serving.thy ===== *)
theory Serving
  imports BootProofs
begin

text \<open>
  How a process serves and how it stops: \<open>serveHTTPUntilSignal\<close> and the deferred calls of \<open>run\<close> in
  cmd/inventory, and their counterparts in cmd/mcp, cmd/inventory-reports and cmd/inventory-projector. The main
  goroutine works through a list of tasks, and its steps interleave with those of the requests and of the
  background goroutines. A wait has a deadline, which may pass at any time: how long it is makes no difference
  to the order of things. Closing a listener, a reader, a writer or a pool and flushing the telemetry take effect
  whatever they return; their errors are logged at most, and the exit error is that of the listener or of the
  drain.
\<close>

section \<open>Goroutines, resources and tasks\<close>

datatype worker = Lookup_run | Relay_run | Analytics_run
datatype resource = Lookup_reader | Relay_sink | Kafka_writers | Pool | Analytics_reader

datatype task =
  Flip_not_ready | Close_listener | Drain | Cancel worker | Await worker | Close resource | Flush_telemetry

text \<open>What the background goroutines and the handlers of requests work with.\<close>

fun uses :: "worker \<Rightarrow> resource set" where
  "uses Lookup_run = {Lookup_reader}"
| "uses Relay_run = {Pool, Relay_sink}"
| "uses Analytics_run = {Analytics_reader, Pool}"

definition request_uses :: "resource set" where
  "request_uses = {Pool, Kafka_writers}"

datatype wake = Signalled | Listen_failed err

text \<open>
  What each process does once it is woken, the deferred calls of \<open>run\<close> last; \<open>None\<close> is a wake that it sleeps
  through. \<open>Shutdown\<close> of net/http closes the listener and waits for the requests in flight.
\<close>

type_synonym program = "wake \<Rightarrow> task list option"

definition serveHTTPUntilSignal :: "bool \<Rightarrow> wake \<Rightarrow> task list" where
  "serveHTTPUntilSignal lookupRuns k =
     (let closeLocationLookup = (if lookupRuns then [Close Lookup_reader] else []) in
      case k of
        Listen_failed _ \<Rightarrow> Cancel Lookup_run # closeLocationLookup
      | Signalled \<Rightarrow> [Flip_not_ready, Close_listener, Drain, Cancel Lookup_run] @
          (if lookupRuns then [Await Lookup_run] else []) @ closeLocationLookup)"

fun close_tasks :: "close_step \<Rightarrow> task list" where
  "close_tasks Stop_relay = [Cancel Relay_run, Await Relay_run]"
| "close_tasks Close_sink = [Close Relay_sink]"
| "close_tasks Close_writers = [Close Kafka_writers]"
| "close_tasks Close_repos = [Close Pool]"

definition inventory_program :: "bool \<Rightarrow> adapters \<Rightarrow> program" where
  "inventory_program lookupRuns a k =
     Some (serveHTTPUntilSignal lookupRuns k @ concat (map close_tasks (ad_close a)) @ [Flush_telemetry])"

definition inventory_workers :: "bool \<Rightarrow> adapters \<Rightarrow> worker set" where
  "inventory_workers lookupRuns a =
     (if lookupRuns then {Lookup_run} else {}) \<union> (if ad_relay a = None then {} else {Relay_run})"

definition serve_or_fail :: "task list \<Rightarrow> program" where
  "serve_or_fail deferred k = Some ((case k of Signalled \<Rightarrow> [Close_listener, Drain] | Listen_failed _ \<Rightarrow> []) @ deferred)"

definition mcp_program :: "repos \<Rightarrow> program" where
  "mcp_program r = serve_or_fail ((case r of Postgres_repos _ \<Rightarrow> [Close Pool] | Memory_repos \<Rightarrow> []) @ [Flush_telemetry])"

definition reports_program :: program where
  "reports_program = serve_or_fail [Close Pool, Flush_telemetry]"

definition serveUntilSignal :: "task list" where
  "serveUntilSignal = [Cancel Analytics_run, Close_listener, Drain]"

definition projector_program :: program where
  "projector_program k = (case k of
     Signalled \<Rightarrow> Some (serveUntilSignal @ [Close Analytics_reader, Close Pool, Flush_telemetry])
   | Listen_failed _ \<Rightarrow> None)"

section \<open>A process at work\<close>

record process =
  ready :: bool
  listening :: bool
  inflight :: nat
  running :: "worker set"
  asked :: "worker set"
  released :: "resource set"
  todo :: "task list"
  woken :: "wake option"
  late :: bool
  flushed :: bool
  exit_err :: "err option"

definition serving :: "worker set \<Rightarrow> process" where
  "serving W = \<lparr>ready = True, listening = True, inflight = 0, running = W, asked = {}, released = {}, todo = [],
     woken = None, late = False, flushed = False, exit_err = None\<rparr>"

definition DeadlineExceeded :: err where "DeadlineExceeded = InfraErr ''context deadline exceeded''"

text \<open>
  \<open>Next\<close> and \<open>Give_up\<close> are the steps of the main goroutine, the others those of its surroundings. The relay
  returns only when it is asked to, a consumer also when its reader fails.
\<close>

datatype event = Wake wake | Next | Give_up | Accept | Finish | Return worker

fun blocked :: "task \<Rightarrow> process \<Rightarrow> bool" where
  "blocked Drain st \<longleftrightarrow> inflight st > 0"
| "blocked (Await w) st \<longleftrightarrow> w \<in> running st"
| "blocked _ st \<longleftrightarrow> False"

fun perform :: "task \<Rightarrow> process \<Rightarrow> process" where
  "perform Flip_not_ready st = st\<lparr>ready := False\<rparr>"
| "perform Close_listener st = st\<lparr>listening := False\<rparr>"
| "perform (Cancel w) st = st\<lparr>asked := insert w (asked st)\<rparr>"
| "perform (Close r) st = st\<lparr>released := insert r (released st)\<rparr>"
| "perform Flush_telemetry st = st\<lparr>flushed := True\<rparr>"
| "perform _ st = st"

fun gave_up :: "task \<Rightarrow> process \<Rightarrow> process" where
  "gave_up Drain st = st\<lparr>late := True, exit_err := Some DeadlineExceeded\<rparr>"
| "gave_up _ st = st\<lparr>late := True\<rparr>"

fun step :: "program \<Rightarrow> event \<Rightarrow> process \<Rightarrow> process option" where
  "step P (Wake k) st =
     (if woken st \<noteq> None then None
      else
        let st' = (case k of Signalled \<Rightarrow> st | Listen_failed e \<Rightarrow> st\<lparr>listening := False\<rparr>) in
        case P k of
          None \<Rightarrow> Some st'
        | Some ts \<Rightarrow> Some (st'\<lparr>woken := Some k, todo := ts,
            exit_err := (case k of Signalled \<Rightarrow> None | Listen_failed e \<Rightarrow> Some e)\<rparr>))"
| "step P Next st = (case todo st of
     [] \<Rightarrow> None
   | t # ts \<Rightarrow> if blocked t st then None else Some (perform t (st\<lparr>todo := ts\<rparr>)))"
| "step P Give_up st = (case todo st of
     [] \<Rightarrow> None
   | t # ts \<Rightarrow> if blocked t st then Some (gave_up t (st\<lparr>todo := ts\<rparr>)) else None)"
| "step P Accept st = (if listening st then Some (st\<lparr>inflight := Suc (inflight st)\<rparr>) else None)"
| "step P Finish st = (if inflight st > 0 then Some (st\<lparr>inflight := inflight st - 1\<rparr>) else None)"
| "step P (Return w) st =
     (if w \<in> running st \<and> (w = Relay_run \<longrightarrow> w \<in> asked st) then Some (st\<lparr>running := running st - {w}\<rparr>) else None)"

inductive reaches :: "program \<Rightarrow> process \<Rightarrow> process \<Rightarrow> bool" for P where
  start: "reaches P st st"
| more: "reaches P st st1 \<Longrightarrow> step P e st1 = Some st2 \<Longrightarrow> reaches P st st2"

fun run :: "program \<Rightarrow> event list \<Rightarrow> process \<Rightarrow> process option" where
  "run P [] st = Some st"
| "run P (e # es) st = (case step P e st of None \<Rightarrow> None | Some st' \<Rightarrow> run P es st')"



text \<open>Somebody still works with a resource.\<close>

definition in_use :: "process \<Rightarrow> resource \<Rightarrow> bool" where
  "in_use st r \<longleftrightarrow> (\<exists>w \<in> running st. r \<in> uses w) \<or> (r \<in> request_uses \<and> inflight st > 0)"

section \<open>The steps, sorted\<close>

lemma perform_simps [simp]:
  "todo (perform t st) = todo st" "woken (perform t st) = woken st" "late (perform t st) = late st"
  "running (perform t st) = running st" "inflight (perform t st) = inflight st" "exit_err (perform t st) = exit_err st"
  "flushed (perform t st) \<longleftrightarrow> flushed st \<or> t = Flush_telemetry"
  "ready (perform t st) \<longleftrightarrow> ready st \<and> t \<noteq> Flip_not_ready"
  "listening (perform t st) \<longleftrightarrow> listening st \<and> t \<noteq> Close_listener"
  "released (perform t st) = released st \<union> {r. t = Close r}"
  by (cases t; auto)+

lemma gave_up_simps [simp]:
  "todo (gave_up t st) = todo st" "woken (gave_up t st) = woken st" "late (gave_up t st)"
  "flushed (gave_up t st) = flushed st" "ready (gave_up t st) = ready st" "released (gave_up t st) = released st"
  "listening (gave_up t st) = listening st"
  by (cases t; simp)+

text \<open>The steps of requests and of background goroutines.\<close>

definition around :: "process \<Rightarrow> process \<Rightarrow> bool" where
  "around st st' \<longleftrightarrow> (\<exists>n W. st' = st\<lparr>inflight := n, running := W\<rparr> \<and> W \<subseteq> running st \<and> (n \<le> inflight st \<or> listening st))"

lemma around_simps:
  "around st st' \<Longrightarrow> todo st' = todo st \<and> woken st' = woken st \<and> late st' = late st \<and> ready st' = ready st \<and>
     listening st' = listening st \<and> released st' = released st \<and> flushed st' = flushed st"
  by (auto simp: around_def)

lemma stepE:
  assumes "step P e st = Some st'"
  obtains (slept) k where "e = Wake k" "woken st = None" "P k = None"
      "st' = (case k of Signalled \<Rightarrow> st | Listen_failed e \<Rightarrow> st\<lparr>listening := False\<rparr>)"
    | (woke) k ts where "e = Wake k" "woken st = None" "P k = Some ts"
      "st' = st\<lparr>listening := (listening st \<and> k = Signalled), woken := Some k, todo := ts,
         exit_err := (case k of Signalled \<Rightarrow> None | Listen_failed e \<Rightarrow> Some e)\<rparr>"
    | (did) t ts where "e = Next" "todo st = t # ts" "\<not> blocked t st" "st' = perform t (st\<lparr>todo := ts\<rparr>)"
    | (lost_patience) t ts where "e = Give_up" "todo st = t # ts" "blocked t st" "st' = gave_up t (st\<lparr>todo := ts\<rparr>)"
    | (other) "e \<noteq> Next" "e \<noteq> Give_up" "around st st'"
proof (cases e)
  case (Wake k)
  then show ?thesis using assms
    by (cases k; cases "P k") (auto simp: Let_def split: if_splits intro: slept [of k] woke [of k])
next
  case Next
  then show ?thesis using assms by (cases "todo st") (auto split: if_splits intro: did)
next
  case Give_up
  then show ?thesis using assms by (cases "todo st") (auto split: if_splits intro: lost_patience)
next
  case Accept
  then have "around st st'" using assms unfolding around_def
    by (intro exI [of _ "Suc (inflight st)"] exI [of _ "running st"]) (auto split: if_splits)
  then show ?thesis using Accept by (intro other) auto
next
  case Finish
  then have "around st st'" using assms unfolding around_def
    by (intro exI [of _ "inflight st - 1"] exI [of _ "running st"]) (auto split: if_splits)
  then show ?thesis using Finish by (intro other) auto
next
  case (Return w)
  then have "around st st'" using assms unfolding around_def
    by (intro exI [of _ "inflight st"] exI [of _ "running st - {w}"]) (auto split: if_splits)
  then show ?thesis using Return by (intro other) auto
qed

section \<open>Programs that close nothing under somebody's hands\<close>

text \<open>
  A list of tasks read from the front, when the goroutines \<open>W\<close> have stopped, \<open>l\<close> says that the listener is
  closed and \<open>d\<close> that no request is in flight: each resource is closed after its users are gone.
\<close>

fun orderly :: "worker set \<Rightarrow> bool \<Rightarrow> bool \<Rightarrow> task list \<Rightarrow> bool" where
  "orderly W l d [] \<longleftrightarrow> True"
| "orderly W l d (Close_listener # ts) \<longleftrightarrow> orderly W True d ts"
| "orderly W l d (Drain # ts) \<longleftrightarrow> l \<and> orderly W l True ts"
| "orderly W l d (Await w # ts) \<longleftrightarrow> orderly (insert w W) l d ts"
| "orderly W l d (Close r # ts) \<longleftrightarrow>
     (\<forall>w. r \<in> uses w \<longrightarrow> w \<in> W) \<and> (r \<in> request_uses \<longrightarrow> d) \<and> orderly W l d ts"
| "orderly W l d (_ # ts) \<longleftrightarrow> orderly W l d ts"

definition calm :: "worker set \<Rightarrow> bool \<Rightarrow> bool \<Rightarrow> process \<Rightarrow> bool" where
  "calm W l d st \<longleftrightarrow> running st \<inter> W = {} \<and> (l \<longrightarrow> \<not> listening st) \<and> (d \<longrightarrow> l \<and> inflight st = 0) \<and>
     (\<forall>r \<in> released st. (\<forall>w. r \<in> uses w \<longrightarrow> w \<in> W) \<and> (r \<in> request_uses \<longrightarrow> d))"

lemma calm_unused: "calm W l d st \<Longrightarrow> r \<in> released st \<Longrightarrow> \<not> in_use st r"
  by (auto simp: calm_def in_use_def)

lemma calm_perform:
  assumes "calm W l d st" "orderly W l d (t # ts)" "\<not> blocked t st"
  shows "\<exists>W l d. calm W l d (perform t (st\<lparr>todo := ts\<rparr>)) \<and> orderly W l d ts"
proof (cases t)
  case Close_listener
  then show ?thesis using assms by (intro exI [of _ W] exI [of _ True] exI [of _ d]) (auto simp: calm_def)
next
  case Drain
  then show ?thesis using assms by (intro exI [of _ W] exI [of _ l] exI [of _ True]) (auto simp: calm_def)
next
  case (Await w)
  then show ?thesis using assms by (intro exI [of _ "insert w W"] exI [of _ l] exI [of _ d]) (auto simp: calm_def)
qed (use assms in \<open>intro exI [of _ W] exI [of _ l] exI [of _ d]; auto simp: calm_def\<close>)+

lemma calm_around:
  assumes "calm W l d st" "around st st'"
  shows "calm W l d st'"
  using assms around_simps [OF assms(2)] by (auto simp: calm_def around_def)

locale graceful =
  fixes P :: program and W0 :: "worker set"
  assumes in_order: "P Signalled = Some ts \<Longrightarrow> orderly (- W0) False False ts"
begin

definition kept :: "process \<Rightarrow> bool" where
  "kept st \<longleftrightarrow> (woken st = None \<longrightarrow> calm (- W0) False False st \<and> todo st = [] \<and> \<not> late st) \<and>
     (woken st = Some Signalled \<and> \<not> late st \<longrightarrow> (\<exists>W l d. calm W l d st \<and> orderly W l d (todo st)))"

lemma kept_step:
  assumes "kept st" "step P e st = Some st'"
  shows "kept st'"
  using assms(2)
proof (cases rule: stepE)
  case (slept k)
  then show ?thesis using assms(1) by (auto simp: kept_def calm_def split: wake.splits)
next
  case (woke k ts)
  then have "k = Signalled \<longrightarrow> calm (- W0) False False st' \<and> orderly (- W0) False False ts"
    using assms(1) in_order by (auto simp: kept_def calm_def)
  then show ?thesis using woke by (auto simp: kept_def)
next
  case (did t ts)
  then show ?thesis using assms(1) calm_perform [of _ _ _ st t ts] by (auto simp: kept_def)
next
  case (lost_patience t ts)
  then show ?thesis using assms(1) by (auto simp: kept_def)
next
  case other
  then show ?thesis using assms(1) around_simps [OF other(3)] by (auto simp: kept_def intro: calm_around)
qed

lemma kept_reached: "reaches P (serving W0) st \<Longrightarrow> kept st"
proof (induction "serving W0" st rule: reaches.induct)
  case start
  show ?case by (auto simp: kept_def calm_def serving_def)
next
  case (more st1 e st2)
  then show ?case by (blast intro: kept_step)
qed

lemma closes_nothing_in_use:
  assumes "reaches P (serving W0) st" "woken st = Some Signalled" "\<not> late st" "r \<in> released st"
  shows "\<not> in_use st r"
  using kept_reached [OF assms(1)] assms(2-) by (auto simp: kept_def dest: calm_unused)

end

text \<open>The tasks of a process that has a readiness probe, \<open>f\<close> saying that it was flipped and \<open>l\<close> that the listener is closed.\<close>

fun announces :: "bool \<Rightarrow> bool \<Rightarrow> task list \<Rightarrow> bool" where
  "announces f l [] \<longleftrightarrow> True"
| "announces f l (Flip_not_ready # ts) \<longleftrightarrow> announces True l ts"
| "announces f l (Close_listener # ts) \<longleftrightarrow> f \<and> announces f True ts"
| "announces f l (Close r # ts) \<longleftrightarrow> l \<and> announces f l ts"
| "announces f l (_ # ts) \<longleftrightarrow> announces f l ts"

locale announced = graceful +
  assumes flips_first: "P Signalled = Some ts \<Longrightarrow> announces False False ts"
    and wakes: "P (Listen_failed e) \<noteq> None"
begin

definition told :: "process \<Rightarrow> bool" where
  "told st \<longleftrightarrow> (woken st = None \<longrightarrow> listening st \<and> released st = {} \<and> ready st \<and> todo st = []) \<and>
     (woken st = Some Signalled \<longrightarrow> announces (\<not> ready st) (\<not> listening st) (todo st) \<and>
        (ready st \<longrightarrow> listening st) \<and> (listening st \<longrightarrow> released st = {}))"

lemma told_step:
  assumes "told st" "step P e st = Some st'"
  shows "told st'"
  using assms(2)
proof (cases rule: stepE)
  case (slept k)
  then show ?thesis using assms(1) wakes by (cases k) auto
next
  case (woke k ts)
  then show ?thesis using assms(1) flips_first by (cases k) (auto simp: told_def)
next
  case (did t ts)
  then show ?thesis using assms(1) by (cases t) (auto simp: told_def)
next
  case (lost_patience t ts)
  then show ?thesis using assms(1) by (cases t) (auto simp: told_def)
next
  case other
  then show ?thesis using assms(1) around_simps [OF other(3)] by (auto simp: told_def)
qed

lemma told_reached: "reaches P (serving W0) st \<Longrightarrow> told st"
proof (induction "serving W0" st rule: reaches.induct)
  case start
  show ?case by (simp add: told_def serving_def)
next
  case (more st1 e st2)
  then show ?case by (blast intro: told_step)
qed

lemma not_ready_before:
  assumes "reaches P (serving W0) st" "woken st = Some Signalled"
  shows "(\<not> listening st \<longrightarrow> \<not> ready st) \<and> (released st \<noteq> {} \<longrightarrow> \<not> listening st)"
  using told_reached [OF assms(1)] assms(2) by (auto simp: told_def)

end

section \<open>The main goroutine comes to its end\<close>








lemma run_reaches: "run P es st1 = Some st2 \<Longrightarrow> reaches P st st1 \<Longrightarrow> reaches P st st2"
  by (induction es arbitrary: st1) (auto split: option.splits intro: reaches.more)

section \<open>The programs of the four processes\<close>

text \<open>The ways the adapters of cmd/inventory are closed.\<close>

lemma built_adapters:
  assumes "inventory_adapters V tr = (Inr a, tr')"
  shows "ad_relay a = None \<and> ad_close a = (if ad_pool a = None then if ad_publisher a = Log_publisher then [] else [Close_writers]
       else [Close_repos]) \<or>
     ad_relay a \<noteq> None \<and> ad_pool a \<noteq> None \<and> ad_close a = [Stop_relay, Close_sink, Close_writers, Close_repos]"
  using assms
  by (auto simp: inventory_adapters_def buildAdapters_def memoryAdapters_def postgresAdapters_def andthen_def ret_def Let_def
      split: prod.splits sum.splits if_splits)

lemma no_other_worker: "(\<forall>w. r \<in> uses w \<longrightarrow> w \<in> W) \<longleftrightarrow>
    (r = Lookup_reader \<longrightarrow> Lookup_run \<in> W) \<and> (r = Relay_sink \<longrightarrow> Relay_run \<in> W) \<and>
    (r = Pool \<longrightarrow> Relay_run \<in> W \<and> Analytics_run \<in> W) \<and> (r = Analytics_reader \<longrightarrow> Analytics_run \<in> W)"
proof (intro iffI allI impI)
  fix w assume *: "(r = Lookup_reader \<longrightarrow> Lookup_run \<in> W) \<and> (r = Relay_sink \<longrightarrow> Relay_run \<in> W) \<and>
    (r = Pool \<longrightarrow> Relay_run \<in> W \<and> Analytics_run \<in> W) \<and> (r = Analytics_reader \<longrightarrow> Analytics_run \<in> W)"
    and "r \<in> uses w"
  then show "w \<in> W" by (cases w) auto
qed auto

lemmas program_defs = inventory_program_def inventory_workers_def serveHTTPUntilSignal_def serve_or_fail_def
  mcp_program_def reports_program_def request_uses_def Let_def

lemma inventory_announced:
  assumes "ad_relay a = None \<and> set (ad_close a) \<subseteq> {Close_writers, Close_repos} \<or>
    ad_relay a \<noteq> None \<and> ad_close a = [Stop_relay, Close_sink, Close_writers, Close_repos]"
  shows "announced (inventory_program b a) (inventory_workers b a)"
proof unfold_locales
  have plain: "orderly W True True (concat (map close_tasks cs) @ [Flush_telemetry]) \<and>
      announces True True (concat (map close_tasks cs) @ [Flush_telemetry])"
    if "set cs \<subseteq> {Close_writers, Close_repos}" "Relay_run \<in> W" "Analytics_run \<in> W" for cs W
    using that by (induction cs) (auto simp: no_other_worker)
  show "orderly (- inventory_workers b a) False False ts" if "inventory_program b a Signalled = Some ts" for ts
    using that assms plain [of "ad_close a"] by (auto simp: program_defs no_other_worker split: if_splits)
  show "announces False False ts" if "inventory_program b a Signalled = Some ts" for ts
    using that assms plain [of "ad_close a" UNIV] by (auto simp: program_defs no_other_worker split: if_splits)
  show "inventory_program b a (Listen_failed e) \<noteq> None" for e
    by (simp add: inventory_program_def)
qed

interpretation local_run: announced "inventory_program b memoryAdapters" "inventory_workers b memoryAdapters" for b
  by (rule inventory_announced) (simp add: memoryAdapters_def)

interpretation logging_run: announced "inventory_program b (postgresAdapters p)" "inventory_workers b (postgresAdapters p)" for b p
  by (rule inventory_announced) (simp add: postgresAdapters_def)

interpretation mcp_run: graceful "mcp_program r" "{}" for r
  by unfold_locales (auto simp: program_defs split: repos.splits)

interpretation reports_run: graceful reports_program "{}"
  by unfold_locales (auto simp: program_defs)

section \<open>Properties\<close>

text \<open>
  C28. When cmd/inventory is signalled, then however the requests, the consumer of the location cache and the
  outbox relay go on, it reports not ready before it closes the listener, and closes the listener before
  anything else; and unless a wait ran into its deadline, neither a request nor a background goroutine still
  works with a reader, a writer or a pool that is closed.
\<close>

theorem shutdown_closes_nothing_in_use:
  assumes "inventory_adapters V tr = (Inr a, tr')"
    and "reaches (inventory_program b a) (serving (inventory_workers b a)) st" "woken st = Some Signalled"
  shows "(\<not> listening st \<longrightarrow> \<not> ready st) \<and> (released st \<noteq> {} \<longrightarrow> \<not> listening st) \<and>
    (\<not> late st \<longrightarrow> (\<forall>r \<in> released st. \<not> in_use st r))"
proof -
  have P: "announced (inventory_program b a) (inventory_workers b a)"
    by (rule inventory_announced) (use built_adapters [OF assms(1)] in \<open>auto split: if_splits\<close>)
  show ?thesis
    using announced.not_ready_before [OF P assms(2,3)] graceful.closes_nothing_in_use [OF announced.axioms(1) [OF P] assms(2,3)]
    by blast
qed

text \<open>With the relay and the consumer running, one request comes in and one is still answered after the signal.\<close>

definition demo_relaying :: adapters where
  "demo_relaying = (postgresAdapters (service_pool ''db''))\<lparr>ad_publisher := Outbox_publisher,
     ad_relay := Some ([''localhost:9092''], 1000000000), ad_close := [Stop_relay, Close_sink, Close_writers, Close_repos]\<rparr>"

definition demo_stop :: "event list" where
  "demo_stop = [Accept, Wake Signalled, Next, Next, Finish, Next, Next, Return Lookup_run, Next, Next, Next,
     Return Relay_run, Next, Next, Next, Next]"

lemma demo_relaying_built: "\<exists>tr'. inventory_adapters (demo_boot ''kafka'') [] = (Inr demo_relaying, tr')"
proof -
  have "fst (inventory_adapters (demo_boot ''kafka'') []) = Inr demo_relaying" by code_simp
  then show ?thesis by (metis prod.collapse)
qed

lemma demo_stopped:
  "\<exists>st. run (inventory_program True demo_relaying) demo_stop (serving (inventory_workers True demo_relaying)) = Some st \<and>
     woken st = Some Signalled \<and> \<not> late st \<and> Pool \<in> released st \<and> Lookup_reader \<in> released st"
  by (simp add: demo_stop_def demo_relaying_def postgresAdapters_def program_defs serving_def)

lemma shutdown_closes_nothing_in_use_witness:
  "\<exists>st. run (inventory_program True demo_relaying) demo_stop (serving (inventory_workers True demo_relaying)) = Some st \<and>
     Pool \<in> released st \<and> \<not> in_use st Pool \<and> \<not> ready st"
proof -
  obtain tr' where b: "inventory_adapters (demo_boot ''kafka'') [] = (Inr demo_relaying, tr')" using demo_relaying_built by blast
  obtain st where st: "run (inventory_program True demo_relaying) demo_stop (serving (inventory_workers True demo_relaying)) = Some st"
      "woken st = Some Signalled" "\<not> late st" "Pool \<in> released st"
    using demo_stopped by blast
  have "reaches (inventory_program True demo_relaying) (serving (inventory_workers True demo_relaying)) st"
    using run_reaches [OF st(1)] by (blast intro: reaches.start)
  from shutdown_closes_nothing_in_use [OF b this st(2)] st show ?thesis by blast
qed



section \<open>Where the shutdown is not graceful\<close>

text \<open>
  When the listener fails, requests that are still in flight are not waited for, nor is the consumer: the pool
  and the reader are closed under them, although no deadline has passed.
\<close>

theorem listen_failure_closes_under_requests:
  "\<exists>es st. run (inventory_program True demo_relaying) es (serving (inventory_workers True demo_relaying)) = Some st \<and>
     \<not> late st \<and> todo st = [] \<and> Pool \<in> released st \<and> inflight st = 1 \<and> in_use st Lookup_reader \<and> Lookup_reader \<in> released st"
  by (intro exI [of _ "[Accept, Wake (Listen_failed (InfraErr ''accept'')), Next, Next, Next, Return Relay_run, Next, Next, Next, Next, Next]"])
    (simp add: demo_relaying_def postgresAdapters_def program_defs serving_def in_use_def)

text \<open>The projector does not wait for its consumer: the reader and the pool are closed while it is at work.\<close>

theorem projector_closes_under_consumer:
  "\<exists>es st. run projector_program es (serving {Analytics_run}) = Some st \<and>
     \<not> late st \<and> todo st = [] \<and> Pool \<in> released st \<and> in_use st Pool"
  by (intro exI [of _ "[Wake Signalled, Next, Next, Next, Next, Next, Next]"])
    (simp add: projector_program_def serveUntilSignal_def serving_def in_use_def)

text \<open>
  The readiness probe has no window: the listener is closed in the very next step of the main goroutine, whether
  or not the probe has come by.
\<close>

theorem no_window_for_the_probe:
  "\<exists>st. run (inventory_program b a) [Wake Signalled, Next, Next] (serving W) = Some st \<and> \<not> listening st"
  by (simp add: program_defs serving_def)

text \<open>The reports service and the MCP server, which run nothing in the background, close their pool only when it is idle.\<close>

lemma reports_close_idle:
  "reaches reports_program (serving {}) st \<Longrightarrow> woken st = Some Signalled \<Longrightarrow> \<not> late st \<Longrightarrow> r \<in> released st \<Longrightarrow> \<not> in_use st r"
  by (rule reports_run.closes_nothing_in_use)

lemma mcp_close_idle:
  "reaches (mcp_program p) (serving {}) st \<Longrightarrow> woken st = Some Signalled \<Longrightarrow> \<not> late st \<Longrightarrow> r \<in> released st \<Longrightarrow> \<not> in_use st r"
  by (rule mcp_run.closes_nothing_in_use)

end
