(* ===== verification/Clients.thy ===== *)
theory Clients
  imports FanOut Boot
begin

text \<open>
  How the clients of third-party libraries are set up: the readers of Kafka topics and their consumer groups, the
  writer of dead letters, the circuit breaker, the instruments of the metrics, the decorated logger, and the
  transaction that a context carries. The libraries themselves are not modelled; what is, is what they are told.
\<close>

section \<open>Readers and consumer groups\<close>

text \<open>Durations are in milliseconds; a reader without a commit interval commits each message as it reads it.\<close>

datatype start_offset = FirstOffset | LastOffset

record reader_config =
  rd_brokers :: "string list"
  rd_topic :: string
  rd_groupID :: string
  rd_startOffset :: start_offset
  rd_commitInterval :: int

definition AnalyticsConsumerGroup :: string where "AnalyticsConsumerGroup = ''inventory-analytics''"

definition NewAnalyticsConsumer :: "string list \<Rightarrow> string \<Rightarrow> reader_config" where
  "NewAnalyticsConsumer brokers topic = \<lparr>rd_brokers = brokers, rd_topic = topic, rd_groupID = AnalyticsConsumerGroup,
     rd_startOffset = FirstOffset, rd_commitInterval = 0\<rparr>"

definition replayCommitInterval :: int where "replayCommitInterval = 1000"
definition consumerGroupPrefix :: string where
  "consumerGroupPrefix = ''inventory-storage-facility-location-cache''"

text \<open>The host name or the error of asking for it, the process id and the time in nanoseconds.\<close>

definition uniqueConsumerGroup :: "err + string \<Rightarrow> nat \<Rightarrow> nat \<Rightarrow> string" where
  "uniqueConsumerGroup hostname pid nanos =
     (let host = (case hostname of Inl _ \<Rightarrow> ''unknown-host'' | Inr h \<Rightarrow> if h = '''' then ''unknown-host'' else h) in
      consumerGroupPrefix @ ''-'' @ host @ ''-'' @ itoa (int pid) @ ''-'' @ itoa (int nanos))"

definition cache_reader :: "string list \<Rightarrow> string \<Rightarrow> string \<Rightarrow> reader_config" where
  "cache_reader brokers topic groupID = \<lparr>rd_brokers = brokers, rd_topic = topic, rd_groupID = groupID,
     rd_startOffset = FirstOffset, rd_commitInterval = replayCommitInterval\<rparr>"

text \<open>What the writer does not set is the default of kafka-go, which balances round robin and waits for no acknowledgement.\<close>

definition dlqBatchTimeout :: int where "dlqBatchTimeout = 10"

definition newDLQWriter :: "string list \<Rightarrow> string \<Rightarrow> kafka_writer" where
  "newDLQWriter brokers topic = \<lparr>kw_brokers = brokers, kw_topic = topic @ dlqTopicSuffix, kw_balancer = RoundRobin,
     kw_acks = RequireNone, kw_batchTimeout = dlqBatchTimeout, kw_autoCreate = True\<rparr>"

text \<open>Closing the consumer of the cache, given what closing its reader and its writer answer.\<close>

definition Consumer_Close :: "consumer \<Rightarrow> err option \<Rightarrow> err option \<Rightarrow> err option" where
  "Consumer_Close c readerErr dlqErr = (if \<not> has_dlqWriter c then readerErr else join_errors [readerErr, dlqErr])"

text \<open>Whichever of its two channels a wait sees first.\<close>

datatype wait_event = Ready_closed | Ctx_done err

definition WaitReady :: "consumer \<Rightarrow> wait_event \<Rightarrow> err option" where
  "WaitReady c ev = (if Consumer_Ready c then None else case ev of Ready_closed \<Rightarrow> None | Ctx_done e \<Rightarrow> Some e)"

text \<open>The keys of the carrier the consumer of the analytics topic reads trace headers through.\<close>

definition consumer_Keys :: "(string \<times> string) list \<Rightarrow> string list" where
  "consumer_Keys hs = map fst hs"

lemma consumer_keys_have_values: "k \<in> set (consumer_Keys hs) \<Longrightarrow> (k, consumer_Get k hs) \<in> set hs"
  by (induction hs) (auto simp: consumer_Keys_def consumer_Get_def)

section \<open>Numbers in a group id\<close>

lemma digit_char: "k < 10 \<Longrightarrow> of_char (char_of (48 + k) :: char) = 48 + k" for k :: nat
  by (simp add: take_bit_eq_mod)

lemma digits_no_dash: "CHR ''-'' \<notin> set (digits n)"
proof (induction n rule: digits.induct)
  case (1 n)
  have "char_of (48 + k) \<noteq> CHR ''-''" if "k < 10" for k :: nat
  proof
    assume "char_of (48 + k) = CHR ''-''"
    then have "of_char (char_of (48 + k) :: char) = (of_char (CHR ''-'') :: nat)" by (rule arg_cong)
    then show False using digit_char [OF that] by simp
  qed
  then have c: "CHR ''-'' \<noteq> char_of (48 + k)" if "k < 10" for k :: nat using that by metis
  show ?case
  proof (cases "n < 10")
    case True
    then show ?thesis using c by (subst digits.simps) simp
  next
    case False
    then show ?thesis using 1 c [of "n mod 10"] by (subst digits.simps) simp
  qed
qed

definition value_of :: "string \<Rightarrow> nat" where
  "value_of = foldl (\<lambda>v c. 10 * v + (of_char c - 48)) 0"

lemma value_digits: "value_of (digits n) = n"
proof (induction n rule: digits.induct)
  case (1 n)
  show ?case
  proof (cases "n < 10")
    case True
    then show ?thesis using digit_char [of n] by (subst digits.simps) (simp add: value_of_def)
  next
    case False
    then show ?thesis using 1 digit_char [of "n mod 10"] by (subst digits.simps) (simp add: value_of_def)
  qed
qed

lemma itoa_nat [simp]: "itoa (int n) = digits n" by (simp add: itoa_def)

lemma dash_split:
  assumes "xs @ CHR ''-'' # digits m = ys @ CHR ''-'' # digits n"
  shows "xs = ys \<and> m = n"
proof -
  from assms consider us where "xs = ys @ us" "us @ CHR ''-'' # digits m = CHR ''-'' # digits n"
    | us where "ys = xs @ us" "CHR ''-'' # digits m = us @ CHR ''-'' # digits n"
    by (auto simp: append_eq_append_conv2)
  then have "xs = ys \<and> digits m = digits n"
  proof cases
    case 1
    show ?thesis
    proof (cases us)
      case (Cons c cs)
      then have "digits n = cs @ CHR ''-'' # digits m" using 1 by simp
      then have "CHR ''-'' \<in> set (digits n)" by simp
      then show ?thesis using digits_no_dash by blast
    qed (use 1 in simp)
  next
    case 2
    show ?thesis
    proof (cases us)
      case (Cons c cs)
      then have "digits m = cs @ CHR ''-'' # digits n" using 2 by simp
      then have "CHR ''-'' \<in> set (digits m)" by simp
      then show ?thesis using digits_no_dash by blast
    qed (use 2 in simp)
  qed
  then show ?thesis using value_digits [of m] value_digits [of n] by metis
qed

text \<open>
  No two runs of a process share a consumer group: the group ids of two processes differ, whatever the host names
  look like, when their process ids or the nanoseconds they start at do.
\<close>

theorem groups_are_unique:
  assumes "uniqueConsumerGroup h pid nanos = uniqueConsumerGroup h' pid' nanos'"
  shows "pid = pid' \<and> nanos = nanos'"
proof -
  obtain x y where "uniqueConsumerGroup h pid nanos = x @ CHR ''-'' # digits nanos" and
      x: "x = consumerGroupPrefix @ ''-'' @ y @ CHR ''-'' # digits pid"
    by (simp add: uniqueConsumerGroup_def Let_def)
  moreover obtain x' y' where "uniqueConsumerGroup h' pid' nanos' = x' @ CHR ''-'' # digits nanos'" and
      x': "x' = consumerGroupPrefix @ ''-'' @ y' @ CHR ''-'' # digits pid'"
    by (simp add: uniqueConsumerGroup_def Let_def)
  ultimately have "x = x' \<and> nanos = nanos'" using assms dash_split by metis
  moreover from this have "y @ CHR ''-'' # digits pid = y' @ CHR ''-'' # digits pid'" using x x' by simp
  ultimately show ?thesis using dash_split by blast
qed

section \<open>The circuit breaker\<close>

text \<open>The settings given to gobreaker, durations in nanoseconds; what it does on a change of state is appended to the gauge.\<close>

record breaker_settings =
  bs_name :: string
  bs_maxRequests :: nat
  bs_interval :: int
  bs_timeout :: int
  bs_readyToTrip :: "counts \<Rightarrow> bool"
  bs_isExcluded :: "err \<Rightarrow> bool"
  bs_onStateChange :: "int \<Rightarrow> int \<Rightarrow> (string \<times> int) list option"

definition DependencyName :: string where "DependencyName = ''facility-layout''"
definition DefaultMaxRequests :: nat where "DefaultMaxRequests = 1"
definition DefaultInterval :: int where "DefaultInterval = 30000000000"
definition DefaultTimeout :: int where "DefaultTimeout = 30000000000"
definition Canceled :: err where "Canceled = InfraErr ''context canceled''"

definition newBreakerClient :: "(string \<times> int) list option \<Rightarrow> int \<Rightarrow> breaker_settings" where
  "newBreakerClient recorder cooldown =
     \<lparr>bs_name = DependencyName, bs_maxRequests = DefaultMaxRequests, bs_interval = DefaultInterval,
      bs_timeout = cooldown, bs_readyToTrip = ReadyToTrip, bs_isExcluded = (\<lambda>e. errors_is e Canceled),
      bs_onStateChange = RecordStateChange DependencyName recorder\<rparr>"

definition NewBreakerClient :: "(string \<times> int) list option \<Rightarrow> breaker_settings" where
  "NewBreakerClient recorder = newBreakerClient recorder DefaultTimeout"

definition NewBreakerClientWithTimeout :: "(string \<times> int) list option \<Rightarrow> int \<Rightarrow> breaker_settings" where
  "NewBreakerClientWithTimeout recorder cooldown = newBreakerClient recorder cooldown"

text \<open>
  A dependency that answers nothing but errors is given up after five of them, the callers that hung up not
  series, and the gauge follows every change of state under the name of the dependency.
\<close>

lemma breaker_told:
  "5 \<le> c \<Longrightarrow> bs_readyToTrip (NewBreakerClient g) \<lparr>Requests = r, TotalFailures = f, ConsecutiveFailures = c\<rparr>"
  "bs_isExcluded (NewBreakerClient g) (Wrapped what Canceled)"
  "bs_onStateChange (NewBreakerClient (Some ms)) from to = Some (ms @ [(''facility-layout'', to)])"
  by (simp_all add: NewBreakerClient_def newBreakerClient_def ReadyToTrip_def Canceled_def RecordStateChange_def
      DependencyName_def)

section \<open>The instruments\<close>

text \<open>Every measurement with the instrument, the value and the one attribute it has.\<close>

record measurement =
  ms_instrument :: string
  ms_value :: int
  ms_attribute :: "string \<times> string"

definition reservationCounterName :: string where "reservationCounterName = ''inventory.reservations''"
definition circuitBreakerGaugeName :: string where "circuitBreakerGaugeName = ''circuit_breaker.state''"

text \<open>An instrument by its name, or the error of the meter.\<close>

definition NewReservationMetrics :: "(string \<Rightarrow> err option) \<Rightarrow> string result" where
  "NewReservationMetrics meter = (case meter reservationCounterName of Some e \<Rightarrow> Inl e | None \<Rightarrow> Inr reservationCounterName)"

definition NewCircuitBreakerMetrics :: "(string \<Rightarrow> err option) \<Rightarrow> string result" where
  "NewCircuitBreakerMetrics meter = (case meter circuitBreakerGaugeName of Some e \<Rightarrow> Inl e | None \<Rightarrow> Inr circuitBreakerGaugeName)"

definition record_outcome_count :: "string \<Rightarrow> string \<Rightarrow> measurement list \<Rightarrow> measurement list" where
  "record_outcome_count counter outcome ms =
     ms @ [\<lparr>ms_instrument = counter, ms_value = 1, ms_attribute = (''outcome'', outcome)\<rparr>]"

definition ReservationCreated :: "string \<Rightarrow> measurement list \<Rightarrow> measurement list" where
  "ReservationCreated counter = record_outcome_count counter ''created''"

definition ReservationRevoked_count :: "string \<Rightarrow> measurement list \<Rightarrow> measurement list" where
  "ReservationRevoked_count counter = record_outcome_count counter ''revoked''"

definition SetState :: "string \<Rightarrow> string \<Rightarrow> int \<Rightarrow> measurement list \<Rightarrow> measurement list" where
  "SetState gauge dependency state ms =
     ms @ [\<lparr>ms_instrument = gauge, ms_value = state, ms_attribute = (''dependency'', dependency)\<rparr>]"

text \<open>The value of a counter for an attribute.\<close>

definition series :: "string \<Rightarrow> string \<times> string \<Rightarrow> measurement list \<Rightarrow> int" where
  "series counter attribute ms = sum_list (map ms_value (filter (\<lambda>m. ms_instrument m = counter \<and> ms_attribute m = attribute) ms))"

text \<open>The ports of the use cases with the real instruments, over a world that has the measurements beside the database.\<close>

definition metered :: "string \<Rightarrow> (pg_world \<times> measurement list) reservation_metrics" where
  "metered counter = \<lparr>m_created = (\<lambda>(w, ms). (w\<lparr>created_total := Suc (created_total w)\<rparr>, ReservationCreated counter ms)),
     m_revoked = (\<lambda>(w, ms). (w\<lparr>revoked_total := Suc (revoked_total w)\<rparr>, ReservationRevoked_count counter ms))\<rparr>"

text \<open>The totals of the model of the database are the two series of the counter.\<close>

lemma totals_are_series:
  assumes "int (created_total w) = series c (''outcome'', ''created'') ms"
    and "int (revoked_total w) = series c (''outcome'', ''revoked'') ms"
    and "(w', ms') = m_created (metered c) (w, ms) \<or> (w', ms') = m_revoked (metered c) (w, ms)"
  shows "int (created_total w') = series c (''outcome'', ''created'') ms'"
    and "int (revoked_total w') = series c (''outcome'', ''revoked'') ms'"
  using assms by (auto simp: metered_def series_def ReservationCreated_def ReservationRevoked_count_def record_outcome_count_def)

section \<open>The logger\<close>

text \<open>
  The handlers of slog that a logger is derived through, the JSON handler innermost. An attribute is printed
  under the path of the groups that are open where it is added.
\<close>

datatype slog_handler =
  JSON_handler log_level | With_attrs "(string \<times> string) list" slog_handler | With_group string slog_handler
| Trace_handler slog_handler

definition WithTraceContext :: "slog_handler \<Rightarrow> slog_handler" where "WithTraceContext inner = Trace_handler inner"

fun severity :: "log_level \<Rightarrow> int" where
  "severity LevelDebug = -4" | "severity LevelInfo = 0" | "severity LevelWarn = 4" | "severity LevelError = 8"

fun handler_Enabled :: "slog_handler \<Rightarrow> log_level \<Rightarrow> bool" where
  "handler_Enabled (JSON_handler least) l \<longleftrightarrow> severity least \<le> severity l"
| "handler_Enabled (With_attrs _ inner) l \<longleftrightarrow> handler_Enabled inner l"
| "handler_Enabled (With_group _ inner) l \<longleftrightarrow> handler_Enabled inner l"
| "handler_Enabled (Trace_handler inner) l \<longleftrightarrow> handler_Enabled inner l"

fun handler_WithAttrs :: "(string \<times> string) list \<Rightarrow> slog_handler \<Rightarrow> slog_handler" where
  "handler_WithAttrs attrs (Trace_handler inner) = Trace_handler (handler_WithAttrs attrs inner)"
| "handler_WithAttrs attrs h = With_attrs attrs h"

fun handler_WithGroup :: "string \<Rightarrow> slog_handler \<Rightarrow> slog_handler" where
  "handler_WithGroup name (Trace_handler inner) = Trace_handler (handler_WithGroup name inner)"
| "handler_WithGroup name h = With_group name h"

type_synonym printed = "(string list \<times> string) list"

definition flat :: "(string \<times> string) list \<Rightarrow> printed" where
  "flat = map (\<lambda>(k, v). ([k], v))"

fun emit :: "(string \<times> string) option \<Rightarrow> slog_handler \<Rightarrow> printed \<Rightarrow> printed" where
  "emit sp (JSON_handler _) c = c"
| "emit sp (With_attrs attrs inner) c = emit sp inner (flat attrs @ c)"
| "emit sp (With_group name inner) c = emit sp inner (map (\<lambda>(p, v). (name # p, v)) c)"
| "emit sp (Trace_handler inner) c = emit sp inner (c @ flat (traceHandler_Handle sp []))"


fun ungrouped :: "slog_handler \<Rightarrow> bool" where
  "ungrouped (JSON_handler _) \<longleftrightarrow> True"
| "ungrouped (With_attrs _ inner) \<longleftrightarrow> ungrouped inner"
| "ungrouped (With_group _ _) \<longleftrightarrow> False"
| "ungrouped (Trace_handler inner) \<longleftrightarrow> ungrouped inner"

lemma ungrouped_emit: "ungrouped h \<Longrightarrow> set c \<subseteq> set (emit sp h c)"
  by (induction sp h c rule: emit.induct) auto

lemma derived_form: "foldl (\<lambda>h attrs. handler_WithAttrs attrs h) (Trace_handler h) ass =
    Trace_handler (foldl (\<lambda>h attrs. handler_WithAttrs attrs h) h ass)"
  by (induction ass arbitrary: h) simp_all

lemma ungrouped_WithAttrs: "ungrouped h \<Longrightarrow> ungrouped (handler_WithAttrs attrs h)"
  by (induction h) simp_all

text \<open>
  Every logger derived with attributes prints the two ids of the span flat, as log backends expect them; a logger
  derived with a group prints them inside the group.
\<close>

theorem derived_loggers_correlate:
  "set (flat [(''trace_id'', t), (''span_id'', s)]) \<subseteq>
     set (emit (Some (t, s)) (foldl (\<lambda>h attrs. handler_WithAttrs attrs h) (WithTraceContext (JSON_handler l)) ass) c)"
proof -
  have "ungrouped (foldl (\<lambda>h attrs. handler_WithAttrs attrs h) h ass)" if "ungrouped h" for h
    using that by (induction ass arbitrary: h) (simp_all add: ungrouped_WithAttrs)
  then have "ungrouped (foldl (\<lambda>h attrs. handler_WithAttrs attrs h) (JSON_handler l) ass)" by simp
  from ungrouped_emit [OF this, of "c @ flat (traceHandler_Handle (Some (t, s)) [])" "Some (t, s)"]
  show ?thesis by (simp add: WithTraceContext_def derived_form traceHandler_Handle_def)
qed

lemma grouped_ids_nested:
  "emit (Some (t, s)) (handler_WithGroup g (WithTraceContext (JSON_handler l))) [] =
     [([g, ''trace_id''], t), ([g, ''span_id''], s)]"
  by (simp add: WithTraceContext_def traceHandler_Handle_def flat_def)

section \<open>The transaction of a context\<close>

text \<open>The values a context carries, the newest first; only the transaction is looked up by this program.\<close>

datatype 'tx ctx_value = Tx_value 'tx | Other_value string
datatype ctx_key = Tx_key | Other_key string
type_synonym 'tx ctx = "(ctx_key \<times> 'tx ctx_value) list"

definition WithTx :: "'tx ctx \<Rightarrow> 'tx \<Rightarrow> 'tx ctx" where
  "WithTx c tx = (Tx_key, Tx_value tx) # c"

definition TxFrom :: "'tx ctx \<Rightarrow> 'tx option" where
  "TxFrom c = (case map_of c Tx_key of Some (Tx_value tx) \<Rightarrow> Some tx | _ \<Rightarrow> None)"

datatype ('tx, 'pool) querier = Tx_querier 'tx | Pool_querier 'pool

definition querierFrom :: "'tx ctx \<Rightarrow> 'pool \<Rightarrow> ('tx, 'pool) querier" where
  "querierFrom c pool = (case TxFrom c of Some tx \<Rightarrow> Tx_querier tx | None \<Rightarrow> Pool_querier pool)"

text \<open>Whatever else is put into the context on the way, the repositories get the transaction it was given.\<close>

lemma querier_of_scope:
  "Tx_key \<notin> fst ` set c' \<Longrightarrow> querierFrom (c' @ WithTx c tx) pool = Tx_querier tx"
  "Tx_key \<notin> fst ` set c \<Longrightarrow> querierFrom c pool = Pool_querier pool"
proof -
  have none: "map_of c' Tx_key = None" if "Tx_key \<notin> fst ` set c'" for c' :: "'tx ctx"
    using that by (simp add: map_of_eq_None_iff)
  show "querierFrom (c' @ WithTx c tx) pool = Tx_querier tx" if "Tx_key \<notin> fst ` set c'"
    using none [OF that] by (simp add: querierFrom_def TxFrom_def WithTx_def map_add_def)
  show "querierFrom c pool = Pool_querier pool" if "Tx_key \<notin> fst ` set c"
    using none [OF that] by (simp add: querierFrom_def TxFrom_def)
qed

section \<open>The headers of an outbox row\<close>

text \<open>The column is NULL or JSON, which encoding/json is documented to read back as it was written.\<close>

definition decodeOutboxHeaders :: "(string \<Rightarrow> string + (string \<times> string) list) \<Rightarrow> string \<Rightarrow> string + (string \<times> string) list" where
  "decodeOutboxHeaders unmarshal raw = (if raw = '''' then Inr [] else unmarshal raw)"

lemma headers_survive_the_table:
  assumes "\<And>hs. unmarshal (marshal hs) = Inr hs" "\<And>hs. marshal hs \<noteq> ''''"
  shows "decodeOutboxHeaders unmarshal (marshal hs) = Inr hs"
  using assms by (simp add: decodeOutboxHeaders_def)

end
