(* ===== verification/Lifecycle.thy ===== *)
theory Lifecycle
  imports Serving Clients Mcp
begin

text \<open>
  \<open>run\<close> of cmd/inventory from its first line to the point where it serves: telemetry, adapters, metrics, the
  location lookup, and on each early return the deferred calls. From there on it is a process of theory Serving.
  The other three processes start the same way with adapters of their own; and what the MCP server registers.
\<close>

section \<open>The run function\<close>

definition DefaultServiceName :: string where "DefaultServiceName = ''inventory-storage''"

text \<open>\<open>var\<close> is the variable of the environment that setting up telemetry may rewrite.\<close>

definition inventory_setup :: "boot_env \<Rightarrow> string option \<Rightarrow> unit boot" where
  "inventory_setup V var = Setup V (getenv V ''OTEL_SERVICE_NAME'' DefaultServiceName)
     (getenv V ''SERVICE_VERSION'' DefaultServiceVersion) (getenv V ''OTEL_EXPORTER_OTLP_ENDPOINT'' DefaultEndpoint) var"

text \<open>The deferred calls: closing the adapters, of which the pool is a call, and flushing the telemetry.\<close>

definition closeAdapters :: "boot_env \<Rightarrow> adapters \<Rightarrow> boot_trace \<Rightarrow> boot_trace" where
  "closeAdapters V a tr = (if Close_repos \<in> set (ad_close a) then snd (call V Close_pool tr) else tr)"

definition flush :: "boot_env \<Rightarrow> boot_trace \<Rightarrow> boot_trace" where
  "flush V tr = snd (shutdownTelemetry V tr)"

text \<open>What the construction of the location lookup finds when it dials Kafka and replays the topic.\<close>

record lookup_env =
  le_clusters :: "nat \<Rightarrow> cluster"
  le_stopped :: "nat \<Rightarrow> err option"
  le_cache :: fc_env
  le_replay :: "message list"

definition inventory_lookup :: "boot_env \<Rightarrow> lookup_env \<Rightarrow> lookup_choice result" where
  "inventory_lookup V L =
     (let raw = os_getenv V ''KAFKA_BROKERS''; brokers = (if raw = '''' then [] else split_at (CHR '','') raw) in
      buildLocationLookup (getenv V ''LOCATION_LOOKUP_MODE'' ''permissive'') (os_getenv V ''FACILITY_LAYOUT_BASE_URL'')
        brokers (le_clusters L) (le_stopped L) (le_cache L) (le_replay L))"

datatype start_result = Failed err | Started adapters lookup_choice

definition run_inventory ::
  "boot_env \<Rightarrow> string option \<Rightarrow> (string \<Rightarrow> err option) \<Rightarrow> lookup_env \<Rightarrow> boot_trace \<Rightarrow> start_result \<times> boot_trace" where
  "run_inventory V var meter L tr =
     (case inventory_setup V var tr of
        (Inl e, tr1) \<Rightarrow> (Failed e, tr1)
      | (Inr _, tr1) \<Rightarrow>
          (case inventory_adapters V tr1 of
             (Inl e, tr2) \<Rightarrow> (Failed e, flush V tr2)
           | (Inr a, tr2) \<Rightarrow>
               (case NewReservationMetrics meter of
                  Inl e \<Rightarrow> (Failed e, flush V (closeAdapters V a tr2))
                | Inr _ \<Rightarrow>
                    (case inventory_lookup V L of
                       Inl e \<Rightarrow> (Failed e, flush V (closeAdapters V a tr2))
                     | Inr choice \<Rightarrow> (Started a choice, tr2)))))"

text \<open>Whether the consumer of the location cache runs, and the program the process then serves under.\<close>

definition lookup_runs :: "lookup_choice \<Rightarrow> bool" where
  "lookup_runs choice = (case choice of Kafka_cache _ \<Rightarrow> True | _ \<Rightarrow> False)"

section \<open>What a run leaves open\<close>

text \<open>The telemetry providers that came up and were not shut down.\<close>

definition provider_left :: "boot_trace \<Rightarrow> bool" where
  "provider_left tr \<longleftrightarrow>
     (\<exists>u. (New_trace_exporter u, None) \<in> set tr) \<and> Shutdown_tracer \<notin> fst ` set tr \<or>
     (\<exists>u. (New_metric_exporter u, None) \<in> set tr) \<and> Shutdown_meter \<notin> fst ` set tr"

declare pools_left_simps(3) [simp del]

lemma flushed_trace: "\<exists>x y. flush V tr = tr @ [(Shutdown_tracer, x), (Shutdown_meter, y)]"
  by (simp add: flush_def shutdownTelemetry_def answer_def)

lemma flush_leaves: "\<not> provider_left (flush V tr)" "\<exists>seg. flush V tr = tr @ seg \<and> pools_left seg = 0"
proof -
  obtain x y where f: "flush V tr = tr @ [(Shutdown_tracer, x), (Shutdown_meter, y)]" using flushed_trace by blast
  then show "\<not> provider_left (flush V tr)" by (auto simp: provider_left_def)
  have "pools_left [(Shutdown_tracer, x), (Shutdown_meter, y)] = 0" by (rule pools_left_none) auto
  with f show "\<exists>seg. flush V tr = tr @ seg \<and> pools_left seg = 0" by blast
qed

lemma flush_after: "\<exists>s3. flush V (tr @ ss) = tr @ ss @ s3 \<and> pools_left s3 = 0 \<and> \<not> provider_left (ss @ s3)"
  using flushed_trace [of V "tr @ ss"] flush_leaves(2) [of V "tr @ ss"] by (force simp: provider_left_def)

lemma closed_adapters:
  "\<exists>seg. closeAdapters V a tr = tr @ seg \<and> pools_left seg = (if Close_repos \<in> set (ad_close a) then - 1 else 0)"
  using call_trace [of V Close_pool tr] by (auto simp: closeAdapters_def pools_left_def)

lemma setup_leaves:
  assumes "Setup V n v u var tr = (r, tr')"
  shows "\<exists>seg. tr' = tr @ seg \<and> pools_left seg = 0 \<and> (isl r \<longrightarrow> \<not> provider_left seg)"
proof -
  define res where "res = New_resource n (if v = '''' then DefaultServiceVersion else v) (environment V)"
  define tx where "tx = New_trace_exporter (fst (normalizeEndpoint u var))"
  define mx where "mx = New_metric_exporter (fst (normalizeEndpoint u var))"
  note defs = Setup_def newResource_def andthen_def call_def answer_def Let_def provider_left_def
  have "\<exists>seg. tr' = tr @ seg \<and> fst ` set seg \<subseteq> {res, tx, mx, Start_runtime, Shutdown_tracer, Shutdown_meter} \<and>
      (isl r \<longrightarrow> \<not> provider_left seg)"
  proof (cases "replies V tr res")
    case (Some e)
    then show ?thesis using assms
      by (intro exI [of _ "[(res, Some e)]"]) (simp add: defs res_def)
  next
    case 1: None
    let ?t1 = "tr @ [(res, None)]"
    show ?thesis
    proof (cases "replies V ?t1 tx")
      case (Some e)
      then show ?thesis using assms 1
        by (intro exI [of _ "[(res, None), (tx, Some e)]"]) (simp add: defs res_def tx_def)
    next
      case 2: None
      let ?t2 = "?t1 @ [(tx, None)]"
      show ?thesis
      proof (cases "replies V ?t2 mx")
        case (Some e)
        then show ?thesis using assms 1 2
          by (intro exI [of _ "[(res, None), (tx, None), (mx, Some e),
                (Shutdown_tracer, replies V (?t2 @ [(mx, Some e)]) Shutdown_tracer)]"])
            (simp add: defs res_def tx_def mx_def)
      next
        case 3: None
        let ?t3 = "?t2 @ [(mx, None)]"
        show ?thesis
        proof (cases "replies V ?t3 Start_runtime")
          case (Some e)
          let ?t4 = "?t3 @ [(Start_runtime, Some e)]"
          let ?m = "(Shutdown_meter, replies V ?t4 Shutdown_meter)"
          show ?thesis using Some assms 1 2 3
            by (intro exI [of _ "[(res, None), (tx, None), (mx, None), (Start_runtime, Some e), ?m,
                  (Shutdown_tracer, replies V (?t4 @ [?m]) Shutdown_tracer)]"])
              (simp add: defs res_def tx_def mx_def)
        next
          case None
          then show ?thesis using assms 1 2 3
            by (intro exI [of _ "[(res, None), (tx, None), (mx, None), (Start_runtime, None)]"])
              (auto simp: defs res_def tx_def mx_def)
        qed
      qed
    qed
  qed
  then obtain seg where s: "tr' = tr @ seg" "fst ` set seg \<subseteq> {res, tx, mx, Start_runtime, Shutdown_tracer, Shutdown_meter}"
    "isl r \<longrightarrow> \<not> provider_left seg" by blast
  have "pools_left seg = 0" by (rule pools_left_none) (use s(2) in \<open>auto simp: res_def tx_def mx_def\<close>)
  with s show ?thesis by blast
qed

lemma opened_leaves:
  assumes "openPostgresPool V url direct path tr = (r, tr')"
  shows "\<exists>seg. tr' = tr @ seg \<and> pools_left seg = (if isl r then 0 else 1)"
proof (cases r)
  case (Inl e)
  then show ?thesis using pool_trace [OF assms] by auto
next
  case (Inr pool)
  then obtain ms ps where *: "tr' = tr @ ms @ (Open_pool pool, None) # ps"
      "fst ` set ms \<subseteq> {Migrate_new (''file://'' @ path) direct, Migrate_up, Migrate_close}" "fst ` set ps \<subseteq> {Ping}"
    using pool_trace [OF assms] by auto
  have "pools_left ms = 0" by (rule pools_left_none) (use *(2) in auto)
  moreover have "pools_left ps = 0" by (rule pools_left_none) (use *(3) in auto)
  moreover have "pools_left ((Open_pool pool, None) # ps) = 1 + pools_left ps"
    by (subst pools_left_simps(3)) (simp add: pools_left_def)
  ultimately show ?thesis using * Inr by (intro exI [of _ "ms @ (Open_pool pool, None) # ps"]) simp
qed

lemma adapters_leave:
  assumes "inventory_adapters V tr = (r, tr')"
  shows "\<exists>seg. tr' = tr @ seg \<and>
    (case r of Inl _ \<Rightarrow> pools_left seg = 0 | Inr a \<Rightarrow> pools_left seg = (if Close_repos \<in> set (ad_close a) then 1 else 0))"
proof (cases "os_getenv V ''DATABASE_URL'' = ''''")
  case True
  then have "tr' = tr \<and> (\<exists>a. r = Inr a \<and> Close_repos \<notin> set (ad_close a))" using assms
    by (auto simp: inventory_adapters_def buildAdapters_def memoryAdapters_def Let_def ret_def split: if_splits)
  then show ?thesis by (intro exI [of _ "[]"]) auto
next
  case False
  let ?url = "os_getenv V ''DATABASE_URL''"
  obtain v tr1 where o: "openPostgresPool V ?url (getenv V ''MIGRATIONS_DATABASE_URL'' ?url)
      (getenv V ''MIGRATIONS_PATH'' ''migrations'') tr = (v, tr1)" by force
  from opened_leaves [OF o] obtain seg where s: "tr1 = tr @ seg" "pools_left seg = (if isl v then 0 else 1)" by blast
  have "tr' = tr1 \<and> (case v of Inl e \<Rightarrow> r = Inl e | Inr pool \<Rightarrow> \<exists>a. r = Inr a \<and> Close_repos \<in> set (ad_close a))"
    using assms False o
    by (cases v)
      (auto simp: inventory_adapters_def buildAdapters_def postgresAdapters_def andthen_def ret_def Let_def split: if_splits)
  with s show ?thesis by (auto split: sum.splits)
qed

section \<open>The other processes\<close>

text \<open>\<open>run\<close> of cmd/mcp, cmd/inventory-projector and cmd/inventory-reports up to where they serve, as far as it can fail.\<close>

definition process_setup :: "boot_env \<Rightarrow> string \<Rightarrow> string option \<Rightarrow> unit boot" where
  "process_setup V name var = Setup V (getenv V ''OTEL_SERVICE_NAME'' name)
     (getenv V ''SERVICE_VERSION'' DefaultServiceVersion) (getenv V ''OTEL_EXPORTER_OTLP_ENDPOINT'' DefaultEndpoint) var"

definition run_process :: "boot_env \<Rightarrow> string \<Rightarrow> 'a boot \<Rightarrow> string option \<Rightarrow> 'a boot" where
  "run_process V name build var tr =
     (case process_setup V name var tr of
        (Inl e, tr1) \<Rightarrow> (Inl e, tr1)
      | (Inr _, tr1) \<Rightarrow> (case build tr1 of (Inl e, tr2) \<Rightarrow> (Inl e, flush V tr2) | (Inr x, tr2) \<Rightarrow> (Inr x, tr2)))"

definition mcp_adapters :: "boot_env \<Rightarrow> repos boot" where
  "mcp_adapters V = (let databaseURL = os_getenv V ''DATABASE_URL'' in
     mcp_buildAdapters V databaseURL (getenv V ''MIGRATIONS_DATABASE_URL'' databaseURL) (getenv V ''MIGRATIONS_PATH'' ''migrations''))"

definition run_mcp :: "boot_env \<Rightarrow> string option \<Rightarrow> repos boot" where
  "run_mcp V = run_process V ''inventory-storage-mcp'' (mcp_adapters V)"

definition run_reports :: "boot_env \<Rightarrow> string option \<Rightarrow> pool_config boot" where
  "run_reports V = run_process V ''inventory-reports'' (reports_pool V)"

definition run_projector :: "boot_env \<Rightarrow> string option \<Rightarrow> pool_config boot" where
  "run_projector V = run_process V ''inventory-projector'' (projector_pool V)"

text \<open>What a process builds its adapters with: it owns a pool when it is done, or it has left none.\<close>

locale pool_owner =
  fixes build :: "'a boot" and owns :: "'a \<Rightarrow> bool"
  assumes leaves: "build tr = (r, tr') \<Longrightarrow> \<exists>seg. tr' = tr @ seg \<and>
    pools_left seg = (case r of Inl _ \<Rightarrow> 0 | Inr x \<Rightarrow> if owns x then 1 else 0)"
begin

lemma process_leaves:
  assumes "run_process V name build var tr = (r, tr')"
  shows "\<exists>seg. tr' = tr @ seg \<and> pools_left seg = (case r of Inl _ \<Rightarrow> 0 | Inr x \<Rightarrow> if owns x then 1 else 0) \<and>
    (isl r \<longrightarrow> \<not> provider_left seg)"
proof -
  obtain r1 tr1 where s: "process_setup V name var tr = (r1, tr1)" by force
  obtain s1 where s1: "tr1 = tr @ s1" "pools_left s1 = 0" "isl r1 \<longrightarrow> \<not> provider_left s1"
    using setup_leaves s unfolding process_setup_def by blast
  show ?thesis
  proof (cases r1)
    case (Inl e)
    then show ?thesis using assms s s1 by (auto simp: run_process_def)
  next
    case (Inr u)
    obtain r2 tr2 where b: "build tr1 = (r2, tr2)" by force
    from leaves [OF b] obtain s2 where s2: "tr2 = tr1 @ s2"
        "pools_left s2 = (case r2 of Inl _ \<Rightarrow> 0 | Inr x \<Rightarrow> if owns x then 1 else 0)" by blast
    show ?thesis
    proof (cases r2)
      case Inl2: (Inl e)
      then have "r = Inl e" "tr' = flush V (tr @ s1 @ s2)"
        using assms s Inr b s1(1) s2(1) by (auto simp: run_process_def)
      with flush_after [of V tr "s1 @ s2"] show ?thesis using s1 s2 Inl2 by auto
    next
      case Inr2: (Inr x)
      then show ?thesis using assms s Inr b s1 s2 by (auto simp: run_process_def)
    qed
  qed
qed

end

lemma mcp_opens: "mcp_buildAdapters V url direct path =
    (if url = '''' then ret Memory_repos else andthen (openPostgresPool V url direct path) (\<lambda>pool. ret (Postgres_repos pool)))"
  by (simp add: mcp_buildAdapters_def openPostgresPool_def andthen_assoc)

lemma mcp_leaves:
  assumes "mcp_adapters V tr = (r, tr')"
  shows "\<exists>seg. tr' = tr @ seg \<and> pools_left seg = (case r of Inl _ \<Rightarrow> 0 | Inr x \<Rightarrow> if x \<noteq> Memory_repos then 1 else 0)"
proof (cases "os_getenv V ''DATABASE_URL'' = ''''")
  case True
  then show ?thesis using assms by (simp add: mcp_adapters_def mcp_opens Let_def ret_def) auto
next
  case False
  let ?url = "os_getenv V ''DATABASE_URL''"
  obtain v tr1 where o: "openPostgresPool V ?url (getenv V ''MIGRATIONS_DATABASE_URL'' ?url)
      (getenv V ''MIGRATIONS_PATH'' ''migrations'') tr = (v, tr1)" by force
  have "tr' = tr1 \<and> (case v of Inl e \<Rightarrow> r = Inl e | Inr pool \<Rightarrow> r = Inr (Postgres_repos pool))"
    using assms False o by (cases v) (simp_all add: mcp_adapters_def mcp_opens Let_def andthen_def ret_def)
  with opened_leaves [OF o] show ?thesis by (auto split: sum.splits)
qed

lemma pinged_leaves:
  assumes "pinged V what True pool tr = (r, tr')"
  shows "\<exists>seg. tr' = tr @ seg \<and> pools_left seg = (if isl r then - 1 else 0)"
proof -
  obtain v tr1 where p: "retried V what (call V Ping) tr = (v, tr1)" by force
  from ping_answered [OF p] obtain ps where ps: "tr1 = tr @ ps" "fst ` set ps \<subseteq> {Ping}" by blast
  have z: "pools_left ps = 0" by (rule pools_left_none) (use ps(2) in auto)
  show ?thesis
  proof (cases v)
    case (Inl e)
    obtain x where "snd (call V Close_pool tr1) = tr1 @ [(Close_pool, x)]" using call_trace by blast
    moreover have "pools_left [(Close_pool, x)] = - 1" by (simp add: pools_left_def)
    ultimately show ?thesis using assms p ps z Inl
      by (intro exI [of _ "ps @ [(Close_pool, x)]"]) (auto simp: pinged_def)
  next
    case (Inr u)
    then show ?thesis using assms p ps z by (auto simp: pinged_def)
  qed
qed

lemma reports_leaves:
  assumes "reports_pool V tr = (r, tr')"
  shows "\<exists>seg. tr' = tr @ seg \<and> pools_left seg = (case r of Inl _ \<Rightarrow> 0 | Inr x \<Rightarrow> if True then 1 else 0)"
proof -
  let ?url = "os_getenv V ''ANALYTICS_DATABASE_URL''"
  let ?cfg = "\<lparr>pc_url = ?url, pc_maxConns = ReportsMaxConns, pc_statementTimeout = ReportsStatementTimeout, pc_readOnly = True\<rparr>"
  show ?thesis
  proof (cases "?url = '''' \<or> parse_url V ?url \<noteq> None \<or> replies V tr (Open_pool ?cfg) \<noteq> None")
    case True
    then have "isl r \<and> (tr' = tr \<or> (\<exists>e. tr' = tr @ [(Open_pool ?cfg, Some e)]))"
      using assms
      by (auto simp: reports_pool_def NewReadOnlyPool_def an_newPoolWithLimits_def open_pool_def andthen_def call_def throw_def
          Let_def split: option.splits if_splits)
    then show ?thesis by (auto simp: pools_left_def split: sum.split)
  next
    case False
    then have "pinged V ''ping analytics database'' True ?cfg (tr @ [(Open_pool ?cfg, None)]) = (r, tr')"
      using assms
      by (simp add: reports_pool_def NewReadOnlyPool_def an_newPoolWithLimits_def open_pool_def andthen_def call_def ret_def Let_def)
    from pinged_leaves [OF this] obtain seg where
      "tr' = (tr @ [(Open_pool ?cfg, None)]) @ seg" "pools_left seg = (if isl r then - 1 else 0)" by blast
    moreover have "pools_left ([(Open_pool ?cfg, None)] @ seg) = 1 + pools_left seg"
      unfolding pools_left_simps(2) by (simp add: pools_left_def)
    ultimately show ?thesis
      by (intro exI [of _ "[(Open_pool ?cfg, None)] @ seg"]) (simp split: sum.splits)
  qed
qed

interpretation mcp_pool: pool_owner "mcp_adapters V" "\<lambda>x. x \<noteq> Memory_repos" for V
  by unfold_locales (rule mcp_leaves)

interpretation reports_pool_owner: pool_owner "reports_pool V" "\<lambda>_. True" for V
  by unfold_locales (rule reports_leaves)

section \<open>Properties\<close>

text \<open>
  C31. Whatever cmd/inventory fails at when it starts - telemetry, migrations, the pool, the metrics, the location
  lookup - it leaves neither a pool nor a telemetry provider behind; and when it starts, it has one pool exactly
  if it is going to close one.
\<close>

theorem failed_start_leaves_nothing:
  assumes "run_inventory V var meter L tr = (r, tr')"
  shows "\<exists>seg. tr' = tr @ seg \<and>
    (case r of Failed _ \<Rightarrow> pools_left seg = 0 \<and> \<not> provider_left seg
     | Started a choice \<Rightarrow> pools_left seg = (if Close_repos \<in> set (ad_close a) then 1 else 0))"
proof -
  obtain r1 tr1 where s: "inventory_setup V var tr = (r1, tr1)" by force
  obtain s1 where s1: "tr1 = tr @ s1" "pools_left s1 = 0" "isl r1 \<longrightarrow> \<not> provider_left s1"
    using setup_leaves s unfolding inventory_setup_def by blast
  show ?thesis
  proof (cases r1)
    case (Inl e)
    then show ?thesis using assms s s1 by (auto simp: run_inventory_def)
  next
    case (Inr u)
    obtain r2 tr2 where a: "inventory_adapters V tr1 = (r2, tr2)" by force
    obtain s2 where s2: "tr2 = tr1 @ s2" "case r2 of Inl _ \<Rightarrow> pools_left s2 = 0
        | Inr a \<Rightarrow> pools_left s2 = (if Close_repos \<in> set (ad_close a) then 1 else 0)"
      using adapters_leave [OF a] by blast
    show ?thesis
    proof (cases r2)
      case Inl2: (Inl e)
      then have r: "r = Failed e" "tr' = flush V (tr @ s1 @ s2)"
        using assms s Inr a s1(1) s2(1) by (auto simp: run_inventory_def)
      from flush_after [of V tr "s1 @ s2"] show ?thesis using r s1 s2 Inl2 by auto
    next
      case Inr2: (Inr ad)
      obtain s3 where s3: "closeAdapters V ad tr2 = tr2 @ s3" "pools_left s3 = (if Close_repos \<in> set (ad_close ad) then - 1 else 0)"
        using closed_adapters by blast
      from assms s Inr a Inr2 consider
          (failed) e where "r = Failed e" "tr' = flush V (closeAdapters V ad tr2)"
        | (started) choice where "r = Started ad choice" "tr' = tr2"
        by (auto simp: run_inventory_def split: sum.splits)
      then show ?thesis
      proof cases
        case failed
        then have t: "tr' = flush V (tr @ s1 @ s2 @ s3)" using s1(1) s2(1) s3(1) by simp
        from flush_after [of V tr "s1 @ s2 @ s3"] show ?thesis using failed(1) t s1 s2 s3 Inr2 by auto
      next
        case started
        then show ?thesis using s1 s2 Inr2 by auto
      qed
    qed
  qed
qed

text \<open>The metrics cannot be made: the pool that was opened is closed.\<close>

definition demo_lookup :: lookup_env where
  "demo_lookup = \<lparr>le_clusters = (\<lambda>_. demo_cluster), le_stopped = (\<lambda>_. None), le_cache = demo_fc, le_replay = []\<rparr>"

lemma failed_start_leaves_nothing_witness:
  "let tr = snd (run_inventory (demo_boot ''kafka'') None (\<lambda>_. Some (InfraErr ''meter'')) demo_lookup []) in
   pools_left tr = 0 \<and> \<not> provider_left tr \<and> (Open_pool (service_pool ''db''), None) \<in> set tr"
proof -
  let ?r = "run_inventory (demo_boot ''kafka'') None (\<lambda>_. Some (InfraErr ''meter'')) demo_lookup []"
  have f: "case fst ?r of Failed e \<Rightarrow> True | Started _ _ \<Rightarrow> False" by code_simp
  have o: "list_ex (\<lambda>p. p = (Open_pool (service_pool ''db''), None)) (snd ?r)" by code_simp
  from f obtain e where "?r = (Failed e, snd ?r)" by (cases ?r) (auto split: start_result.splits)
  from failed_start_leaves_nothing [OF this] o show ?thesis by (auto simp: Let_def list_ex_iff)
qed

text \<open>
  Of the other processes, the MCP server and the reports service leave nothing behind either.
\<close>

theorem failed_process_leaves_nothing:
  "run_mcp V var tr = (r, tr') \<Longrightarrow> \<exists>seg. tr' = tr @ seg \<and>
     pools_left seg = (case r of Inl _ \<Rightarrow> 0 | Inr x \<Rightarrow> if x \<noteq> Memory_repos then 1 else 0) \<and> (isl r \<longrightarrow> \<not> provider_left seg)"
  "run_reports V var tr = (r', tr'') \<Longrightarrow> \<exists>seg. tr'' = tr @ seg \<and>
     pools_left seg = (case r' of Inl _ \<Rightarrow> 0 | Inr x \<Rightarrow> if True then 1 else 0) \<and> (isl r' \<longrightarrow> \<not> provider_left seg)"
  unfolding run_mcp_def run_reports_def by (rule mcp_pool.process_leaves reports_pool_owner.process_leaves; assumption)+

text \<open>The projector does not close its pool when the database does not answer the ping.\<close>

definition deaf_database :: boot_env where
  "deaf_database = \<lparr>os_getenv = (\<lambda>key. if key = ''ANALYTICS_DATABASE_URL'' then ''db'' else ''''),
     replies = (\<lambda>tr c. if c = Ping then Some (InfraErr ''connection refused'') else None),
     cancelled = (\<lambda>_. None), parse_url = (\<lambda>_. None), parse_duration = (\<lambda>_. Inr 0)\<rparr>"

theorem projector_leaves_pool:
  "\<exists>e tr. run_projector deaf_database None [] = (Inl e, tr) \<and> pools_left tr = 1"
proof -
  have "case fst (run_projector deaf_database None []) of Inl e \<Rightarrow> True | Inr _ \<Rightarrow> False" by code_simp
  moreover have "pools_left (snd (run_projector deaf_database None [])) = 1" by code_simp
  ultimately show ?thesis by (cases "run_projector deaf_database None []") (auto split: sum.splits)
qed

section \<open>What the MCP server registers\<close>

text \<open>
  A tool with whether it is read-only, the template of a resource with its name and MIME type, and a prompt. Their
  descriptions are not kept.
\<close>

datatype registration = Tool string bool | Resource_template string string string | Prompt string

definition registerResources :: "registration list" where
  "registerResources = [Resource_template (usableResourceScheme @ ''{sku}'' @ usableResourceSuffix)
     ''usable inventory by SKU'' ''application/json'']"

text \<open>The text of the prompt is \<open>sop\<close>; it is handed out as the one message of the user.\<close>

definition registerPrompts :: "registration list" where
  "registerPrompts = [Prompt ''triage_low_stock'']"

definition prompt_messages :: "string \<Rightarrow> (string \<times> string) list" where
  "prompt_messages sop = [(''user'', sop)]"

definition NewServer :: "'w mcp_deps \<Rightarrow> string \<times> string \<times> registration list" where
  "NewServer D = (''inventory-storage-mcp'', ''1.0.0'',
     map (\<lambda>(name, readOnly). Tool name readOnly) (registerTools D) @ registerResources @ registerPrompts)"

text \<open>A tool that is registered is one that is answered, and only the revocation may change anything.\<close>

lemma server_offers:
  "Tool (tool_name c) ro \<in> set (snd (snd (NewServer D))) \<Longrightarrow> call_tool D c \<noteq> None"
  "Tool name False \<in> set (snd (snd (NewServer D))) \<longleftrightarrow> name = ''revoke_reservation''"
  by (force simp: NewServer_def call_tool_def registerTools_def registerReportTool_def registerResources_def registerPrompts_def
      split: option.splits)+

end
