(* ===== verification/Spec2Isabelle.thy ===== *)
theory Spec2Isabelle
  imports Operations Concurrency ProductProofs OutboxRelay Idempotency Deployment Memory DataProduct McpProofs
    FanOut Access Lifecycle
begin

text \<open>
  inventory-storage keeps the stock of a warehouse: which quantity of which product is in which bin, how much of
  it is promised to an order, and what was counted. It is a hexagonal Go service with four processes. cmd/inventory
  serves the REST API over Postgres; use cases write the tables and enqueue domain events in an outbox that a
  relay sends to Kafka. cmd/mcp offers a few of the use cases as tools. cmd/inventory-projector consumes the
  analytics topic into a read model, which cmd/inventory-reports serves. A stow asks another context,
  facility-layout, about the bin, through a cache fed from that context's topic or an HTTP client behind a circuit
  breaker.

  \<^bold>\<open>How the program is modelled.\<close> A Go function that returns a value and an error is a program
  \<open>('w, err, 'a) prog\<close>: a function from a world to an error or a value, and the world it leaves (Prelude). Structs
  are records, Go's int is an int that wraps at 64 bits (\<open>wrap64\<close>), a nil pointer is None, an interface is a record
  of functions over the world of its adapter (Ports). A method with a pointer receiver returns the updated record,
  except in Memory, where pointers matter. What is outside the repository, the database driver, the Kafka client,
  encoding/json, the CloudEvents SDK, net/http, gobreaker, chi, pgx, the migration tool, OpenTelemetry, is an
  argument of the definitions that call it (\<open>pg_env\<close>, \<open>sdk\<close>, \<open>codec\<close>, \<open>fc_env\<close>, \<open>lk_env\<close>, \<open>boot_env\<close>); any
  interaction with it may fail at any time, and properties hold for every choice of failures.

  \<^bold>\<open>The theories\<close>, from the bottom up:
  \<^item> Prelude: programs, triples over them, keyed tables. Errors: the sentinel errors.
  \<^item> Shared, Location, Stock, Reservation, Product: internal/domain. Each holds an aggregate, its methods and its
    invariant. ProductProofs: the type invariant of a classification, and the segregation matrix.
  \<^item> Ports: internal/application/ports, and the locale \<open>inventory_ports\<close>, the contract an adapter owes the use
    cases: what a save, a lookup, a publish and a unit of work do to an abstract snapshot of tables and event log.
  \<^item> UseCases: internal/application/usecases, one program per use case. Invariant, Effects, Allocation, Contracts:
    the abstract specification, that is the books of the inventory (\<open>sys_inv\<close>, \<open>books_ok\<close>) and, for each use case, a
    relation between the tables before and after it that keeps them. Outcomes: what the relations mean in amounts.
    UseCaseRules and UseCaseProofs: the programs implement the relations, over any ports that keep the contract.
    Service: sequences of use cases (\<open>reach\<close>).
  \<^item> CloudEvents: the envelope and the encoders (internal/adapters/kafka/cloudevents, outbound/kafka). Postgres:
    the repositories, the unit of work and the outbox publisher (outbound/postgres). PostgresProofs: they keep the
    contract, which gives the properties of the use cases over the database (\<open>interpretation pg\<close>).
  \<^item> Demo: the concrete deployment that the witnesses are evaluated in. Operations and this theory: the properties of
    the use cases over Postgres.
  \<^item> Preserves, Concurrency: the version columns, when other sessions write in between.
  \<^item> OutboxRelay: the relay and its sink. Publishers: publishers that do without the outbox, and trace headers.
    FanOut: the writers of Kafka, and that the outbox sends what publishing directly would have sent.
  \<^item> Http, Frames, Idempotency: inbound/http, that is DTOs, handlers, problem responses, routes, and the middleware
    that replays creations. Access: the request log, CORS, and the routers of cmd/mcp and the projector.
  \<^item> FacilityCache, Lookup: the view of facility-layout, the HTTP client with its breaker, bootretry, and the choice
    between them.
  \<^item> Analytics, AnalyticsProofs, DataProduct, Reports: internal/analytics, analyticsstore, the analytics consumer,
    the reports service and its client.
  \<^item> Mcp, McpProofs: inbound/mcp and what cmd/mcp wires.
  \<^item> Boot, BootProofs, Deployment: how the processes start, which adapters they choose, and a second interpretation
    of \<open>inventory_ports\<close>, in which events are only logged. Memory: the repositories without a database.
  \<^item> Serving: the processes at work as state machines - a main goroutine with its list of tasks, requests, background
    goroutines - with the locales \<open>graceful\<close> and \<open>announced\<close> of the programs that stop in order, and their
    interpretations. Clients: what the client libraries are told (consumer groups, the breaker, the instruments, the
    logger, the transaction of a context). Lifecycle: \<open>run\<close> of the four processes from its first line
    until it serves, and what the MCP server registers.

  \<^bold>\<open>What is shown.\<close> C1 to C11 are about the use cases over Postgres: the books balance after any sequence of them,
  whatever fails; what each of them does to amounts, and which events it enqueues in the same transaction; that an
  error leaves nothing half done, with the two exceptions the statements name; and that no concurrent update is
  lost. C12 and C13 are about the product rules, C14 about every Postgres deployment. The following ones are about
  retried requests, the relay and that it is transparent, requests from browsers, the MCP server, the facility cache
  and its lookups, starting up and shutting down, the memory repositories and the data product. C22, C23, C25 and the
  theorems \<open>key_shared_by_endpoints\<close>, \<open>gate_loses_failed_event\<close>, \<open>relay_bounded_attempts_overtake\<close>,
  \<open>tools_announce_nothing\<close>, \<open>listen_failure_closes_under_requests\<close>, \<open>projector_closes_under_consumer\<close>,
  \<open>no_window_for_the_probe\<close> and \<open>projector_leaves_pool\<close> show where the code does less than it says.

  \<^bold>\<open>Bounds.\<close> Quantities fit the integer columns of the database (\<open>max_int4\<close>), which its encoder checks, so sums over a
  bin do not wrap; where a sum may wrap the model wraps it. Every loop of the program is a structural recursion,
  except the unbounded ones of the relay and the consumers, which run over a given list of passes or messages, so
  no fuel is used. Retries are bounded by the constants of the code. The main goroutine of a process takes each of its
  tasks once, whatever its surroundings do, and that it comes to its end is proved and not assumed.

  \<^bold>\<open>Not modelled.\<close> The world of Postgres is the database as one session sees it: isolation between transactions is
  not modelled, apart from Concurrency, where whole saves of other sessions come in between. Locks; goroutines and
  channels other than those of Serving, where a wait ends when what it waits for is there or at its deadline, at any
  time; panics; spans; log lines, apart from the one of each request; the text of the MCP server's prompt, and its transport;
  timestamps other than UTC nanoseconds; case folding and collation outside ASCII.
\<close>

section \<open>Properties of the service over its database\<close>

text \<open>
  C1. Whatever sequence of use cases is run, with whatever arguments, and whichever of their database
  calls fail or commit late, the books of the inventory balance afterwards: every unit has at least as
  much reserved as the ACTIVE reservations claim of it and no more than it holds, every bin is occupied
  by what its units hold and within its capacity, every reservation is for the sum of its allocations,
  no demand is claimed twice, and no transaction is left open.
\<close>

theorem service_keeps_books:
  assumes "at_rest E w" "reach (pg_ports E timeout) w w'"
  shows "at_rest E w'"
  using reach_at_rest [OF assms(2,1)] .

lemma service_keeps_books_witness:
  "at_rest demo_env (demo_run [Register_bin ''A'' 10, Stow ''S'' 5 ''A'', Reserve_stock ''S'' 3 ''D''])"
  by (rule service_keeps_books [OF demo_start [OF demo_env_ok] demo_reach]) (simp add: in64_def)

text \<open>
  C2. A reservation that is returned is ACTIVE in the database, for the SKU, the quantity and the demand
  that were asked for, its allocations add up to the quantity, and it is the only ACTIVE one for that
  demand: a retry is answered with the first reservation, never with a second claim.
\<close>

theorem reserve_claims_once:
  assumes "at_rest E w" "in64 q"
    and "ReserveStock_Execute (pg_ports E timeout) sk q ref w = (Inr r, w')"
  shows "0 < q \<and> active (tables w') (r_id r) \<and> demand (tables w') (r_id r) = Some (ref, sk, q) \<and>
    total a_quantity (r_allocations r) = q \<and>
    (\<forall>i. active (tables w') i \<and> demand (tables w') i = Some (ref, sk, q) \<longrightarrow> i = r_id r)"
proof -
  note r = at_restD [OF assms(1)]
  obtain s' where s': "0 < q" "expires\<^sup>*\<^sup>* (tables w) (inv s')" "same_terms (tables w) (inv s')"
      "pg_view E w' = Some s' \<and> stored (inv s') r \<and> r_status r = StatusActive \<and> r_demandRef r = ref \<and> isReplayOf r sk q \<or>
       (\<exists>d' ms. unclaimed ref sk q (inv s') \<and> reserved_new sk q ref (inv s') r d' \<and>
          pg_view E w' = Some (s'\<lparr>inv := d', log := snapshot.log s' @ ms\<rparr>))"
    using tripleR [OF pg.reserve [OF r(2,3)] r(1) assms(3)] by auto
  have b: "books_ok (inv s')" using books_ok_expires [OF s'(2,3)] assms(1) by (simp add: at_rest_def)
  then have inv: "sys_inv (inv s')" "claimed_once (inv s')" by (simp_all add: books_ok_def)
  have "active (tables w') (r_id r) \<and> demand (tables w') (r_id r) = Some (ref, sk, q) \<and>
      total a_quantity (r_allocations r) = q \<and> claimed_once (tables w')"
    using s'(4)
  proof
    assume "pg_view E w' = Some s' \<and> stored (inv s') r \<and> r_status r = StatusActive \<and> r_demandRef r = ref \<and> isReplayOf r sk q"
    then show ?thesis using stored_total [OF inv(1)] stored_active stored_demand inv(2)
      by (auto dest!: viewD simp: isReplayOf_def)
  next
    assume "\<exists>d' ms. unclaimed ref sk q (inv s') \<and> reserved_new sk q ref (inv s') r d' \<and>
        pg_view E w' = Some (s'\<lparr>inv := d', log := snapshot.log s' @ ms\<rparr>)"
    then show ?thesis
      using reserved_new_usable(2-4) [OF inv(1) _ s'(1) assms(2)] books_ok_reserved [OF _ _ s'(1) assms(2) b]
      by (auto dest!: viewD simp: books_ok_def)
  qed
  then show ?thesis using s'(1) by (auto simp: claimed_once_def)
qed

lemma reserve_claims_once_witness:
  "let w' = snd (ReserveStock_Execute (pg_ports demo_env 0) ''S'' 3 ''D'' demo_stocked) in
   active (tables w') ''res-x'' \<and> (\<forall>i. active (tables w') i \<and> demand (tables w') i = Some (''D'', ''S'', 3) \<longrightarrow> i = ''res-x'')"
proof -
  have "case fst (ReserveStock_Execute (pg_ports demo_env 0) ''S'' 3 ''D'' demo_stocked) of
      Inl e \<Rightarrow> False | Inr r \<Rightarrow> r_id r = ''res-x''" by code_simp
  then obtain r where
      "ReserveStock_Execute (pg_ports demo_env 0) ''S'' 3 ''D'' demo_stocked =
        (Inr r, snd (ReserveStock_Execute (pg_ports demo_env 0) ''S'' 3 ''D'' demo_stocked))" "r_id r = ''res-x''"
    by (rule ranE)
  with reserve_claims_once [OF demo_rests(2) _ this(1)] show ?thesis by (simp add: in64_def Let_def)
qed





text \<open>
  C3. A pick that is confirmed takes an ACTIVE reservation that was not due to CONFIRMED, and takes what
  it was allocated of every unit off the unit's quantity and off its reserved quantity alike; the bins
  still hold what their units hold, and StockPicked is enqueued in the same transaction.
\<close>

theorem confirm_takes_stock:
  assumes "at_rest E w" "ConfirmPick_Execute (pg_ports E timeout) i w = (Inr (), w')"
  shows "active (tables w) i \<and> status_of w' i = Some StatusConfirmed \<and>
    (\<forall>u. reserved_of (tables w') u = reserved_of (tables w) u - allocated (tables w) i u \<and>
         quantity_of (tables w') u = quantity_of (tables w) u - allocated (tables w) i u) \<and>
    (\<forall>b \<in> set (bins (tables w')). b_occupied b = held (tables w') (b_id b)) \<and>
    (\<exists>r t ms. r_id r = i \<and> \<not> IsExpired r t \<and>
       enqueued (pg_wire E) [StockPicked t i (r_sku r) (r_quantity r)] (ress (tables w')) ms \<and>
       outbox_log w' = outbox_log w @ ms)"
proof -
  note r = at_restD [OF assms(1)]
  obtain res d' t ms where s: "r_id res = i" "\<not> IsExpired res t" "taken res (tables w) d'"
      "enqueued (pg_wire E) [StockPicked t i (r_sku res) (r_quantity res)] (ress d') ms"
      "pg_view E w' = Some ((snap w)\<lparr>inv := d', log := outbox_log w @ ms\<rparr>)"
    using tripleR [OF pg.confirm [OF r(2)] r(1) assms(2)] by auto
  from viewD [OF s(5)] have w': "tables w' = d'" "outbox_log w' = outbox_log w @ ms" by simp_all
  have "b_occupied b = held d' (b_id b)" if "b \<in> set (bins d')" for b
    using taken_keeps [OF r(4) s(3)] that by (simp add: sys_inv_def ledger_def)
  then show ?thesis
    using taken_amounts [OF r(4) s(3)] s(1,2,4) w' unfolding status_of_def by blast
qed

lemma confirm_takes_stock_witness:
  "let w' = snd (ConfirmPick_Execute (pg_ports demo_env 0) ''res-x'' demo_reserved) in
   status_of w' ''res-x'' = Some StatusConfirmed \<and> quantity_of (tables w') ''su-x'' = 2"
proof -
  have ran: "fst (ConfirmPick_Execute (pg_ports demo_env 0) ''res-x'' demo_reserved) = Inr ()" by code_simp
  have "quantity_of (tables demo_reserved) ''su-x'' = 5" "allocated (tables demo_reserved) ''res-x'' ''su-x'' = 3"
    by code_simp+
  with confirm_takes_stock [OF demo_rests(3) run_split [where m = "ConfirmPick_Execute (pg_ports demo_env 0) ''res-x''", OF ran]]
  show ?thesis by (simp add: Let_def)
qed

text \<open>
  C9. A pick that is refused leaves the database as it was, unless the reservation was due: then it has
  been taken to EXPIRED, its stock given back, and ReservationExpired enqueued, once and in one
  transaction, and the caller is told that the reservation is resolved already.
\<close>

theorem confirm_refused:
  assumes "at_rest E w" "ConfirmPick_Execute (pg_ports E timeout) i w = (Inl e, w')"
  shows "tables w' = tables w \<and> outbox_log w' = outbox_log w \<or>
    e = ReservationErr ErrAlreadyResolved \<and> active (tables w) i \<and> status_of w' i = Some StatusExpired \<and>
    (\<forall>u. reserved_of (tables w') u = reserved_of (tables w) u - allocated (tables w) i u \<and>
         quantity_of (tables w') u = quantity_of (tables w) u) \<and>
    (\<exists>t ms. enqueued (pg_wire E) [ReservationExpired t i] (ress (tables w')) ms \<and>
       outbox_log w' = outbox_log w @ ms)"
proof -
  note r = at_restD [OF assms(1)]
  from tripleL [OF pg.confirm [OF r(2)] r(1) assms(2)]
  consider "pg_view E w' = Some (snap w)" | s' where "overdue (pg_wire E) (snap w) i e s'" "pg_view E w' = Some s'"
    by blast
  then show ?thesis
  proof cases
    case 1
    then show ?thesis by (auto dest: viewD)
  next
    case 2
    obtain res t d' ms where s: "e = ReservationErr ErrAlreadyResolved" "r_id res = i"
        "returned StatusExpired res (tables w) d'" "enqueued (pg_wire E) [ReservationExpired t i] (ress d') ms"
        "s' = (snap w)\<lparr>inv := d', log := outbox_log w @ ms\<rparr>"
      using 2(1) by (auto simp: overdue_def)
    from viewD [OF 2(2)] have w': "tables w' = d'" "outbox_log w' = outbox_log w @ ms" by (simp_all add: s(5))
    show ?thesis using returned_amounts [OF r(4) s(3)] s(1,2,4) w' unfolding status_of_def by blast
  qed
qed

lemma confirm_refused_witness:
  "let w' = snd (ConfirmPick_Execute (pg_ports demo_late 0) ''res-x'' demo_reserved) in
   status_of w' ''res-x'' = Some StatusExpired \<and> reserved_of (tables w') ''su-x'' = 0"
proof -
  have ran: "fst (ConfirmPick_Execute (pg_ports demo_late 0) ''res-x'' demo_reserved) =
      Inl (ReservationErr ErrAlreadyResolved)" by code_simp
  have "reserved_of (tables demo_reserved) ''su-x'' = 3" "allocated (tables demo_reserved) ''res-x'' ''su-x'' = 3"
    "status_of (snd (ConfirmPick_Execute (pg_ports demo_late 0) ''res-x'' demo_reserved)) ''res-x'' \<noteq>
     status_of demo_reserved ''res-x''"
    by code_simp+
  with confirm_refused [OF demo_rests(6) run_split [where m = "ConfirmPick_Execute (pg_ports demo_late 0) ''res-x''", OF ran]]
  show ?thesis by (auto simp: Let_def status_of_def)
qed

text \<open>
  C8. A use case that runs in one transaction and returns an error has changed no table and enqueued no
  message, wherever the call that failed was: the error is not one of a half-done operation.
\<close>

theorem error_rolls_back:
  assumes "at_rest E w" "command_ok c" "in_one_transaction c"
    and "run_command (pg_ports E timeout) c w = (Inl e, w')"
  shows "tables w' = tables w \<and> outbox_log w' = outbox_log w \<and> \<not> in_tx w'"
proof -
  note r = at_restD [OF assms(1)]
  have "pg_view E w' = Some (snap w)"
  proof (cases c)
    case (Receive sk q)
    then show ?thesis using tripleL [OF pg.receive [OF r(2)] r(1)] assms(4) by (simp add: discard_error)
  next
    case (Stow sk q b)
    then show ?thesis using tripleL [OF pg.stow [OF r(2)] r(1)] assms(4) by (simp add: discard_error)
  next
    case (Run_cycle_count b n)
    then have n: "0 \<le> n" "in64 n" using assms(2) by simp_all
    show ?thesis
      using tripleL [OF pg.cycle_count [OF r(2) n r(3)] r(1)] assms(4) Run_cycle_count by (simp add: discard_error)
  next
    case (Register_bin i cap)
    then show ?thesis using tripleL [OF pg.register [OF r(2,3)] r(1)] assms(4) by (simp add: discard_error)
  next
    case (Classify sk tags tc dot)
    obtain cr where cr: "p_classifications (pg_ports E timeout) = Some cr" by (simp add: pg_ports_def)
    then show ?thesis
      using tripleL [OF pg.classify [OF r(2) cr] r(1)] assms(4) Classify by (simp add: discard_error)
  next
    case (Get_bin i)
    then show ?thesis using tripleL [OF pg.get_bin r(1)] assms(4) by (simp add: discard_error)
  next
    case (Get_usable sk)
    then show ?thesis using tripleL [OF pg.get_usable r(1)] assms(4) by (simp add: discard_error)
  qed (use assms(3) in simp_all)
  from viewD [OF this] r(7) show ?thesis by simp
qed

lemma error_rolls_back_witness:
  "let w' = snd (run_command (pg_ports (demo_failing 24) 0) (Stow ''S'' 2 ''A'') demo_stocked) in
   tables w' = tables demo_stocked \<and> outbox_log w' = outbox_log demo_stocked"
proof -
  have ran: "fst (run_command (pg_ports (demo_failing 24) 0) (Stow ''S'' 2 ''A'') demo_stocked) =
      Inl (Wrapped ''postgres: insert outbox row for ItemStowed'' (InfraErr ''connection''))" by code_simp
  from error_rolls_back [OF demo_worlds_at_rest(2) [OF demo_failing_ok] _ _
      run_split [where m = "run_command (pg_ports (demo_failing 24) 0) (Stow ''S'' 2 ''A'')", OF ran]]
  show ?thesis by (simp add: Let_def)
qed

end
